(* ===== verification/Prelude.thy ===== *)
theory Prelude
  imports
    Main
    "HOL-Library.Word"
    "HOL-Library.Char_ord"
    "HOL-Library.List_Lexorder"
    "HOL-Library.Product_Lexorder"
begin

text \<open>
  Shared vocabulary of the development: names for the machine integers of the code, the
  decimal rendering that \<^verbatim>\<open>std::to_string\<close> and stream insertion perform, and generic
  facts on words and lists.  \<open>std::string\<close> is a list of bytes, here \<^typ>\<open>string\<close>; the
  imported orders make \<open><\<close> on \<^typ>\<open>string\<close> the byte-wise lexicographic order of
  \<^verbatim>\<open>std::string\<close> and \<open><\<close> on pairs the order of \<^verbatim>\<open>std::pair\<close>.
\<close>

section \<open>Machine integers\<close>

type_synonym u8 = "8 word"
type_synonym u32 = "32 word"
type_synonym u64 = "64 word"

text \<open>
  \<^verbatim>\<open>int64_t\<close> values are 64-bit words read with \<^const>\<open>sint\<close> where the sign matters.
\<close>

type_synonym i64 = "64 word"

text \<open>
  \<open>meta_simps\<close> collects the equations that evaluate the operations of the metadata state
  on its maps; \<open>wf_intros\<close> collects the rules that re-establish invariants.
\<close>

named_theorems meta_simps
named_theorems wf_intros

section \<open>Words\<close>

lemma word_add_diff_cancel: "(a::'a::len word) + (b - a) = b"
  by simp

lemma word_less_add_nonzero: "(a::'a::len word) < a + b \<Longrightarrow> b \<noteq> 0"
  by auto

text \<open>A word addition that ends above its start did not wrap.\<close>

lemma unat_add_no_wrap:
  fixes a b :: "'a::len word"
  assumes "a \<le> a + b"
  shows "unat (a + b) = unat a + unat b"
  using assms by (meson unat_plus_simple)

lemma less_add_iff_no_wrap:
  fixes a b :: "'a::len word"
  shows "a < a + b \<longleftrightarrow> b \<noteq> 0 \<and> unat a + unat b < 2 ^ LENGTH('a)"
proof
  assume l: "a < a + b"
  then have "unat (a + b) = unat a + unat b"
    by (intro unat_add_no_wrap) simp
  moreover have "unat (a + b) < 2 ^ LENGTH('a)"
    by (rule unsigned_less)
  ultimately show "b \<noteq> 0 \<and> unat a + unat b < 2 ^ LENGTH('a)"
    using l by auto
next
  assume r: "b \<noteq> 0 \<and> unat a + unat b < 2 ^ LENGTH('a)"
  then have "unat (a + b) = unat a + unat b"
    by (simp add: unat_word_ariths)
  moreover from r have "0 < unat b"
    by (simp add: unat_gt_0)
  ultimately show "a < a + b"
    by (simp add: word_less_nat_alt)
qed

text \<open>The test for overflow the other way round, on words alone.\<close>

lemma no_wrap_iff_le:
  fixes a b :: "'a::len word"
  shows "unat a + unat b < 2 ^ LENGTH('a) \<longleftrightarrow> a \<le> a + b"
proof
  assume "unat a + unat b < 2 ^ LENGTH('a)"
  then show "a \<le> a + b"
    by (simp add: word_le_nat_alt unat_word_ariths)
next
  assume le: "a \<le> a + b"
  have lt: "unat b < 2 ^ LENGTH('a)" "unat a < 2 ^ LENGTH('a)"
    by (rule unsigned_less)+
  show "unat a + unat b < 2 ^ LENGTH('a)"
  proof (rule ccontr)
    assume "\<not> unat a + unat b < 2 ^ LENGTH('a)"
    then have ge: "2 ^ LENGTH('a) \<le> unat a + unat b"
      by simp
    moreover have "unat a + unat b - 2 ^ LENGTH('a) < 2 ^ LENGTH('a)"
      using lt by linarith
    ultimately have "(unat a + unat b) mod 2 ^ LENGTH('a) = unat a + unat b - 2 ^ LENGTH('a)"
      by (simp add: le_mod_geq)
    moreover have "unat a \<le> (unat a + unat b) mod 2 ^ LENGTH('a)"
      using le by (simp add: word_le_nat_alt unat_word_ariths)
    ultimately show False
      using lt ge by linarith
  qed
qed

lemma word_less_add_one:
  fixes w :: "'a::len word"
  assumes "w \<noteq> -1"
  shows "w < w + 1"
proof -
  have "unat w \<noteq> unat (-1 :: 'a word)"
    using assms by (simp only: word_unat_eq_iff) simp
  moreover have "unat w < 2 ^ LENGTH('a)"
    by (rule unsigned_less)
  ultimately have "unat w + 1 < 2 ^ LENGTH('a)"
    unfolding unsigned_minus_1_eq_mask mask_eq_exp_minus_1 by linarith
  then show ?thesis
    by (simp add: less_add_iff_no_wrap)
qed

section \<open>Decimal rendering\<close>

text \<open>
  \<^verbatim>\<open>std::to_string(uint64_t)\<close> and \<^verbatim>\<open>operator<<\<close> on an unsigned integer print it in base
  ten without leading zeros.
\<close>

definition digit :: "nat \<Rightarrow> char" where
  "digit d = char_of (48 + d)"

fun nat_to_string :: "nat \<Rightarrow> string" where
  "nat_to_string n =
     (if n < 10 then [digit n] else nat_to_string (n div 10) @ [digit (n mod 10)])"

declare nat_to_string.simps [simp del]

definition to_string :: "u64 \<Rightarrow> string" where
  "to_string w = nat_to_string (unat w)"

text \<open>The digits read back give the number, so the rendering is injective.\<close>

definition string_to_nat :: "string \<Rightarrow> nat" where
  "string_to_nat = foldl (\<lambda>acc c. 10 * acc + (of_char c - 48)) 0"

lemma of_char_digit: "d < 10 \<Longrightarrow> of_char (digit d) = 48 + d"
  by (simp add: digit_def)

lemma string_to_nat_to_string: "string_to_nat (nat_to_string n) = n"
proof (induction n rule: nat_to_string.induct)
  case (1 n)
  then show ?case
    by (cases "n < 10")
      (auto simp: nat_to_string.simps [of n] string_to_nat_def of_char_digit)
qed

lemma nat_to_string_inject [simp]: "nat_to_string m = nat_to_string n \<longleftrightarrow> m = n"
  by (metis string_to_nat_to_string)

lemma to_string_inject [simp]: "to_string v = to_string w \<longleftrightarrow> v = w"
  by (simp add: to_string_def word_unat_eq_iff)

lemma set_nat_to_string: "set (nat_to_string n) \<subseteq> digit ` {0..<10}"
proof (induction n rule: nat_to_string.induct)
  case (1 n)
  then show ?case
    by (cases "n < 10") (auto simp: nat_to_string.simps [of n])
qed

lemma not_in_nat_to_string:
  assumes "of_char c < (48::nat)"
  shows "c \<notin> set (nat_to_string n)"
proof
  assume "c \<in> set (nat_to_string n)"
  then obtain d where "d < 10" "c = digit d"
    using set_nat_to_string [of n] by auto
  with assms show False
    by (simp add: of_char_digit)
qed

lemma separators_not_in_to_string [simp]:
  "CHR ''/'' \<notin> set (to_string w)" "CHR ''-'' \<notin> set (to_string w)"
  by (simp_all add: to_string_def not_in_nat_to_string)

section \<open>Lists\<close>

lemma find_append:
  "find P (xs @ ys) = (case find P xs of None \<Rightarrow> find P ys | Some x \<Rightarrow> Some x)"
  by (induction xs) auto

lemma find_eq_None: "(find P xs = None) = (\<forall>x\<in>set xs. \<not> P x)"
  by (induction xs) auto

text \<open>A list sorted strictly by a key is determined by its set of elements.\<close>

lemma sorted_wrt_key_unique:
  fixes f :: "'a \<Rightarrow> 'k::linorder"
  assumes "sorted_wrt (\<lambda>x y. f x < f y) xs" and "sorted_wrt (\<lambda>x y. f x < f y) ys"
    and "set xs = set ys"
  shows "xs = ys"
  using assms
proof (induction xs arbitrary: ys)
  case Nil
  then show ?case by simp
next
  case (Cons x xs)
  then obtain y ys' where ys: "ys = y # ys'"
    by (cases ys) auto
  have "x = y"
  proof (rule ccontr)
    assume "x \<noteq> y"
    with Cons.prems(3) ys have "x \<in> set ys'" and "y \<in> set xs"
      by auto
    with Cons.prems(1,2) ys show False
      by (auto dest: less_asym)
  qed
  moreover have "x \<notin> set xs" and "y \<notin> set ys'"
    using Cons.prems(1,2) ys by auto
  ultimately have "set xs = set ys'"
    using Cons.prems(3) ys by auto
  with Cons.IH [of ys'] Cons.prems(1,2) ys \<open>x = y\<close> show ?case
    by auto
qed

end
