(* ===== verification/Ordered_Map.thy ===== *)
theory Ordered_Map
  imports Prelude
begin

text \<open>
  \<^verbatim>\<open>std::map\<close> as the code uses it: a finite map whose iteration visits the keys in
  ascending order.  A value is a list of entries strictly sorted by key, so two maps with
  the same entries are equal.  \<open>omap_lookup\<close> is \<open>find\<close>, \<open>omap_emplace\<close> is \<open>emplace\<close> (which
  leaves an existing entry alone), \<open>omap_put\<close> is a store through the reference that
  \<open>at\<close> or \<open>operator[]\<close> returns, \<open>omap_erase\<close> is \<open>erase\<close> by key and \<open>entries\<close> is the
  sequence a range-\<open>for\<close> visits.  The locale \<open>ordered_map\<close> states the laws the clients
  use; its interpretation on these operations ends the theory.
\<close>

section \<open>Entries sorted by key\<close>

abbreviation skeys :: "('k::linorder \<times> 'v) list \<Rightarrow> bool" where
  "skeys xs \<equiv> sorted_wrt (\<lambda>x y. fst x < fst y) xs"

fun upd_entry :: "'k::linorder \<Rightarrow> 'v \<Rightarrow> ('k \<times> 'v) list \<Rightarrow> ('k \<times> 'v) list" where
  "upd_entry k v [] = [(k, v)]"
| "upd_entry k v ((k', v') # xs) =
     (if k < k' then (k, v) # (k', v') # xs
      else if k = k' then (k, v) # xs
      else (k', v') # upd_entry k v xs)"

lemma set_upd_entry: "skeys xs \<Longrightarrow> set (upd_entry k v xs) = insert (k, v) {e \<in> set xs. fst e \<noteq> k}"
  by (induction k v xs rule: upd_entry.induct) (auto dest: order.strict_trans)

lemma skeys_upd_entry: "skeys xs \<Longrightarrow> skeys (upd_entry k v xs)"
  by (induction k v xs rule: upd_entry.induct) (auto simp: set_upd_entry dest: order.strict_trans)

lemma skeys_distinct: "skeys xs \<Longrightarrow> distinct (map fst xs)"
  by (induction xs) auto

lemma map_of_upd_entry: "skeys xs \<Longrightarrow> map_of (upd_entry k v xs) = (map_of xs)(k \<mapsto> v)"
proof (induction k v xs rule: upd_entry.induct)
  case (2 k v k' v' xs)
  then show ?case
    by (auto simp: fun_eq_iff)
qed simp

lemma skeys_filter: "skeys xs \<Longrightarrow> skeys (filter P xs)"
  by (rule sorted_wrt_filter)

section \<open>The type of ordered maps\<close>

typedef (overloaded) ('k, 'v) omap = "{xs :: ('k::linorder \<times> 'v) list. skeys xs}"
  morphisms entries Abs_omap
  by (rule exI [of _ "[]"]) simp

setup_lifting type_definition_omap

lift_definition omap_empty :: "('k::linorder, 'v) omap" is "[]"
  by simp

lift_definition omap_lookup :: "('k::linorder, 'v) omap \<Rightarrow> 'k \<Rightarrow> 'v option" is map_of .

lift_definition omap_put :: "'k::linorder \<Rightarrow> 'v \<Rightarrow> ('k, 'v) omap \<Rightarrow> ('k, 'v) omap" is upd_entry
  by (rule skeys_upd_entry)

lift_definition omap_erase :: "'k::linorder \<Rightarrow> ('k, 'v) omap \<Rightarrow> ('k, 'v) omap"
  is "\<lambda>k. filter (\<lambda>e. fst e \<noteq> k)"
  by (rule skeys_filter)

definition omap_emplace :: "'k::linorder \<Rightarrow> 'v \<Rightarrow> ('k, 'v) omap \<Rightarrow> ('k, 'v) omap" where
  "omap_emplace k v m = (case omap_lookup m k of None \<Rightarrow> omap_put k v m | Some _ \<Rightarrow> m)"

text \<open>Two maps are equal when their entries are.\<close>

instantiation omap :: (linorder, equal) equal
begin

definition equal_omap :: "('a, 'b) omap \<Rightarrow> ('a, 'b) omap \<Rightarrow> bool" where
  "equal_omap m n \<longleftrightarrow> HOL.equal (entries m) (entries n)"

instance
  by standard (simp add: equal_omap_def equal_eq entries_inject)

end

section \<open>Laws\<close>

lemma lookup_empty [simp]: "omap_lookup omap_empty k = None"
  by transfer simp

lemma lookup_put [simp]:
  "omap_lookup (omap_put k v m) k' = (if k' = k then Some v else omap_lookup m k')"
  by transfer (simp add: map_of_upd_entry)

lemma lookup_erase [simp]:
  "omap_lookup (omap_erase k m) k' = (if k' = k then None else omap_lookup m k')"
proof (transfer, goal_cases)
  case (1 k xs k')
  then show ?case
    by (induction xs) auto
qed

lemma lookup_emplace [simp]:
  "omap_lookup (omap_emplace k v m) k' =
     (if k' = k \<and> omap_lookup m k = None then Some v else omap_lookup m k')"
  by (auto simp: omap_emplace_def split: option.splits)

lemma emplace_fresh: "omap_lookup m k = None \<Longrightarrow> omap_emplace k v m = omap_put k v m"
  by (simp add: omap_emplace_def)

lemma skeys_entries [simp]: "skeys (entries m)"
  using entries by simp

lemma in_entries_iff: "(k, v) \<in> set (entries m) \<longleftrightarrow> omap_lookup m k = Some v"
  by transfer (simp add: skeys_distinct)

lemma lookup_eq_map_of: "omap_lookup m = map_of (entries m)"
  by transfer simp

lemma entries_empty [simp]: "entries omap_empty = []"
  by transfer simp

lemma omap_eqI:
  assumes "\<And>k. omap_lookup m k = omap_lookup n k"
  shows "m = n"
proof -
  have "set (entries m) = set (entries n)"
    using assms by (auto simp: in_entries_iff)
  then have "entries m = entries n"
    by (intro sorted_wrt_key_unique [where f = fst]) simp_all
  then show ?thesis
    by (simp add: entries_inject)
qed

lemma put_put [simp]: "omap_put k v (omap_put k w m) = omap_put k v m"
  by (rule omap_eqI) simp

lemma put_idem: "omap_lookup m k = Some v \<Longrightarrow> omap_put k v m = m"
  by (rule omap_eqI) auto

lemma finite_dom_lookup [simp]: "finite {k. omap_lookup m k \<noteq> None}"
proof -
  have "{k. omap_lookup m k \<noteq> None} = fst ` set (entries m)"
    by (force simp: in_entries_iff [symmetric] image_iff)
  then show ?thesis
    by simp
qed

text \<open>Emplacing the entries of a map one after the other rebuilds the map.\<close>

lemma lookup_fold_emplace:
  "omap_lookup (fold (\<lambda>(k, v). omap_emplace k v) xs m) k =
     (case omap_lookup m k of None \<Rightarrow> map_of xs k | Some v \<Rightarrow> Some v)"
  by (induction xs arbitrary: m) (auto split: option.splits)

lemma fold_emplace_entries: "fold (\<lambda>(k, v). omap_emplace k v) (entries m) omap_empty = m"
  by (rule omap_eqI) (simp only: lookup_fold_emplace lookup_empty option.case, simp only: lookup_eq_map_of)

section \<open>The interface\<close>

text \<open>
  What a client of a \<^verbatim>\<open>std::map\<close> relies on: the lookup laws of the updates, and that the
  iteration visits exactly the bindings, in strictly ascending order of the keys.
\<close>

locale ordered_map =
  fixes empty_map :: "'m"
    and lookup :: "'m \<Rightarrow> 'k::linorder \<Rightarrow> 'v option"
    and put :: "'k \<Rightarrow> 'v \<Rightarrow> 'm \<Rightarrow> 'm"
    and erase :: "'k \<Rightarrow> 'm \<Rightarrow> 'm"
    and items :: "'m \<Rightarrow> ('k \<times> 'v) list"
  assumes empty_law: "lookup empty_map k = None"
    and put_law: "lookup (put k v m) k' = (if k' = k then Some v else lookup m k')"
    and erase_law: "lookup (erase k m) k' = (if k' = k then None else lookup m k')"
    and items_law: "(k, v) \<in> set (items m) \<longleftrightarrow> lookup m k = Some v"
    and items_sorted: "sorted_wrt (\<lambda>x y. fst x < fst y) (items m)"
begin

text \<open>A range-\<open>for\<close> that looks for a binding finds one exactly when there is one.\<close>

lemma scan_none:
  "(\<forall>e \<in> set (items m). \<not> P (fst e) (snd e)) \<longleftrightarrow> (\<forall>k v. lookup m k = Some v \<longrightarrow> \<not> P k v)"
  using items_law by fastforce

text \<open>A range-\<open>for\<close> that collects bindings yields them once each, in key order.\<close>

lemma collect_sorted:
  "sorted_wrt (\<lambda>x y. fst x < fst y) (filter (\<lambda>e. P (fst e)) (items m))"
  by (rule sorted_wrt_filter) (rule items_sorted)

lemma collect_set:
  "(k, v) \<in> set (filter (\<lambda>e. P (fst e)) (items m)) \<longleftrightarrow> P k \<and> lookup m k = Some v"
  using items_law by auto

text \<open>A search by value returns the binding when it is unique.\<close>

lemma find_unique:
  assumes "lookup m k = Some v" and "\<And>k'. lookup m k' = Some v \<Longrightarrow> k' = k"
  shows "find (\<lambda>e. snd e = v) (items m) = Some (k, v)"
proof -
  have "find (\<lambda>e. snd e = v) (items m) \<noteq> None"
    using assms(1) items_law [of k v m] by (auto simp: find_None_iff)
  then obtain e where e: "find (\<lambda>e. snd e = v) (items m) = Some e"
    by auto
  then have "e \<in> set (items m)" and "snd e = v"
    by (auto simp: find_Some_iff)
  then have "lookup m (fst e) = Some v"
    using items_law [of "fst e" v m] by (metis prod.collapse)
  then have "fst e = k"
    by (rule assms(2))
  with e \<open>snd e = v\<close> show ?thesis
    by (metis prod.collapse)
qed

lemma find_missing:
  assumes "\<And>k. lookup m k \<noteq> Some v"
  shows "find (\<lambda>e. snd e = v) (items m) = None"
  using assms items_law [of _ v m] by (auto simp: find_None_iff)

end

interpretation om: ordered_map omap_empty omap_lookup omap_put omap_erase entries
  by unfold_locales (simp_all add: in_entries_iff)

end
