(* ===== verification/Errors.thy ===== *)
theory Errors
  imports Prelude
begin

text \<open>
  \<^verbatim>\<open>src/error.h\<close> and \<^verbatim>\<open>src/error.cc\<close>: the error kinds, the result type and the
  rendering of an error as a gRPC status.  \<^verbatim>\<open>Result<T>\<close> is \<open>std::expected<T, Error>\<close>, here
  a sum with the error on the left.  \<^verbatim>\<open>outcome\<close> is what a call can do in C++: return a
  value or an error through \<^verbatim>\<open>Result\<close>, leave by the \<^verbatim>\<open>std::out_of_range\<close> that
  \<^verbatim>\<open>std::map::at\<close> throws, or not return at all.
\<close>

section \<open>Error values\<close>

datatype ErrorKind =
    InvalidArgument
  | NotFound string
  | AlreadyExists string
  | NotDirectory string
  | IsDirectory string
  | DirectoryNotEmpty string
  | NotLeader u64
  | Unavailable
  | Timeout string
  | Internal
  | RaftFailure

record Error =
  kind :: ErrorKind
  message :: string

type_synonym 'a Result = "Error + 'a"

datatype 'a outcome = Ok 'a | Err Error | OutOfRange | NoReturn

definition MakeError :: "ErrorKind \<Rightarrow> string \<Rightarrow> Error" where
  "MakeError k m = \<lparr>kind = k, message = m\<rparr>"

lemma kind_MakeError [simp]: "kind (MakeError k m) = k"
  by (simp add: MakeError_def)

lemma message_MakeError [simp]: "message (MakeError k m) = m"
  by (simp add: MakeError_def)

section \<open>Rendering\<close>

fun KindName :: "ErrorKind \<Rightarrow> string" where
  "KindName InvalidArgument = ''InvalidArgument''"
| "KindName (NotFound _) = ''NotFound''"
| "KindName (AlreadyExists _) = ''AlreadyExists''"
| "KindName (NotDirectory _) = ''NotDirectory''"
| "KindName (IsDirectory _) = ''IsDirectory''"
| "KindName (DirectoryNotEmpty _) = ''DirectoryNotEmpty''"
| "KindName (NotLeader _) = ''NotLeader''"
| "KindName Unavailable = ''Unavailable''"
| "KindName (Timeout _) = ''Timeout''"
| "KindName Internal = ''Internal''"
| "KindName RaftFailure = ''RaftFailure''"

text \<open>\<^verbatim>\<open>ToString\<close> of an error; the source's name is taken by the integer rendering.\<close>

definition ErrorToString :: "Error \<Rightarrow> string" where
  "ErrorToString e =
     (if message e = [] then KindName (kind e) else KindName (kind e) @ '': '' @ message e)"

section \<open>gRPC status\<close>

text \<open>The status codes of \<^verbatim>\<open>grpc::StatusCode\<close> and a status, a code with a message.\<close>

datatype StatusCode =
    OK | CANCELLED | UNKNOWN | INVALID_ARGUMENT | DEADLINE_EXCEEDED | NOT_FOUND
  | ALREADY_EXISTS | PERMISSION_DENIED | RESOURCE_EXHAUSTED | FAILED_PRECONDITION
  | ABORTED | OUT_OF_RANGE | UNIMPLEMENTED | INTERNAL | UNAVAILABLE | DATA_LOSS
  | UNAUTHENTICATED

record Status =
  error_code :: StatusCode
  error_message :: string

definition Status_OK :: Status where
  "Status_OK = \<lparr>error_code = OK, error_message = []\<rparr>"

definition status_ok :: "Status \<Rightarrow> bool" where
  "status_ok st \<longleftrightarrow> error_code st = OK"

fun ToGrpcStatusCode :: "ErrorKind \<Rightarrow> StatusCode" where
  "ToGrpcStatusCode InvalidArgument = INVALID_ARGUMENT"
| "ToGrpcStatusCode (NotFound _) = NOT_FOUND"
| "ToGrpcStatusCode (AlreadyExists _) = ALREADY_EXISTS"
| "ToGrpcStatusCode (NotDirectory _) = FAILED_PRECONDITION"
| "ToGrpcStatusCode (IsDirectory _) = FAILED_PRECONDITION"
| "ToGrpcStatusCode (DirectoryNotEmpty _) = FAILED_PRECONDITION"
| "ToGrpcStatusCode (NotLeader _) = FAILED_PRECONDITION"
| "ToGrpcStatusCode Unavailable = UNAVAILABLE"
| "ToGrpcStatusCode (Timeout _) = DEADLINE_EXCEEDED"
| "ToGrpcStatusCode Internal = INTERNAL"
| "ToGrpcStatusCode RaftFailure = UNAVAILABLE"

definition ToGrpcStatus :: "Error \<Rightarrow> Status" where
  "ToGrpcStatus e = \<lparr>error_code = ToGrpcStatusCode (kind e), error_message = ErrorToString e\<rparr>"

lemma ToGrpcStatus_not_ok [simp]: "\<not> status_ok (ToGrpcStatus e)"
  by (cases "kind e") (simp_all add: status_ok_def ToGrpcStatus_def)

lemma Status_OK_ok [simp]: "status_ok Status_OK"
  by (simp add: status_ok_def Status_OK_def)

section \<open>Raft errors\<close>

text \<open>
  \<^verbatim>\<open>raftpp::RaftError\<close> belongs to the Raft library.  The code asks it three questions
  and prints it; these observations are the fields of \<open>raft_error\<close>.
\<close>

record raft_error =
  is_timeout :: bool
  is_lost_leadership :: bool
  is_shutting_down :: bool
  raft_text :: string

definition FromRaftError :: "raft_error \<Rightarrow> Error" where
  "FromRaftError e =
     (if is_timeout e then MakeError (Timeout ''raft proposal'') (raft_text e)
      else if is_lost_leadership e then MakeError (NotLeader 0) (raft_text e)
      else if is_shutting_down e then MakeError Unavailable (raft_text e)
      else MakeError RaftFailure (raft_text e))"

end
