(* ===== verification/Messages.thy ===== *)
theory Messages
  imports Prelude
begin

text \<open>
  The messages of \<^verbatim>\<open>proto/pulpfs.proto\<close> that the metadata state and the services
  exchange.  Field names follow the schema; a field whose name another record or the
  library already uses carries a prefix (\<open>a_\<close> for \<^verbatim>\<open>InodeAttrs\<close>, \<open>l_\<close> for
  \<^verbatim>\<open>FileLayout\<close>, \<open>de_\<close> for \<^verbatim>\<open>DirectoryEntry\<close>, \<open>sa_\<close> for \<^verbatim>\<open>SetAttrCommand\<close>).
  The wire encoding belongs to generated code and is a parameter wherever it is used.
\<close>

datatype InodeType = INODE_TYPE_UNSPECIFIED | INODE_TYPE_FILE | INODE_TYPE_DIRECTORY

record InodeAttrs =
  inode_id :: u64
  a_type :: InodeType
  a_mode :: u32
  a_uid :: u32
  a_gid :: u32
  a_size :: u64
  nlink :: u64
  version :: u64
  atime_ns :: i64
  mtime_ns :: i64
  ctime_ns :: i64
  a_chunk_size :: u64

definition default_attrs :: InodeAttrs where
  "default_attrs = \<lparr>inode_id = 0, a_type = INODE_TYPE_UNSPECIFIED, a_mode = 0, a_uid = 0,
     a_gid = 0, a_size = 0, nlink = 0, version = 0, atime_ns = 0, mtime_ns = 0,
     ctime_ns = 0, a_chunk_size = 0\<rparr>"

record DirectoryEntry =
  de_name :: string
  de_attrs :: InodeAttrs

record FileExtent =
  offset :: u64
  len :: u64
  object_key :: string
  etag :: string
  checksum :: string
  object_size :: u64
  object_offset :: u64

record FileLayout =
  l_attrs :: InodeAttrs
  l_chunk_size :: u64
  extents :: "FileExtent list"

definition default_layout :: FileLayout where
  "default_layout = \<lparr>l_attrs = default_attrs, l_chunk_size = 0, extents = []\<rparr>"

record SetAttrCommand =
  sa_inode_id :: u64
  set_mode :: bool
  sa_mode :: u32
  set_uid :: bool
  sa_uid :: u32
  set_gid :: bool
  sa_gid :: u32
  set_atime :: bool
  sa_atime_ns :: i64
  set_mtime :: bool
  sa_mtime_ns :: i64

record AppendWriteReply =
  aw_attrs :: InodeAttrs
  aw_append_start :: u64
  aw_committed_extents :: "FileExtent list"

text \<open>The commands of the replicated log, one constructor per member of the \<^verbatim>\<open>oneof\<close>.\<close>

datatype RaftCommand =
    MkdirCommand u64 string u32 u32 u32
  | CreateFileCommand u64 string u32 u32 u32
  | CommitWriteCommand u64 u64 "FileExtent list"
  | TruncateCommand u64 u64
  | UnlinkCommand u64 string
  | RmdirCommand u64 string
  | RenameCommand u64 string u64 string
  | SetAttrCommandOf SetAttrCommand
  | AppendWriteCommand u64 u64 "FileExtent list"
  | COMMAND_NOT_SET

record ErrorResponse =
  er_kind :: string
  er_message :: string
  er_path :: string

datatype RaftCommandResponse =
    AttrsResponse InodeAttrs
  | ErrorResponseOf ErrorResponse
  | AppendWriteResponse AppendWriteReply
  | RESPONSE_NOT_SET

record SnapshotLayout =
  sl_inode_id :: u64
  sl_layout :: FileLayout

record SnapshotDentry =
  sd_parent_inode_id :: u64
  sd_name :: string
  sd_child_inode_id :: u64

record MetaSnapshot =
  sn_next_inode_id :: u64
  sn_default_chunk_size :: u64
  sn_inodes :: "InodeAttrs list"
  sn_dentries :: "SnapshotDentry list"
  sn_layouts :: "SnapshotLayout list"

end
