(* ===== verification/Extents.thy ===== *)
theory Extents
  imports Messages "HOL-Library.Multiset"
begin

text \<open>
  The extent arithmetic of \<^verbatim>\<open>src/meta_state.cc\<close> (its anonymous namespace and the loop of
  \<^verbatim>\<open>Truncate\<close>).  A file's data is a list of extents, each a byte range of the file stored
  in a byte range of an object; offsets and lengths are 64-bit words that wrap.  The
  abstract view of a list is \<open>content\<close>: for each position of the file the object and the
  position in it that hold the byte.  \<open>MergeExtent\<close> is shown to implement overwriting on
  that view and to keep the list sorted and disjoint.
\<close>

section \<open>The code\<close>

definition ExtentEnd :: "FileExtent \<Rightarrow> u64" where
  "ExtentEnd e = offset e + len e"

definition Overlaps :: "FileExtent \<Rightarrow> FileExtent \<Rightarrow> bool" where
  "Overlaps l r \<longleftrightarrow> offset l < ExtentEnd r \<and> offset r < ExtentEnd l"

definition SliceExtent :: "FileExtent \<Rightarrow> u64 \<Rightarrow> u64 \<Rightarrow> FileExtent" where
  "SliceExtent e off l =
     (let delta = off - offset e
      in e\<lparr>offset := off, len := l, object_offset := object_offset e + delta\<rparr>)"

text \<open>
  The body of the loop of \<^verbatim>\<open>MergeExtent\<close>: what is pushed for one existing extent.
\<close>

definition merge_pieces :: "FileExtent \<Rightarrow> FileExtent \<Rightarrow> FileExtent list" where
  "merge_pieces extent existing =
     (if \<not> Overlaps existing extent then [existing]
      else (if offset existing < offset extent
            then [SliceExtent existing (offset existing) (offset extent - offset existing)]
            else []) @
           (if ExtentEnd extent < ExtentEnd existing
            then [SliceExtent existing (ExtentEnd extent) (ExtentEnd existing - ExtentEnd extent)]
            else []))"

text \<open>
  \<^verbatim>\<open>std::sort\<close> may leave elements with equal offsets in any order; \<open>sort_key\<close> keeps
  their order.  \<open>MergeExtent_any_sort\<close> below shows that the difference cannot be seen.
\<close>

definition MergeExtent :: "FileExtent list \<Rightarrow> FileExtent \<Rightarrow> FileExtent list" where
  "MergeExtent stored extent =
     sort_key offset (concat (map (merge_pieces extent) stored) @ [extent])"

text \<open>The loop of \<^verbatim>\<open>Truncate\<close> that keeps or cuts the stored extents.\<close>

fun truncate_extents :: "u64 \<Rightarrow> FileExtent list \<Rightarrow> FileExtent list" where
  "truncate_extents sz [] = []"
| "truncate_extents sz (e # es) =
     (if offset e \<ge> sz then truncate_extents sz es
      else if ExtentEnd e > sz
           then SliceExtent e (offset e) (sz - offset e) # truncate_extents sz es
           else e # truncate_extents sz es)"

section \<open>Abstract content\<close>

type_synonym content = "u64 \<Rightarrow> (string \<times> u64) option"

definition covers :: "FileExtent \<Rightarrow> u64 \<Rightarrow> bool" where
  "covers e p \<longleftrightarrow> offset e \<le> p \<and> p < ExtentEnd e"

definition source_of :: "FileExtent \<Rightarrow> u64 \<Rightarrow> string \<times> u64" where
  "source_of e p = (object_key e, object_offset e + (p - offset e))"

definition content :: "FileExtent list \<Rightarrow> content" where
  "content es p = map_option (\<lambda>e. source_of e p) (find (\<lambda>e. covers e p) es)"

text \<open>Writing an extent over a content, and writing several in order.\<close>

definition overwrite :: "FileExtent \<Rightarrow> content \<Rightarrow> content" where
  "overwrite e c = (\<lambda>p. if covers e p then Some (source_of e p) else c p)"

definition overwrite_all :: "FileExtent list \<Rightarrow> content \<Rightarrow> content" where
  "overwrite_all es c = fold overwrite es c"

lemma overwrite_all_Cons [simp]: "overwrite_all (e # es) c = overwrite_all es (overwrite e c)"
  by (simp add: overwrite_all_def)

lemma overwrite_all_Nil [simp]: "overwrite_all [] c = c"
  by (simp add: overwrite_all_def)

lemma overwrite_all_outside:
  "(\<And>e. e \<in> set es \<Longrightarrow> \<not> covers e p) \<Longrightarrow> overwrite_all es c p = c p"
  by (induction es arbitrary: c) (auto simp: overwrite_def)

text \<open>
  An extent is proper when its range is not empty and does not wrap; a list is laid out
  when its extents are proper, disjoint and sorted by position.
\<close>

definition proper :: "FileExtent \<Rightarrow> bool" where
  "proper e \<longleftrightarrow> offset e < ExtentEnd e"

definition disjoint_ext :: "FileExtent \<Rightarrow> FileExtent \<Rightarrow> bool" where
  "disjoint_ext x y \<longleftrightarrow> ExtentEnd x \<le> offset y \<or> ExtentEnd y \<le> offset x"

definition laid_out :: "FileExtent list \<Rightarrow> bool" where
  "laid_out es \<longleftrightarrow> (\<forall>e\<in>set es. proper e) \<and> sorted_wrt (\<lambda>x y. ExtentEnd x \<le> offset y) es"

definition below :: "u64 \<Rightarrow> FileExtent list \<Rightarrow> bool" where
  "below n es \<longleftrightarrow> (\<forall>e\<in>set es. ExtentEnd e \<le> n)"

lemma proper_iff: "proper e \<longleftrightarrow> len e \<noteq> 0 \<and> unat (offset e) + unat (len e) < 2 ^ 64"
  unfolding proper_def ExtentEnd_def by (simp add: less_add_iff_no_wrap)

lemma Overlaps_iff: "Overlaps x y \<longleftrightarrow> \<not> disjoint_ext x y"
  by (auto simp: Overlaps_def disjoint_ext_def)

lemma disjoint_ext_sym: "disjoint_ext x y \<Longrightarrow> disjoint_ext y x"
  by (auto simp: disjoint_ext_def)

lemma disjoint_ext_covers: "disjoint_ext x y \<Longrightarrow> covers x p \<Longrightarrow> \<not> covers y p"
  by (auto simp: disjoint_ext_def covers_def)

lemma covers_offset: "proper e \<Longrightarrow> covers e (offset e)"
  by (simp add: proper_def covers_def)

section \<open>Slices\<close>

lemma SliceExtent_sel [simp]:
  "offset (SliceExtent e off l) = off"
  "len (SliceExtent e off l) = l"
  "object_key (SliceExtent e off l) = object_key e"
  "object_offset (SliceExtent e off l) = object_offset e + (off - offset e)"
  by (simp_all add: SliceExtent_def Let_def)

lemma ExtentEnd_Slice [simp]: "ExtentEnd (SliceExtent e off (b - off)) = b"
  by (simp add: ExtentEnd_def)

lemma covers_Slice: "covers (SliceExtent e off (b - off)) p \<longleftrightarrow> off \<le> p \<and> p < b"
  by (simp add: covers_def)

lemma proper_Slice [simp]: "proper (SliceExtent e off (b - off)) \<longleftrightarrow> off < b"
  by (simp add: proper_def)

text \<open>A slice reads the bytes its extent read at the same positions.\<close>

lemma source_of_Slice [simp]: "source_of (SliceExtent e off l) p = source_of e p"
  by (simp add: source_of_def)

lemma in_merge_pieces:
  "y \<in> set (merge_pieces e x) \<longleftrightarrow>
     (if Overlaps x e
      then offset x < offset e \<and> y = SliceExtent x (offset x) (offset e - offset x) \<or>
           ExtentEnd e < ExtentEnd x \<and> y = SliceExtent x (ExtentEnd e) (ExtentEnd x - ExtentEnd e)
      else y = x)"
  unfolding merge_pieces_def
  by (cases "Overlaps x e"; cases "offset x < offset e"; cases "ExtentEnd e < ExtentEnd x") simp_all

lemma merge_pieces_source:
  "y \<in> set (merge_pieces e x) \<Longrightarrow> source_of y p = source_of x p"
  unfolding in_merge_pieces by (metis source_of_Slice)

lemma merge_pieces_proper:
  "proper x \<Longrightarrow> y \<in> set (merge_pieces e x) \<Longrightarrow> proper y"
  unfolding in_merge_pieces by (metis proper_Slice)

lemma merge_pieces_key: "y \<in> set (merge_pieces e x) \<Longrightarrow> object_key y = object_key x"
  unfolding in_merge_pieces by (metis SliceExtent_sel(3))

lemma merge_pieces_covers:
  assumes "proper e" and "proper x"
  shows "(\<exists>y\<in>set (merge_pieces e x). covers y p) \<longleftrightarrow> covers x p \<and> \<not> covers e p"
  using assms unfolding Bex_def in_merge_pieces
  by (cases "Overlaps x e")
    (auto simp: covers_def Overlaps_def proper_def conj_disj_distribR ex_disj_distrib)

lemma merge_pieces_range:
  assumes "proper x" and "proper e" and "y \<in> set (merge_pieces e x)"
  shows "offset x \<le> offset y" and "ExtentEnd y \<le> ExtentEnd x"
  using assms unfolding in_merge_pieces
  by (cases "Overlaps x e"; auto simp: Overlaps_def proper_def)+

lemma merge_pieces_disjoint_new:
  "proper x \<Longrightarrow> proper e \<Longrightarrow> y \<in> set (merge_pieces e x) \<Longrightarrow> disjoint_ext y e"
  unfolding in_merge_pieces
  by (cases "Overlaps x e"; auto simp: Overlaps_def disjoint_ext_def)

lemma merge_pieces_disjoint:
  "proper x \<Longrightarrow> proper e \<Longrightarrow> sorted_wrt disjoint_ext (merge_pieces e x)"
  by (cases "Overlaps x e")
    (auto simp: merge_pieces_def Overlaps_def disjoint_ext_def proper_def)

lemma disjoint_ext_shrink:
  assumes "disjoint_ext x y" and "proper x'" and "proper y'"
    and "offset x \<le> offset x'" and "ExtentEnd x' \<le> ExtentEnd x"
    and "offset y \<le> offset y'" and "ExtentEnd y' \<le> ExtentEnd y"
  shows "disjoint_ext x' y'"
  using assms unfolding disjoint_ext_def proper_def
  by (metis order_trans)

section \<open>Pairwise disjoint lists\<close>

text \<open>
  Disjointness is symmetric, so sorting keeps it: the pieces are disjoint before the sort.
\<close>

lemma sorted_wrt_disjoint_insort:
  "sorted_wrt disjoint_ext (insort_key f e es) \<longleftrightarrow>
     (\<forall>x\<in>set es. disjoint_ext e x) \<and> sorted_wrt disjoint_ext es"
  by (induction es) (auto simp: set_insort_key intro: disjoint_ext_sym)

lemma sorted_wrt_disjoint_sort:
  "sorted_wrt disjoint_ext (sort_key f es) \<longleftrightarrow> sorted_wrt disjoint_ext es"
  by (induction es) (auto simp: sorted_wrt_disjoint_insort)

lemma laid_out_disjoint: "laid_out es \<Longrightarrow> sorted_wrt disjoint_ext es"
  unfolding laid_out_def by (auto simp: disjoint_ext_def elim: sorted_wrt_mono_rel [rotated])

lemma laid_outI:
  assumes "\<forall>e\<in>set es. proper e" and "sorted_wrt disjoint_ext es" and "sorted (map offset es)"
  shows "laid_out es"
proof -
  have "sorted_wrt (\<lambda>x y. disjoint_ext x y \<and> offset x \<le> offset y) es"
    using assms(2,3) by (induction es) auto
  then have "sorted_wrt (\<lambda>x y. ExtentEnd x \<le> offset y) es"
    using assms(1)
    by (elim sorted_wrt_mono_rel [rotated]) (auto simp: disjoint_ext_def proper_def)
  with assms(1) show ?thesis
    by (simp add: laid_out_def)
qed

lemma laid_out_offsets:
  "laid_out es \<Longrightarrow> sorted_wrt (\<lambda>x y. offset x < offset y) es"
  unfolding laid_out_def
  by (auto simp: proper_def elim!: sorted_wrt_mono_rel [rotated] intro: less_le_trans)

lemma laid_out_ends: "laid_out (e # es) \<Longrightarrow> x \<in> set es \<Longrightarrow> ExtentEnd e \<le> offset x"
  by (simp add: laid_out_def)

text \<open>In a disjoint list the extent that covers a position is unique.\<close>

lemma find_covers:
  assumes "sorted_wrt disjoint_ext es" and "e \<in> set es" and "covers e p"
  shows "find (\<lambda>e. covers e p) es = Some e"
  using assms by (induction es) (auto dest: disjoint_ext_covers)

lemma content_Some_iff:
  assumes "sorted_wrt disjoint_ext es"
  shows "content es p = Some s \<longleftrightarrow> (\<exists>e\<in>set es. covers e p \<and> source_of e p = s)"
proof
  assume "content es p = Some s"
  then show "\<exists>e\<in>set es. covers e p \<and> source_of e p = s"
    by (auto simp: content_def find_Some_iff)
next
  assume "\<exists>e\<in>set es. covers e p \<and> source_of e p = s"
  with assms show "content es p = Some s"
    by (auto simp: content_def dest: find_covers)
qed

lemma content_None_iff: "content es p = None \<longleftrightarrow> (\<forall>e\<in>set es. \<not> covers e p)"
  by (auto simp: content_def find_None_iff)

lemma content_Nil [simp]: "content [] p = None"
  by (simp add: content_def)

lemma content_Cons:
  "content (e # es) p = (if covers e p then Some (source_of e p) else content es p)"
  by (simp add: content_def)

lemma content_below: "below n es \<Longrightarrow> n \<le> p \<Longrightarrow> content es p = None"
  by (auto simp: content_None_iff below_def covers_def dest!: bspec)

text \<open>Writing a disjoint list over nothing gives its content.\<close>

lemma overwrite_all_disjoint:
  assumes "sorted_wrt disjoint_ext es"
  shows "overwrite_all es c p = (case content es p of None \<Rightarrow> c p | Some s \<Rightarrow> Some s)"
  using assms
proof (induction es arbitrary: c)
  case (Cons e es)
  have "content es p = None" if "covers e p"
    using Cons.prems that by (auto simp: content_None_iff dest: disjoint_ext_covers)
  with Cons show ?case
    by (auto simp: content_Cons overwrite_def split: option.split)
qed simp

lemma overwrite_all_content:
  "sorted_wrt disjoint_ext es \<Longrightarrow> overwrite_all es (\<lambda>_. None) = content es"
  by (rule ext) (simp add: overwrite_all_disjoint split: option.split)

section \<open>MergeExtent\<close>

lemma pieces_disjoint:
  assumes "sorted_wrt disjoint_ext es" and "\<forall>x\<in>set es. proper x" and "proper e"
  shows "sorted_wrt disjoint_ext (concat (map (merge_pieces e) es) @ [e])"
  using assms(1,2)
proof (induction es)
  case Nil
  then show ?case by simp
next
  case (Cons x es)
  have "disjoint_ext y z"
    if y: "y \<in> set (merge_pieces e x)" and x': "x' \<in> set es" and z: "z \<in> set (merge_pieces e x')"
    for y x' z
  proof (rule disjoint_ext_shrink [of x x'])
    show "disjoint_ext x x'"
      using Cons.prems(1) x' by simp
  qed (use Cons.prems(2) assms(3) x' y z in
      \<open>auto intro: merge_pieces_range merge_pieces_proper\<close>)
  with Cons assms(3) show ?case
    by (auto simp: sorted_wrt_append merge_pieces_disjoint intro: merge_pieces_disjoint_new)
qed

lemma set_MergeExtent:
  "set (MergeExtent es e) = insert e (\<Union>x\<in>set es. set (merge_pieces e x))"
  by (auto simp: MergeExtent_def)

lemma MergeExtent_proper:
  "\<forall>x\<in>set es. proper x \<Longrightarrow> proper e \<Longrightarrow> \<forall>x\<in>set (MergeExtent es e). proper x"
  by (auto simp: set_MergeExtent intro: merge_pieces_proper)

lemma MergeExtent_disjoint:
  assumes "laid_out es" and "proper e"
  shows "sorted_wrt disjoint_ext (MergeExtent es e)"
  using assms pieces_disjoint [of es e] laid_out_disjoint [of es]
  by (auto simp: MergeExtent_def sorted_wrt_disjoint_sort laid_out_def
      simp del: sort_key_simps)

lemma MergeExtent_laid_out:
  assumes "laid_out es" and "proper e"
  shows "laid_out (MergeExtent es e)"
proof (rule laid_outI)
  show "\<forall>x\<in>set (MergeExtent es e). proper x"
    using assms by (intro MergeExtent_proper) (simp_all add: laid_out_def)
  show "sorted_wrt disjoint_ext (MergeExtent es e)"
    using assms by (rule MergeExtent_disjoint)
  show "sorted (map offset (MergeExtent es e))"
    by (simp add: MergeExtent_def del: sort_key_simps)
qed

text \<open>The list implements overwriting: the new extent wins, the rest is what it was.\<close>

lemma MergeExtent_content:
  assumes "laid_out es" and "proper e"
  shows "content (MergeExtent es e) = overwrite e (content es)"
proof
  fix p
  have d: "sorted_wrt disjoint_ext es" and pr: "\<forall>x\<in>set es. proper x"
    using assms(1) by (simp_all add: laid_out_disjoint laid_out_def)
  have pieces: "(\<exists>y\<in>set (merge_pieces e x). covers y p \<and> source_of y p = s) \<longleftrightarrow>
      covers x p \<and> \<not> covers e p \<and> source_of x p = s" if "x \<in> set es" for x s
    using that pr assms(2) merge_pieces_covers [of e x p] merge_pieces_source [of _ e x p]
    by metis
  have "content (MergeExtent es e) p = Some s \<longleftrightarrow> overwrite e (content es) p = Some s" for s
    using pieces
    by (auto simp: content_Some_iff [OF MergeExtent_disjoint [OF assms]]
        content_Some_iff [OF d] set_MergeExtent overwrite_def)
  then show "content (MergeExtent es e) p = overwrite e (content es) p"
    by (metis not_Some_eq)
qed

text \<open>
  An extent whose range is empty or wraps around covers no position: merging it changes
  no content, though it may cut an extent into overlapping pieces.
\<close>

lemma content_agree:
  assumes "\<And>x. x \<in> set xs \<Longrightarrow> covers x p \<Longrightarrow> source_of x p = s" and "\<exists>x\<in>set xs. covers x p"
  shows "content xs p = Some s"
  using assms by (induction xs) (auto simp: content_Cons)

lemma MergeExtent_improper:
  assumes "laid_out es" and "\<not> proper e"
  shows "content (MergeExtent es e) = content es"
proof
  fix p
  have e: "\<not> covers e p"
    using assms(2) by (auto simp: covers_def proper_def)
  have inside: "covers x p" if "y \<in> set (merge_pieces e x)" "covers y p" for x y
    using that assms(2) unfolding in_merge_pieces
    by (cases "Overlaps x e") (auto simp: covers_def Overlaps_def proper_def)
  have piece: "\<exists>y\<in>set (merge_pieces e x). covers y p" if "covers x p" for x
    using that assms(2) unfolding Bex_def in_merge_pieces
    by (cases "Overlaps x e")
      (auto simp: covers_def Overlaps_def proper_def conj_disj_distribR ex_disj_distrib)
  note sets = set_MergeExtent
  show "content (MergeExtent es e) p = content es p"
  proof (cases "content es p")
    case None
    then have "content (MergeExtent es e) p = None"
      using e inside by (auto simp: content_None_iff sets)
    with None show ?thesis
      by simp
  next
    case (Some src)
    note iff = content_Some_iff [OF laid_out_disjoint [OF assms(1)]]
    obtain x where x: "x \<in> set es" "covers x p"
      using Some by (auto simp: iff)
    have "content (MergeExtent es e) p = Some src"
    proof (rule content_agree)
      fix y
      assume y: "y \<in> set (MergeExtent es e)" "covers y p"
      with e obtain x' where x': "x' \<in> set es" "y \<in> set (merge_pieces e x')"
        by (auto simp: sets)
      then have "content es p = Some (source_of x' p)"
        using inside [OF x'(2) y(2)] by (auto simp: iff)
      with Some merge_pieces_source [OF x'(2)] show "source_of y p = src"
        by simp
    qed (use x piece [OF x(2)] in \<open>auto simp: sets\<close>)
    with Some show ?thesis
      by simp
  qed
qed

lemma MergeExtent_below:
  assumes "below n es" and "\<forall>x\<in>set es. proper x" and "proper e" and "ExtentEnd e \<le> n"
  shows "below n (MergeExtent es e)"
  using assms unfolding below_def set_MergeExtent
  by (auto dest!: merge_pieces_range(2) [rotated 2] intro: order_trans)

lemma MergeExtent_keys:
  "object_key ` set (MergeExtent es e) \<subseteq> insert (object_key e) (object_key ` set es)"
  by (auto simp: set_MergeExtent merge_pieces_key)

text \<open>Whatever order \<^verbatim>\<open>std::sort\<close> gives to equal offsets, the result is this list.\<close>

lemma MergeExtent_any_sort:
  assumes "laid_out es" and "proper e"
    and "mset ys = mset (concat (map (merge_pieces e) es) @ [e])"
    and "sorted (map offset ys)"
  shows "ys = MergeExtent es e"
proof -
  have m: "mset ys = mset (MergeExtent es e)"
    using assms(3) by (simp add: MergeExtent_def del: sort_key_simps)
  have strict: "sorted_wrt (\<lambda>x y. offset x < offset y) (MergeExtent es e)"
    using assms(1,2) by (intro laid_out_offsets MergeExtent_laid_out)
  then have "distinct (map offset (MergeExtent es e))"
    using strict_sorted_iff [of "map offset (MergeExtent es e)"] by (simp add: sorted_wrt_map)
  then have "distinct (map offset ys)"
    using m by (metis mset_map mset_eq_imp_distinct_iff)
  with assms(4) have "sorted_wrt (\<lambda>x y. offset x < offset y) ys"
    using strict_sorted_iff [of "map offset ys"] by (simp add: sorted_wrt_map)
  then show ?thesis
    using strict m by (intro sorted_wrt_key_unique [where f = offset]) (auto dest: mset_eq_setD)
qed

section \<open>Truncation\<close>

lemma truncate_extents_set:
  "y \<in> set (truncate_extents sz es) \<Longrightarrow>
     \<exists>x\<in>set es. offset y = offset x \<and> ExtentEnd y \<le> ExtentEnd x \<and> object_key y = object_key x"
  by (induction es) (auto split: if_splits)

lemma truncate_extents_proper:
  "\<forall>x\<in>set es. proper x \<Longrightarrow> \<forall>x\<in>set (truncate_extents sz es). proper x"
  by (induction es) auto

lemma truncate_extents_laid_out: "laid_out es \<Longrightarrow> laid_out (truncate_extents sz es)"
proof (induction es)
  case (Cons e es)
  then have "laid_out es" and p: "proper e" and "laid_out (truncate_extents sz es)"
    and e: "\<forall>x\<in>set es. ExtentEnd e \<le> offset x"
    by (auto simp: laid_out_def)
  moreover have "ExtentEnd e \<le> offset y" if "y \<in> set (truncate_extents sz es)" for y
    using truncate_extents_set [OF that] e by auto
  ultimately show ?case
    by (auto simp: laid_out_def intro: order_trans less_imp_le)
qed simp

lemma truncate_extents_below: "below sz (truncate_extents sz es)"
  by (induction es) (auto simp: below_def)

lemma truncate_extents_content:
  "laid_out es \<Longrightarrow> content (truncate_extents sz es) p = (if p < sz then content es p else None)"
proof (induction es)
  case (Cons e es)
  then show ?case
    by (auto simp: content_Cons covers_def laid_out_def)
qed (simp add: content_def)

lemma truncate_extents_id: "below sz es \<Longrightarrow> \<forall>e\<in>set es. proper e \<Longrightarrow> truncate_extents sz es = es"
  by (induction es) (auto simp: below_def proper_def)

lemma truncate_extents_keys:
  "object_key ` set (truncate_extents sz es) \<subseteq> object_key ` set es"
  using truncate_extents_set by fastforce

end
