(* ===== verification/Meta_State.thy ===== *)
theory Meta_State
  imports Ordered_Map Errors Extents
begin

text \<open>
  \<^verbatim>\<open>src/meta_state.h\<close> and \<^verbatim>\<open>src/meta_state.cc\<close>: the metadata state machine.  The state
  is a record with the fields of the class; an operation takes the state last and returns
  its outcome with the new state.  \<^verbatim>\<open>NowNs()\<close> reads the wall clock: the reading is an
  argument (\<open>now\<close>), two of them where the code reads the clock twice.  Where the code calls
  \<^verbatim>\<open>std::map::at\<close> the missing key is the branch \<^const>\<open>OutOfRange\<close>.
\<close>

section \<open>State\<close>

record MetaState =
  next_inode_id :: u64
  default_chunk_size :: u64
  inodes :: "(u64, InodeAttrs) omap"
  dentries :: "(u64 \<times> string, u64) omap"
  layouts :: "(u64, FileLayout) omap"

definition kRootInodeId :: u64 where
  "kRootInodeId = 1"

definition kDefaultChunkSize :: u64 where
  "kDefaultChunkSize = 64 * 1024 * 1024"

definition root_attrs :: "i64 \<Rightarrow> InodeAttrs" where
  "root_attrs now = \<lparr>inode_id = kRootInodeId, a_type = INODE_TYPE_DIRECTORY, a_mode = 493,
     a_uid = 0, a_gid = 0, a_size = 0, nlink = 2, version = 1, atime_ns = now,
     mtime_ns = now, ctime_ns = now, a_chunk_size = 0\<rparr>"

definition MetaState_init :: "u64 \<Rightarrow> i64 \<Rightarrow> MetaState" where
  "MetaState_init chunk now = \<lparr>next_inode_id = kRootInodeId + 1, default_chunk_size = chunk,
     inodes = omap_emplace kRootInodeId (root_attrs now) omap_empty,
     dentries = omap_empty, layouts = omap_empty\<rparr>"

section \<open>Validation\<close>

definition ValidateName :: "string \<Rightarrow> unit Result" where
  "ValidateName name =
     (if name = [] then Inl (MakeError InvalidArgument ''entry name is empty'')
      else if name = ''.'' \<or> name = ''..''
           then Inl (MakeError InvalidArgument ''reserved directory entry name'')
      else if CHR ''/'' \<in> set name \<or> CHR 0x00 \<in> set name
           then Inl (MakeError InvalidArgument ''entry name contains an invalid character'')
      else Inr ())"

definition ValidateParent :: "MetaState \<Rightarrow> u64 \<Rightarrow> string \<Rightarrow> unit Result" where
  "ValidateParent s p name =
     (case ValidateName name of
        Inl e \<Rightarrow> Inl e
      | Inr _ \<Rightarrow>
          (case omap_lookup (inodes s) p of
             None \<Rightarrow> Inl (MakeError (NotFound (to_string p)) ''parent inode not found'')
           | Some parent \<Rightarrow>
               if a_type parent \<noteq> INODE_TYPE_DIRECTORY
               then Inl (MakeError (NotDirectory (to_string p)) ''parent inode is not a directory'')
               else Inr ()))"

definition ValidateRegularFile :: "MetaState \<Rightarrow> u64 \<Rightarrow> unit Result" where
  "ValidateRegularFile s i =
     (case omap_lookup (inodes s) i of
        None \<Rightarrow> Inl (MakeError (NotFound (to_string i)) ''inode not found'')
      | Some inode \<Rightarrow>
          if a_type inode \<noteq> INODE_TYPE_FILE
          then Inl (MakeError InvalidArgument ''inode is not a regular file'')
          else Inr ())"

definition PathFor :: "u64 \<Rightarrow> string \<Rightarrow> string" where
  "PathFor p name = to_string p @ ''/'' @ name"

definition IsDirectoryEmpty :: "MetaState \<Rightarrow> u64 \<Rightarrow> bool" where
  "IsDirectoryEmpty s i = (\<forall>e \<in> set (entries (dentries s)). fst (fst e) \<noteq> i)"

definition ParentOf :: "MetaState \<Rightarrow> u64 \<Rightarrow> u64" where
  "ParentOf s i =
     (if i = kRootInodeId then kRootInodeId
      else case find (\<lambda>e. snd e = i) (entries (dentries s)) of
             None \<Rightarrow> i
           | Some e \<Rightarrow> fst (fst e))"

text \<open>
  The walk of \<^verbatim>\<open>IsAncestor\<close> towards the root; \<open>None\<close> is a walk that never stops, which
  happens when the parent links form a cycle.
\<close>

partial_function (option) IsAncestor :: "MetaState \<Rightarrow> u64 \<Rightarrow> u64 \<Rightarrow> bool option" where
  "IsAncestor s ancestor current =
     (if current = kRootInodeId then Some (ancestor = kRootInodeId)
      else if current = ancestor then Some True
      else if ParentOf s current = current then Some False
      else IsAncestor s ancestor (ParentOf s current))"

declare IsAncestor.simps [code]

section \<open>Helpers that change the state\<close>

text \<open>The statement repeated in the code that copies an inode's attributes to its layout.\<close>

definition sync_layout :: "u64 \<Rightarrow> InodeAttrs \<Rightarrow> MetaState \<Rightarrow> MetaState" where
  "sync_layout i inode s =
     (case omap_lookup (layouts s) i of
        None \<Rightarrow> s
      | Some layout \<Rightarrow> s\<lparr>layouts := omap_put i (layout\<lparr>l_attrs := inode\<rparr>) (layouts s)\<rparr>)"

definition TouchInode :: "u64 \<Rightarrow> i64 \<Rightarrow> MetaState \<Rightarrow> unit outcome \<times> MetaState" where
  "TouchInode i now s =
     (case omap_lookup (inodes s) i of
        None \<Rightarrow> (OutOfRange, s)
      | Some inode \<Rightarrow>
          let inode = inode\<lparr>mtime_ns := now, ctime_ns := now, version := version inode + 1\<rparr>
          in (Ok (), sync_layout i inode (s\<lparr>inodes := omap_put i inode (inodes s)\<rparr>)))"

definition RemoveNode :: "u64 \<Rightarrow> string \<Rightarrow> u64 \<Rightarrow> i64 \<Rightarrow> MetaState \<Rightarrow> unit outcome \<times> MetaState" where
  "RemoveNode p name i now s =
     (case omap_lookup (inodes s) i of
        None \<Rightarrow> (OutOfRange, s)
      | Some inode \<Rightarrow>
          (case TouchInode p now
                  (s\<lparr>dentries := omap_erase (p, name) (dentries s),
                     layouts := omap_erase i (layouts s),
                     inodes := omap_erase i (inodes s)\<rparr>) of
             (Ok _, s) \<Rightarrow>
               if a_type inode = INODE_TYPE_DIRECTORY
               then (case omap_lookup (inodes s) p of
                       None \<Rightarrow> (OutOfRange, s)
                     | Some parent \<Rightarrow>
                         (Ok (), s\<lparr>inodes := omap_put p (parent\<lparr>nlink := nlink parent - 1\<rparr>) (inodes s)\<rparr>))
               else (Ok (), s)
           | (r, s) \<Rightarrow> (r, s)))"

text \<open>\<^verbatim>\<open>return inodes_.at(i);\<close>\<close>

definition return_inode :: "u64 \<Rightarrow> MetaState \<Rightarrow> InodeAttrs outcome \<times> MetaState" where
  "return_inode i s =
     (case omap_lookup (inodes s) i of None \<Rightarrow> (OutOfRange, s) | Some inode \<Rightarrow> (Ok inode, s))"

section \<open>Creating nodes\<close>

definition new_attrs :: "u64 \<Rightarrow> InodeType \<Rightarrow> u32 \<Rightarrow> u32 \<Rightarrow> u32 \<Rightarrow> i64 \<Rightarrow> u64 \<Rightarrow> InodeAttrs" where
  "new_attrs i type mode uid gid now chunk = \<lparr>inode_id = i, a_type = type, a_mode = mode,
     a_uid = uid, a_gid = gid, a_size = 0,
     nlink = (if type = INODE_TYPE_DIRECTORY then 2 else 1), version = 1,
     atime_ns = now, mtime_ns = now, ctime_ns = now,
     a_chunk_size = (if type = INODE_TYPE_FILE then chunk else 0)\<rparr>"

definition CreateNode ::
  "u64 \<Rightarrow> string \<Rightarrow> InodeType \<Rightarrow> u32 \<Rightarrow> u32 \<Rightarrow> u32 \<Rightarrow> i64 \<Rightarrow> MetaState \<Rightarrow> InodeAttrs outcome \<times> MetaState" where
  "CreateNode p name type mode uid gid now s =
     (case ValidateParent s p name of
        Inl e \<Rightarrow> (Err e, s)
      | Inr _ \<Rightarrow>
          if omap_lookup (dentries s) (p, name) \<noteq> None
          then (Err (MakeError (AlreadyExists (PathFor p name)) ''directory entry already exists''), s)
          else
            let i = next_inode_id s;
                s = s\<lparr>next_inode_id := i + 1\<rparr>;
                inode = new_attrs i type mode uid gid now (default_chunk_size s)
            in case omap_lookup (inodes s) p of
                 None \<Rightarrow> (OutOfRange, s)
               | Some parent \<Rightarrow>
                   let parent = parent\<lparr>mtime_ns := now, ctime_ns := now, version := version parent + 1\<rparr>;
                       parent = (if type = INODE_TYPE_DIRECTORY
                                 then parent\<lparr>nlink := nlink parent + 1\<rparr> else parent);
                       s = s\<lparr>inodes := omap_put p parent (inodes s)\<rparr>;
                       s = s\<lparr>dentries := omap_emplace (p, name) i (dentries s)\<rparr>;
                       s = s\<lparr>inodes := omap_emplace i inode (inodes s)\<rparr>;
                       s = (if type = INODE_TYPE_FILE
                            then s\<lparr>layouts := omap_emplace i
                                   \<lparr>l_attrs = inode, l_chunk_size = default_chunk_size s, extents = []\<rparr>
                                   (layouts s)\<rparr>
                            else s)
                   in (Ok inode, s))"

definition Mkdir ::
  "u64 \<Rightarrow> string \<Rightarrow> u32 \<Rightarrow> u32 \<Rightarrow> u32 \<Rightarrow> i64 \<Rightarrow> MetaState \<Rightarrow> InodeAttrs outcome \<times> MetaState" where
  "Mkdir p name mode uid gid = CreateNode p name INODE_TYPE_DIRECTORY mode uid gid"

definition CreateFile ::
  "u64 \<Rightarrow> string \<Rightarrow> u32 \<Rightarrow> u32 \<Rightarrow> u32 \<Rightarrow> i64 \<Rightarrow> MetaState \<Rightarrow> InodeAttrs outcome \<times> MetaState" where
  "CreateFile p name mode uid gid = CreateNode p name INODE_TYPE_FILE mode uid gid"

section \<open>Queries and attributes\<close>

definition Lookup :: "u64 \<Rightarrow> string \<Rightarrow> MetaState \<Rightarrow> InodeAttrs outcome" where
  "Lookup p name s =
     (case ValidateParent s p name of
        Inl e \<Rightarrow> Err e
      | Inr _ \<Rightarrow>
          (case omap_lookup (dentries s) (p, name) of
             None \<Rightarrow> Err (MakeError (NotFound (PathFor p name)) ''directory entry not found'')
           | Some i \<Rightarrow> fst (return_inode i s)))"

definition GetAttr :: "u64 \<Rightarrow> MetaState \<Rightarrow> InodeAttrs outcome" where
  "GetAttr i s =
     (case omap_lookup (inodes s) i of
        None \<Rightarrow> Err (MakeError (NotFound (to_string i)) ''inode not found'')
      | Some inode \<Rightarrow> Ok inode)"

definition apply_setattr :: "SetAttrCommand \<Rightarrow> InodeAttrs \<Rightarrow> InodeAttrs" where
  "apply_setattr c a =
     (let a = (if set_mode c then a\<lparr>a_mode := sa_mode c\<rparr> else a);
          a = (if set_uid c then a\<lparr>a_uid := sa_uid c\<rparr> else a);
          a = (if set_gid c then a\<lparr>a_gid := sa_gid c\<rparr> else a);
          a = (if set_atime c then a\<lparr>atime_ns := sa_atime_ns c\<rparr> else a);
          a = (if set_mtime c then a\<lparr>mtime_ns := sa_mtime_ns c\<rparr> else a)
      in a)"

definition SetAttr :: "SetAttrCommand \<Rightarrow> i64 \<Rightarrow> MetaState \<Rightarrow> InodeAttrs outcome \<times> MetaState" where
  "SetAttr c now s =
     (case omap_lookup (inodes s) (sa_inode_id c) of
        None \<Rightarrow> (Err (MakeError (NotFound (to_string (sa_inode_id c))) ''inode not found''), s)
      | Some inode \<Rightarrow>
          let inode = (apply_setattr c inode)\<lparr>ctime_ns := now\<rparr>;
              inode = inode\<lparr>version := version inode + 1\<rparr>
          in (Ok inode,
              sync_layout (sa_inode_id c) inode
                (s\<lparr>inodes := omap_put (sa_inode_id c) inode (inodes s)\<rparr>)))"

fun readdir_loop :: "MetaState \<Rightarrow> u64 \<Rightarrow> ((u64 \<times> string) \<times> u64) list \<Rightarrow> DirectoryEntry list outcome" where
  "readdir_loop s i [] = Ok []"
| "readdir_loop s i (((p, name), child) # es) =
     (if p \<noteq> i then readdir_loop s i es
      else case omap_lookup (inodes s) child of
             None \<Rightarrow> OutOfRange
           | Some a \<Rightarrow>
               (case readdir_loop s i es of
                  Ok ds \<Rightarrow> Ok (\<lparr>de_name = name, de_attrs = a\<rparr> # ds)
                | r \<Rightarrow> r))"

definition ReadDir :: "u64 \<Rightarrow> MetaState \<Rightarrow> DirectoryEntry list outcome" where
  "ReadDir i s =
     (case omap_lookup (inodes s) i of
        None \<Rightarrow> Err (MakeError (NotFound (to_string i)) ''inode not found'')
      | Some inode \<Rightarrow>
          if a_type inode \<noteq> INODE_TYPE_DIRECTORY
          then Err (MakeError (NotDirectory (to_string i)) ''inode is not a directory'')
          else readdir_loop s i (entries (dentries s)))"

section \<open>Removing and renaming\<close>

definition Unlink :: "u64 \<Rightarrow> string \<Rightarrow> i64 \<Rightarrow> MetaState \<Rightarrow> InodeAttrs outcome \<times> MetaState" where
  "Unlink p name now s =
     (case ValidateParent s p name of
        Inl e \<Rightarrow> (Err e, s)
      | Inr _ \<Rightarrow>
          (case omap_lookup (dentries s) (p, name) of
             None \<Rightarrow> (Err (MakeError (NotFound (PathFor p name)) ''directory entry not found''), s)
           | Some i \<Rightarrow>
               (case omap_lookup (inodes s) i of
                  None \<Rightarrow> (OutOfRange, s)
                | Some inode \<Rightarrow>
                    if a_type inode = INODE_TYPE_DIRECTORY
                    then (Err (MakeError (IsDirectory (PathFor p name)) ''cannot unlink directory''), s)
                    else (case RemoveNode p name i now s of
                            (Ok _, s) \<Rightarrow> return_inode p s
                          | (_, s) \<Rightarrow> (OutOfRange, s)))))"

definition Rmdir :: "u64 \<Rightarrow> string \<Rightarrow> i64 \<Rightarrow> MetaState \<Rightarrow> InodeAttrs outcome \<times> MetaState" where
  "Rmdir p name now s =
     (case ValidateParent s p name of
        Inl e \<Rightarrow> (Err e, s)
      | Inr _ \<Rightarrow>
          (case omap_lookup (dentries s) (p, name) of
             None \<Rightarrow> (Err (MakeError (NotFound (PathFor p name)) ''directory entry not found''), s)
           | Some i \<Rightarrow>
               (case omap_lookup (inodes s) i of
                  None \<Rightarrow> (OutOfRange, s)
                | Some inode \<Rightarrow>
                    if a_type inode \<noteq> INODE_TYPE_DIRECTORY
                    then (Err (MakeError (NotDirectory (PathFor p name)) ''cannot remove non-directory''), s)
                    else if \<not> IsDirectoryEmpty s i
                    then (Err (MakeError (DirectoryNotEmpty (PathFor p name)) ''directory is not empty''), s)
                    else (case RemoveNode p name i now s of
                            (Ok _, s) \<Rightarrow> return_inode p s
                          | (_, s) \<Rightarrow> (OutOfRange, s)))))"

text \<open>
  The part of \<^verbatim>\<open>Rename\<close> that checks and removes an existing target, and the part that
  moves the entry.  The two read the clock separately.
\<close>

definition rename_replace ::
  "u64 \<Rightarrow> string \<Rightarrow> InodeType \<Rightarrow> u64 \<Rightarrow> i64 \<Rightarrow> MetaState \<Rightarrow> unit outcome \<times> MetaState" where
  "rename_replace np nname moved_type t now s =
     (case omap_lookup (inodes s) t of
        None \<Rightarrow> (OutOfRange, s)
      | Some target \<Rightarrow>
          if moved_type = INODE_TYPE_DIRECTORY \<and> a_type target \<noteq> INODE_TYPE_DIRECTORY
          then (Err (MakeError (NotDirectory (PathFor np nname))
                  ''cannot replace non-directory with directory''), s)
          else if moved_type \<noteq> INODE_TYPE_DIRECTORY \<and> a_type target = INODE_TYPE_DIRECTORY
          then (Err (MakeError (IsDirectory (PathFor np nname))
                  ''cannot replace directory with non-directory''), s)
          else if a_type target = INODE_TYPE_DIRECTORY \<and> \<not> IsDirectoryEmpty s t
          then (Err (MakeError (DirectoryNotEmpty (PathFor np nname))
                  ''target directory is not empty''), s)
          else RemoveNode np nname t now s)"

definition adjust_nlink :: "(u64 \<Rightarrow> u64) \<Rightarrow> u64 \<Rightarrow> MetaState \<Rightarrow> unit outcome \<times> MetaState" where
  "adjust_nlink f i s =
     (case omap_lookup (inodes s) i of
        None \<Rightarrow> (OutOfRange, s)
      | Some a \<Rightarrow> (Ok (), s\<lparr>inodes := omap_put i (a\<lparr>nlink := f (nlink a)\<rparr>) (inodes s)\<rparr>))"

text \<open>Runs a step after another one that succeeded; an exception stops the sequence.\<close>

definition and_then ::
  "unit outcome \<times> MetaState \<Rightarrow> (MetaState \<Rightarrow> 'a outcome \<times> MetaState) \<Rightarrow> 'a outcome \<times> MetaState" where
  "and_then r f =
     (case r of (Ok _, s) \<Rightarrow> f s | (Err e, s) \<Rightarrow> (Err e, s)
      | (OutOfRange, s) \<Rightarrow> (OutOfRange, s) | (NoReturn, s) \<Rightarrow> (NoReturn, s))"

definition rename_parents ::
  "u64 \<Rightarrow> u64 \<Rightarrow> InodeType \<Rightarrow> i64 \<Rightarrow> MetaState \<Rightarrow> unit outcome \<times> MetaState" where
  "rename_parents p np moved_type now s =
     and_then (TouchInode p now s) (\<lambda>s.
       if p \<noteq> np
       then and_then (TouchInode np now s) (\<lambda>s.
              if moved_type = INODE_TYPE_DIRECTORY
              then and_then (adjust_nlink (\<lambda>n. n - 1) p s) (adjust_nlink (\<lambda>n. n + 1) np)
              else (Ok (), s))
       else (Ok (), s))"

definition rename_moved :: "u64 \<Rightarrow> i64 \<Rightarrow> MetaState \<Rightarrow> InodeAttrs outcome \<times> MetaState" where
  "rename_moved m now s =
     (case omap_lookup (inodes s) m of
        None \<Rightarrow> (OutOfRange, s)
      | Some moved \<Rightarrow>
          let moved = moved\<lparr>ctime_ns := now, version := version moved + 1\<rparr>
          in (Ok moved, sync_layout m moved (s\<lparr>inodes := omap_put m moved (inodes s)\<rparr>)))"

definition rename_move ::
  "u64 \<Rightarrow> string \<Rightarrow> u64 \<Rightarrow> string \<Rightarrow> u64 \<Rightarrow> InodeType \<Rightarrow> i64 \<Rightarrow> MetaState \<Rightarrow> InodeAttrs outcome \<times> MetaState" where
  "rename_move p name np nname m moved_type now s =
     and_then
       (rename_parents p np moved_type now
          (s\<lparr>dentries := omap_emplace (np, nname) m (omap_erase (p, name) (dentries s))\<rparr>))
       (rename_moved m now)"

definition Rename ::
  "u64 \<Rightarrow> string \<Rightarrow> u64 \<Rightarrow> string \<Rightarrow> i64 \<Rightarrow> i64 \<Rightarrow> MetaState \<Rightarrow> InodeAttrs outcome \<times> MetaState" where
  "Rename p name np nname now_remove now s =
     (case ValidateParent s p name of
        Inl e \<Rightarrow> (Err e, s)
      | Inr _ \<Rightarrow>
     (case ValidateParent s np nname of
        Inl e \<Rightarrow> (Err e, s)
      | Inr _ \<Rightarrow>
     (case omap_lookup (dentries s) (p, name) of
        None \<Rightarrow> (Err (MakeError (NotFound (PathFor p name)) ''source entry not found''), s)
      | Some m \<Rightarrow>
     (case omap_lookup (inodes s) m of
        None \<Rightarrow> (OutOfRange, s)
      | Some moved \<Rightarrow>
     (case (if a_type moved = INODE_TYPE_DIRECTORY then IsAncestor s m np else Some False) of
        None \<Rightarrow> (NoReturn, s)
      | Some True \<Rightarrow>
          (Err (MakeError InvalidArgument ''cannot move directory into itself or its descendant''), s)
      | Some False \<Rightarrow>
     (case omap_lookup (dentries s) (np, nname) of
        None \<Rightarrow> rename_move p name np nname m (a_type moved) now s
      | Some t \<Rightarrow>
          if t = m then (Ok moved, s)
          else and_then (rename_replace np nname (a_type moved) t now_remove s)
                 (rename_move p name np nname m (a_type moved) now)))))))"

section \<open>File layouts\<close>

definition GetLayout :: "u64 \<Rightarrow> MetaState \<Rightarrow> FileLayout outcome" where
  "GetLayout i s =
     (case ValidateRegularFile s i of
        Inl e \<Rightarrow> Err e
      | Inr _ \<Rightarrow>
          (case omap_lookup (layouts s) i of
             None \<Rightarrow> Err (MakeError (NotFound (to_string i)) ''file layout not found'')
           | Some layout \<Rightarrow>
               (case omap_lookup (inodes s) i of
                  None \<Rightarrow> OutOfRange
                | Some inode \<Rightarrow> Ok (layout\<lparr>l_attrs := inode\<rparr>))))"

text \<open>\<^verbatim>\<open>std::sort\<close> followed by erasing what \<^verbatim>\<open>std::unique\<close> leaves over.\<close>

definition ListLiveObjects :: "MetaState \<Rightarrow> string list" where
  "ListLiveObjects s =
     remdups_adj (sort
       (concat (map (\<lambda>(_, layout). filter (\<lambda>k. k \<noteq> []) (map object_key (extents layout)))
          (entries (layouts s)))))"

text \<open>
  The loop of \<^verbatim>\<open>CommitWrite\<close>: it merges extents into the stored list until one is
  invalid; the result tells whether all were valid.
\<close>

fun commit_loop :: "FileExtent list \<Rightarrow> FileExtent list \<Rightarrow> FileExtent list \<times> bool" where
  "commit_loop stored [] = (stored, True)"
| "commit_loop stored (e # es) =
     (if len e = 0 \<or> object_key e = [] then (stored, False)
      else commit_loop (MergeExtent stored e) es)"

definition CommitWrite ::
  "u64 \<Rightarrow> u64 \<Rightarrow> FileExtent list \<Rightarrow> i64 \<Rightarrow> MetaState \<Rightarrow> InodeAttrs outcome \<times> MetaState" where
  "CommitWrite i base_version es now s =
     (case ValidateRegularFile s i of
        Inl e \<Rightarrow> (Err e, s)
      | Inr _ \<Rightarrow>
     (case omap_lookup (layouts s) i of
        None \<Rightarrow> (Err (MakeError (NotFound (to_string i)) ''file layout not found''), s)
      | Some layout \<Rightarrow>
     (case commit_loop (extents layout) es of
        (stored, valid) \<Rightarrow>
          let layout = layout\<lparr>extents := stored\<rparr>;
              s = s\<lparr>layouts := omap_put i layout (layouts s)\<rparr>
          in if \<not> valid
             then (Err (MakeError InvalidArgument ''invalid committed extent''), s)
             else (case omap_lookup (inodes s) i of
                     None \<Rightarrow> (OutOfRange, s)
                   | Some inode \<Rightarrow>
                       let sz = foldl (\<lambda>sz e. max sz (ExtentEnd e)) (a_size inode) es;
                           inode = inode\<lparr>a_size := sz, version := version inode + 1,
                             mtime_ns := now, ctime_ns := now\<rparr>
                       in (Ok inode,
                           s\<lparr>inodes := omap_put i inode (inodes s),
                             layouts := omap_put i (layout\<lparr>l_attrs := inode\<rparr>) (layouts s)\<rparr>)))))"

text \<open>
  The loop of \<^verbatim>\<open>AppendWrite\<close>: the offsets are relative to the end of the file, the
  extents that were merged are collected with their final offsets.
\<close>

fun append_loop ::
  "u64 \<Rightarrow> FileExtent list \<Rightarrow> u64 \<Rightarrow> FileExtent list \<Rightarrow> FileExtent list
     \<Rightarrow> FileExtent list \<times> u64 \<times> FileExtent list \<times> bool" where
  "append_loop start stored append_length committed [] = (stored, append_length, committed, True)"
| "append_loop start stored append_length committed (e # es) =
     (if len e = 0 \<or> object_key e = [] then (stored, append_length, committed, False)
      else let e' = e\<lparr>offset := start + offset e\<rparr>
           in append_loop start (MergeExtent stored e') (max append_length (ExtentEnd e))
                (committed @ [e']) es)"

record AppendWriteStateResult =
  ar_attrs :: InodeAttrs
  append_start :: u64
  committed_extents :: "FileExtent list"

definition AppendWrite ::
  "u64 \<Rightarrow> u64 \<Rightarrow> FileExtent list \<Rightarrow> i64 \<Rightarrow> MetaState \<Rightarrow> AppendWriteStateResult outcome \<times> MetaState" where
  "AppendWrite i base_version es now s =
     (case ValidateRegularFile s i of
        Inl e \<Rightarrow> (Err e, s)
      | Inr _ \<Rightarrow>
     (case omap_lookup (layouts s) i of
        None \<Rightarrow> (Err (MakeError (NotFound (to_string i)) ''file layout not found''), s)
      | Some layout \<Rightarrow>
     (case omap_lookup (inodes s) i of
        None \<Rightarrow> (OutOfRange, s)
      | Some inode \<Rightarrow>
     (case append_loop (a_size inode) (extents layout) 0 [] es of
        (stored, append_length, committed, valid) \<Rightarrow>
          let layout = layout\<lparr>extents := stored\<rparr>;
              s = s\<lparr>layouts := omap_put i layout (layouts s)\<rparr>
          in if \<not> valid
             then (Err (MakeError InvalidArgument ''invalid appended extent''), s)
             else let start = a_size inode;
                      inode = inode\<lparr>a_size := start + append_length,
                        version := version inode + 1, mtime_ns := now, ctime_ns := now\<rparr>
                  in (Ok \<lparr>ar_attrs = inode, append_start = start, committed_extents = committed\<rparr>,
                      s\<lparr>inodes := omap_put i inode (inodes s),
                        layouts := omap_put i (layout\<lparr>l_attrs := inode\<rparr>) (layouts s)\<rparr>)))))"

definition Truncate :: "u64 \<Rightarrow> u64 \<Rightarrow> i64 \<Rightarrow> MetaState \<Rightarrow> InodeAttrs outcome \<times> MetaState" where
  "Truncate i sz now s =
     (case ValidateRegularFile s i of
        Inl e \<Rightarrow> (Err e, s)
      | Inr _ \<Rightarrow>
     (case omap_lookup (layouts s) i of
        None \<Rightarrow> (Err (MakeError (NotFound (to_string i)) ''file layout not found''), s)
      | Some layout \<Rightarrow>
          let layout = layout\<lparr>extents := truncate_extents sz (extents layout)\<rparr>;
              s = s\<lparr>layouts := omap_put i layout (layouts s)\<rparr>
          in (case omap_lookup (inodes s) i of
                None \<Rightarrow> (OutOfRange, s)
              | Some inode \<Rightarrow>
                  let inode = inode\<lparr>a_size := sz, version := version inode + 1,
                        mtime_ns := now, ctime_ns := now\<rparr>
                  in (Ok inode,
                      s\<lparr>inodes := omap_put i inode (inodes s),
                        layouts := omap_put i (layout\<lparr>l_attrs := inode\<rparr>) (layouts s)\<rparr>))))"

end
