(* ===== verification/Namespace.thy ===== *)
theory Namespace
  imports Messages
begin

text \<open>
  The abstract specification of the metadata state's name space: which inodes exist, of
  which type, and which entry of which directory names which inode.  \<open>ns_tree\<close> says that
  the entries form a tree below the root: every inode but the root is named by exactly one
  entry of a directory, and no directory lies below itself.  The four changes the file
  system makes (add, remove, move a node; change attributes only) are shown to keep it,
  together with the number of subdirectories that the link counts are about.
\<close>

type_synonym types = "u64 \<Rightarrow> InodeType option"
type_synonym links = "u64 \<times> string \<Rightarrow> u64 option"

abbreviation (input) DIR :: InodeType where
  "DIR \<equiv> INODE_TYPE_DIRECTORY"

abbreviation (input) root :: u64 where
  "root \<equiv> 1"

text \<open>The parent-to-child relation and its reflexive closure, \<open>a\<close> above or at \<open>x\<close>.\<close>

definition edges :: "links \<Rightarrow> (u64 \<times> u64) set" where
  "edges D = {(p, c). \<exists>n. D (p, n) = Some c}"

definition lies_above :: "links \<Rightarrow> u64 \<Rightarrow> u64 \<Rightarrow> bool" where
  "lies_above D a x \<longleftrightarrow> (a, x) \<in> (edges D)\<^sup>*"

definition ranked :: "links \<Rightarrow> (u64 \<Rightarrow> nat) \<Rightarrow> bool" where
  "ranked D rank \<longleftrightarrow> (\<forall>p c. (p, c) \<in> edges D \<longrightarrow> rank p < rank c)"

definition ns_tree :: "types \<Rightarrow> links \<Rightarrow> bool" where
  "ns_tree T D \<longleftrightarrow>
     T root = Some DIR \<and>
     (\<forall>p n c. D (p, n) = Some c \<longrightarrow> T p = Some DIR \<and> T c \<noteq> None \<and> c \<noteq> root) \<and>
     (\<forall>k k' c. D k = Some c \<longrightarrow> D k' = Some c \<longrightarrow> k = k') \<and>
     (\<forall>i. T i \<noteq> None \<longrightarrow> i \<noteq> root \<longrightarrow> (\<exists>k. D k = Some i)) \<and>
     (\<exists>rank. ranked D rank)"

lemma edgesI: "D (p, n) = Some c \<Longrightarrow> (p, c) \<in> edges D"
  by (auto simp: edges_def)

lemma ns_treeI:
  assumes "T root = Some DIR"
    and "\<And>p n c. D (p, n) = Some c \<Longrightarrow> T p = Some DIR \<and> T c \<noteq> None \<and> c \<noteq> root"
    and "\<And>k k' c. D k = Some c \<Longrightarrow> D k' = Some c \<Longrightarrow> k = k'"
    and "\<And>i. T i \<noteq> None \<Longrightarrow> i \<noteq> root \<Longrightarrow> \<exists>k. D k = Some i"
    and "ranked D rank"
  shows "ns_tree T D"
  using assms unfolding ns_tree_def by blast

lemma ns_tree_root: "ns_tree T D \<Longrightarrow> T root = Some DIR"
  by (simp add: ns_tree_def)

lemma ns_tree_parent: "ns_tree T D \<Longrightarrow> D (p, n) = Some c \<Longrightarrow> T p = Some DIR"
  by (simp add: ns_tree_def)

lemma ns_tree_child: "ns_tree T D \<Longrightarrow> D (p, n) = Some c \<Longrightarrow> T c \<noteq> None"
  unfolding ns_tree_def by blast

lemma ns_tree_not_root: "ns_tree T D \<Longrightarrow> D k \<noteq> Some root"
  unfolding ns_tree_def by (metis prod.collapse)

lemma ns_tree_unique: "ns_tree T D \<Longrightarrow> D k = Some c \<Longrightarrow> D k' = Some c \<Longrightarrow> k = k'"
  unfolding ns_tree_def by blast

lemma ns_tree_named: "ns_tree T D \<Longrightarrow> T i \<noteq> None \<Longrightarrow> i \<noteq> root \<Longrightarrow> \<exists>k. D k = Some i"
  unfolding ns_tree_def by blast

lemma ns_tree_ranked: "ns_tree T D \<Longrightarrow> \<exists>rank. ranked D rank"
  by (simp add: ns_tree_def)

text \<open>A missing inode is in no entry, and neither is anything below a non-directory.\<close>

lemma ns_tree_absent:
  assumes "ns_tree T D" and "T i = None"
  shows "D k \<noteq> Some i" and "D (i, n) = None"
proof -
  show "D k \<noteq> Some i"
    using assms ns_tree_child [OF assms(1), of "fst k" "snd k" i] by auto
  show "D (i, n) = None"
    using assms ns_tree_parent [OF assms(1), of i n] by (cases "D (i, n)") auto
qed

lemma ns_tree_leaf: "ns_tree T D \<Longrightarrow> T i \<noteq> Some DIR \<Longrightarrow> D (i, n) = None"
  using ns_tree_parent [of T D i n] by (cases "D (i, n)") auto

section \<open>The relation above\<close>

lemma above_refl [simp]: "lies_above D x x"
  by (simp add: lies_above_def)

lemma above_rank:
  assumes "ranked D rank" and "lies_above D a x"
  shows "rank a \<le> rank x"
  using assms(2,1) unfolding lies_above_def
proof (induction rule: rtrancl_induct)
  case (step y z)
  then show ?case by (force simp: ranked_def)
qed simp

lemma above_step: "lies_above D a p \<Longrightarrow> D (p, n) = Some c \<Longrightarrow> lies_above D a c"
  unfolding lies_above_def by (blast intro: rtrancl_into_rtrancl edgesI)

lemma above_child:
  assumes "ns_tree T D" and "D (p, n) = Some c"
  shows "lies_above D a c \<longleftrightarrow> a = c \<or> lies_above D a p"
proof
  assume "lies_above D a c"
  then show "a = c \<or> lies_above D a p"
    unfolding lies_above_def
  proof (cases rule: rtranclE)
    case (step q)
    then obtain m where "D (q, m) = Some c"
      by (auto simp: edges_def)
    then have "q = p"
      using ns_tree_unique [OF assms(1) assms(2)] by blast
    with step show "a = c \<or> (a, p) \<in> (edges D)\<^sup>*"
      by simp
  qed simp
next
  assume "a = c \<or> lies_above D a p"
  then show "lies_above D a c"
    using assms(2) by (auto intro: above_step)
qed

lemma above_top: "(\<And>k. D k \<noteq> Some x) \<Longrightarrow> lies_above D a x \<longleftrightarrow> a = x"
  unfolding lies_above_def by (auto simp: edges_def elim: rtranclE)

lemma above_root: "ns_tree T D \<Longrightarrow> lies_above D a root \<longleftrightarrow> a = root"
  using ns_tree_not_root by (rule above_top)

lemma above_leaf:
  assumes "\<And>n. D (m, n) = None"
  shows "lies_above D m x \<longleftrightarrow> m = x"
  using assms unfolding lies_above_def by (auto simp: edges_def elim: converse_rtranclE)

lemma above_mono:
  assumes "\<And>k c. D' k = Some c \<Longrightarrow> D k = Some c" and "lies_above D' a x"
  shows "lies_above D a x"
proof -
  have "edges D' \<subseteq> edges D"
    using assms(1) by (auto simp: edges_def)
  with assms(2) show ?thesis
    unfolding lies_above_def using rtrancl_mono by blast
qed

text \<open>Every inode lies below the root.\<close>

lemma ns_tree_rooted:
  assumes "ns_tree T D" and "T i \<noteq> None"
  shows "lies_above D root i"
proof -
  obtain rank where r: "ranked D rank"
    using assms(1) ns_tree_ranked by blast
  from assms(2) show ?thesis
  proof (induction "rank i" arbitrary: i rule: less_induct)
    case less
    show ?case
    proof (cases "i = root")
      case False
      then obtain p n where k: "D (p, n) = Some i"
        using ns_tree_named [OF assms(1) less.prems] by auto
      then have "rank p < rank i" and "T p \<noteq> None"
        using r ns_tree_parent [OF assms(1)] by (auto simp: ranked_def intro: edgesI)
      with less.hyps have "lies_above D root p"
        by blast
      with k show ?thesis by (rule above_step [rotated])
    qed simp
  qed
qed

text \<open>No inode is its own ancestor: acyclicity.\<close>

lemma ns_tree_no_cycle:
  assumes "ns_tree T D" and "D (p, n) = Some c"
  shows "\<not> lies_above D c p"
proof
  assume "lies_above D c p"
  moreover obtain rank where r: "ranked D rank"
    using assms(1) ns_tree_ranked by blast
  ultimately have "rank c \<le> rank p"
    by (rule above_rank [rotated])
  with r assms(2) show False
    by (force simp: ranked_def dest: edgesI)
qed

section \<open>Changes that keep the tree\<close>

lemma named_other: "D k = Some j \<Longrightarrow> k \<noteq> k0 \<Longrightarrow> \<exists>k. (D(k0 := v)) k = Some j"
  by (rule exI [of _ k]) simp

lemma ns_tree_add:
  assumes "ns_tree T D" and "T p = Some DIR" and "D (p, n) = None" and "T i = None"
  shows "ns_tree (T(i \<mapsto> ty)) (D((p, n) \<mapsto> i))"
proof -
  note absent = ns_tree_absent [OF assms(1,4)]
  have ip: "i \<noteq> p" and ir: "i \<noteq> root"
    using assms(2,4) ns_tree_root [OF assms(1)] by auto
  obtain rank where r: "ranked D rank"
    using assms(1) ns_tree_ranked by blast
  show ?thesis
  proof (rule ns_treeI)
    show "(T(i \<mapsto> ty)) root = Some DIR"
      using ir ns_tree_root [OF assms(1)] by simp
    show "(T(i \<mapsto> ty)) q = Some DIR \<and> (T(i \<mapsto> ty)) c \<noteq> None \<and> c \<noteq> root"
      if "(D((p, n) \<mapsto> i)) (q, m) = Some c" for q m c
      using that assms ip ir absent ns_tree_parent [OF assms(1), of q m c]
        ns_tree_child [OF assms(1), of q m c] ns_tree_not_root [OF assms(1), of "(q, m)"]
      by (auto split: if_splits)
    show "k = k'" if "(D((p, n) \<mapsto> i)) k = Some c" and "(D((p, n) \<mapsto> i)) k' = Some c" for k k' c
      using that absent ns_tree_unique [OF assms(1), of k c k'] by (auto split: if_splits)
    show "\<exists>k. (D((p, n) \<mapsto> i)) k = Some j" if "(T(i \<mapsto> ty)) j \<noteq> None" and "j \<noteq> root" for j
    proof (cases "j = i")
      case False
      with that assms(3) obtain k where "D k = Some j" "k \<noteq> (p, n)"
        using ns_tree_named [OF assms(1), of j] by fastforce
      then show ?thesis
        by (rule named_other)
    qed auto
    show "ranked (D((p, n) \<mapsto> i)) (rank(i := Suc (rank p)))"
      using r ip absent by (auto simp: ranked_def edges_def split: if_splits)
  qed
qed

lemma ns_tree_remove:
  assumes "ns_tree T D" and "D (p, n) = Some i" and "\<And>m. D (i, m) = None"
  shows "ns_tree (T(i := None)) (D((p, n) := None))"
proof -
  have ir: "i \<noteq> root" and ip: "i \<noteq> p"
    using assms ns_tree_not_root [OF assms(1)] by auto
  obtain rank where r: "ranked D rank"
    using assms(1) ns_tree_ranked by blast
  have other: "c \<noteq> i" if "D k = Some c" and "k \<noteq> (p, n)" for k c
    using ns_tree_unique [OF assms(1) assms(2)] that by blast
  show ?thesis
  proof (rule ns_treeI)
    show "(T(i := None)) root = Some DIR"
      using ir ns_tree_root [OF assms(1)] by simp
    show "(T(i := None)) q = Some DIR \<and> (T(i := None)) c \<noteq> None \<and> c \<noteq> root"
      if "(D((p, n) := None)) (q, m) = Some c" for q m c
      using that assms(3) other [of "(q, m)" c] ns_tree_parent [OF assms(1), of q m c]
        ns_tree_child [OF assms(1), of q m c] ns_tree_not_root [OF assms(1), of "(q, m)"]
      by (auto split: if_splits)
    show "k = k'" if "(D((p, n) := None)) k = Some c" and "(D((p, n) := None)) k' = Some c" for k k' c
      using that ns_tree_unique [OF assms(1), of k c k'] by (auto split: if_splits)
    show "\<exists>k. (D((p, n) := None)) k = Some j" if "(T(i := None)) j \<noteq> None" and "j \<noteq> root" for j
    proof -
      from that assms(2) obtain k where "D k = Some j" "k \<noteq> (p, n)"
        using ns_tree_named [OF assms(1), of j] by (fastforce split: if_splits)
      then show ?thesis
        by (rule named_other)
    qed
    show "ranked (D((p, n) := None)) rank"
      using r by (auto simp: ranked_def edges_def split: if_splits)
  qed
qed

text \<open>
  Moving a node: the ranks below it are raised above the rank of its new parent.  The
  new parent must not lie below the node, or the entry would close a cycle.
\<close>

lemma ranked_move:
  assumes t: "ns_tree T D" and k: "D (p, n) = Some m" and na: "\<not> lies_above D m p'"
    and r: "ranked D rank"
  defines "rank' \<equiv> \<lambda>x. if lies_above D m x then rank x + Suc (rank p') else rank x"
  shows "ranked (D((p, n) := None, (p', n') \<mapsto> m)) rank'"
proof -
  have "rank' q < rank' c" if e: "(D((p, n) := None, (p', n') \<mapsto> m)) (q, x) = Some c" for q x c
  proof (cases "(q, x) = (p', n')")
    case True
    with e na show ?thesis
      by (auto simp: rank'_def)
  next
    case False
    with e have d: "D (q, x) = Some c" and "(q, x) \<noteq> (p, n)"
      by (auto split: if_splits)
    then have "c \<noteq> m"
      using ns_tree_unique [OF t k] by auto
    then have "lies_above D m c \<longleftrightarrow> lies_above D m q"
      using above_child [OF t d] by auto
    moreover have "rank q < rank c"
      using r d by (auto simp: ranked_def intro: edgesI)
    ultimately show ?thesis
      by (simp add: rank'_def)
  qed
  then show ?thesis
    unfolding ranked_def edges_def by blast
qed

lemma ns_tree_move:
  assumes "ns_tree T D" and "D (p, n) = Some m" and "\<not> lies_above D m p'"
    and "T p' = Some DIR" and "D (p', n') = None"
  shows "ns_tree T (D((p, n) := None, (p', n') \<mapsto> m))"
proof -
  obtain rank where r: "ranked D rank"
    using assms(1) ns_tree_ranked by blast
  have m: "T m \<noteq> None" "m \<noteq> root"
    using assms(2) ns_tree_child [OF assms(1)] ns_tree_not_root [OF assms(1)] by auto
  have other: "c \<noteq> m" if "D k = Some c" and "k \<noteq> (p, n)" for k c
    using ns_tree_unique [OF assms(1) assms(2)] that by blast
  let ?D = "D((p, n) := None, (p', n') \<mapsto> m)"
  show ?thesis
  proof (rule ns_treeI)
    show "T root = Some DIR"
      using assms(1) by (rule ns_tree_root)
    show "T q = Some DIR \<and> T c \<noteq> None \<and> c \<noteq> root" if "?D (q, x) = Some c" for q x c
      using that assms(4) m ns_tree_parent [OF assms(1), of q x c]
        ns_tree_child [OF assms(1), of q x c] ns_tree_not_root [OF assms(1), of "(q, x)"]
      by (auto split: if_splits)
    show "k = k'" if "?D k = Some c" and "?D k' = Some c" for k k' c
      using that other [of k c] other [of k' c] ns_tree_unique [OF assms(1), of k c k']
      by (auto split: if_splits)
    show "\<exists>k. ?D k = Some j" if "T j \<noteq> None" and "j \<noteq> root" for j
    proof (cases "j = m")
      case False
      with that assms(2,5) obtain k where "D k = Some j" "k \<noteq> (p, n)" "k \<noteq> (p', n')"
        using ns_tree_named [OF assms(1), of j] by fastforce
      then show ?thesis
        by (intro exI [of _ k]) simp
    qed auto
    show "ranked ?D (\<lambda>x. if lies_above D m x then rank x + Suc (rank p') else rank x)"
      by (rule ranked_move [OF assms(1,2,3) r])
  qed
qed

section \<open>Subdirectories\<close>

definition subdirs :: "types \<Rightarrow> links \<Rightarrow> u64 \<Rightarrow> (u64 \<times> string) set" where
  "subdirs T D i = {k. fst k = i \<and> (\<exists>c. D k = Some c \<and> T c = Some DIR)}"

lemma subdirs_iff:
  "k \<in> subdirs T D i \<longleftrightarrow> fst k = i \<and> (case D k of None \<Rightarrow> False | Some c \<Rightarrow> T c = Some DIR)"
  by (auto simp: subdirs_def split: option.splits)

lemma finite_subdirs: "finite {k. D k \<noteq> None} \<Longrightarrow> finite (subdirs T D i)"
  by (rule finite_subset [rotated]) (auto simp: subdirs_def)

lemma subdirs_add:
  assumes "ns_tree T D" and "T i = None" and "D (p, n) = None"
  shows "subdirs (T(i \<mapsto> ty)) (D((p, n) \<mapsto> i)) j =
    (if j = p \<and> ty = DIR then insert (p, n) (subdirs T D j) else subdirs T D j)"
  using ns_tree_absent [OF assms(1,2)] assms(3)
  by (auto simp: subdirs_iff split: option.splits if_splits)

lemma subdirs_remove:
  assumes "ns_tree T D" and "D (p, n) = Some i"
  shows "subdirs (T(i := None)) (D((p, n) := None)) j = subdirs T D j - {(p, n)}"
  using ns_tree_unique [OF assms] by (auto simp: subdirs_iff split: option.splits if_splits)

lemma subdirs_move:
  assumes "D (p', n') = None" and "D (p, n) = Some m"
  shows "subdirs T (D((p, n) := None, (p', n') \<mapsto> m)) j =
    (if j = p' \<and> T m = Some DIR then insert (p', n') (subdirs T D j - {(p, n)})
     else subdirs T D j - {(p, n)})"
  using assms by (auto simp: subdirs_def)

lemma in_subdirs: "D (p, n) = Some i \<Longrightarrow> (p, n) \<in> subdirs T D j \<longleftrightarrow> j = p \<and> T i = Some DIR"
  by (auto simp: subdirs_def)

lemma not_in_subdirs: "D (p, n) = None \<Longrightarrow> (p, n) \<notin> subdirs T D j"
  by (auto simp: subdirs_def)

lemma subdirs_none: "(\<And>n. D (i, n) = None) \<Longrightarrow> subdirs T D i = {}"
  by (auto simp: subdirs_def)

end
