(* ===== verification/Meta_Invariant.thy ===== *)
theory Meta_Invariant
  imports Meta_State Namespace
begin

text \<open>
  The invariant of the metadata state and its preservation.  \<open>itype\<close> and \<open>den\<close> abstract
  a state to the name space of \<^verbatim>\<open>Namespace\<close>; \<open>meta_wf\<close> says that this is a tree, that the
  link counts, the inode numbers and the file layouts agree with it, and that the next
  inode number is fresh.  Each operation is first brought to a closed form on well-formed
  states (no \<^verbatim>\<open>at\<close> throws), then shown to make one of the four abstract changes.
\<close>

section \<open>Abstraction and invariant\<close>

definition itype :: "MetaState \<Rightarrow> types" where
  "itype s i = map_option a_type (omap_lookup (inodes s) i)"

definition den :: "MetaState \<Rightarrow> links" where
  "den s = omap_lookup (dentries s)"

definition expected_nlink :: "MetaState \<Rightarrow> u64 \<Rightarrow> InodeType \<Rightarrow> u64" where
  "expected_nlink s i type =
     (if type = DIR then 2 + of_nat (card (subdirs (itype s) (den s) i)) else 1)"

definition inode_ok :: "MetaState \<Rightarrow> u64 \<Rightarrow> InodeAttrs \<Rightarrow> bool" where
  "inode_ok s i a \<longleftrightarrow> inode_id a = i \<and> a_type a \<noteq> INODE_TYPE_UNSPECIFIED \<and>
     nlink a = expected_nlink s i (a_type a)"

definition layout_ok :: "MetaState \<Rightarrow> u64 \<Rightarrow> bool" where
  "layout_ok s i \<longleftrightarrow>
     (case omap_lookup (inodes s) i of
        None \<Rightarrow> omap_lookup (layouts s) i = None
      | Some a \<Rightarrow>
          if a_type a = INODE_TYPE_FILE
          then (\<exists>l. omap_lookup (layouts s) i = Some l \<and> l_attrs l = a)
          else omap_lookup (layouts s) i = None)"

definition names_ok :: "MetaState \<Rightarrow> bool" where
  "names_ok s \<longleftrightarrow> (\<forall>p n c. den s (p, n) = Some c \<longrightarrow> ValidateName n = Inr ())"

definition meta_wf :: "MetaState \<Rightarrow> bool" where
  "meta_wf s \<longleftrightarrow> ns_tree (itype s) (den s) \<and> names_ok s \<and>
     (\<forall>i a. omap_lookup (inodes s) i = Some a \<longrightarrow> inode_ok s i a) \<and>
     (\<forall>i. layout_ok s i) \<and>
     (\<forall>i. itype s i \<noteq> None \<longrightarrow> i < next_inode_id s)"

lemma wfI:
  assumes "ns_tree (itype s) (den s)"
    and "\<And>p n c. den s (p, n) = Some c \<Longrightarrow> ValidateName n = Inr ()"
    and "\<And>i a. omap_lookup (inodes s) i = Some a \<Longrightarrow> inode_ok s i a"
    and "\<And>i. layout_ok s i"
    and "\<And>i. itype s i \<noteq> None \<Longrightarrow> i < next_inode_id s"
  shows "meta_wf s"
  using assms unfolding meta_wf_def names_ok_def by blast

lemma wf_tree: "meta_wf s \<Longrightarrow> ns_tree (itype s) (den s)"
  by (simp add: meta_wf_def)

lemma wf_name: "meta_wf s \<Longrightarrow> den s (p, n) = Some c \<Longrightarrow> ValidateName n = Inr ()"
  unfolding meta_wf_def names_ok_def by blast

lemma wf_inode: "meta_wf s \<Longrightarrow> omap_lookup (inodes s) i = Some a \<Longrightarrow> inode_ok s i a"
  by (simp add: meta_wf_def)

lemma wf_layout: "meta_wf s \<Longrightarrow> layout_ok s i"
  by (simp add: meta_wf_def)

lemma wf_fresh: "meta_wf s \<Longrightarrow> itype s i \<noteq> None \<Longrightarrow> i < next_inode_id s"
  by (simp add: meta_wf_def)

lemma itype_Some: "itype s i = Some ty \<longleftrightarrow> (\<exists>a. omap_lookup (inodes s) i = Some a \<and> a_type a = ty)"
  by (auto simp: itype_def)

lemma itype_None: "itype s i = None \<longleftrightarrow> omap_lookup (inodes s) i = None"
  by (simp add: itype_def)

lemma wf_dir_layout: "meta_wf s \<Longrightarrow> itype s p = Some DIR \<Longrightarrow> omap_lookup (layouts s) p = None"
  using wf_layout [of s p] by (auto simp: layout_ok_def itype_Some)

lemma wf_file_layout:
  assumes "meta_wf s" and "omap_lookup (inodes s) i = Some a" and "a_type a = INODE_TYPE_FILE"
  shows "\<exists>l. omap_lookup (layouts s) i = Some l \<and> l_attrs l = a"
  using wf_layout [of s i] assms by (simp add: layout_ok_def)

lemma wf_layoutD:
  assumes "meta_wf s" and "omap_lookup (layouts s) i = Some l"
  shows "omap_lookup (inodes s) i = Some (l_attrs l) \<and> a_type (l_attrs l) = INODE_TYPE_FILE"
  using wf_layout [OF assms(1), of i] assms(2)
  by (auto simp: layout_ok_def split: option.splits if_splits)

lemma wf_no_wrap: "meta_wf s \<Longrightarrow> itype s (next_inode_id s) = None"
  using wf_fresh [of s "next_inode_id s"] by (cases "itype s (next_inode_id s)") auto

lemma finite_den: "finite {k. den s k \<noteq> None}"
  unfolding den_def by (rule finite_dom_lookup)

lemma finite_subdirs_den [simp]: "finite (subdirs T (den s) i)"
  by (rule finite_subdirs) (rule finite_den)

lemma itype_updates [simp]:
  "itype (s\<lparr>next_inode_id := x\<rparr>) = itype s"
  "itype (s\<lparr>dentries := d\<rparr>) = itype s"
  "itype (s\<lparr>layouts := l\<rparr>) = itype s"
  "den (s\<lparr>next_inode_id := x\<rparr>) = den s"
  "den (s\<lparr>inodes := i\<rparr>) = den s"
  "den (s\<lparr>layouts := l\<rparr>) = den s"
  "den (s\<lparr>dentries := d\<rparr>) = omap_lookup d"
  by (simp_all add: itype_def den_def fun_eq_iff)

lemma itype_put [simp]:
  "itype (s\<lparr>inodes := omap_put i a m\<rparr>) = (itype (s\<lparr>inodes := m\<rparr>))(i \<mapsto> a_type a)"
  by (auto simp: itype_def fun_eq_iff)

lemma itype_erase [simp]:
  "itype (s\<lparr>inodes := omap_erase i m\<rparr>) = (itype (s\<lparr>inodes := m\<rparr>))(i := None)"
  by (auto simp: itype_def fun_eq_iff)

lemma itype_same [simp]: "itype (s\<lparr>inodes := inodes s\<rparr>) = itype s"
  by simp

section \<open>Queries in terms of the abstraction\<close>

lemma ValidateParent_Inr:
  "ValidateParent s p name = Inr u \<longleftrightarrow> ValidateName name = Inr () \<and> itype s p = Some DIR"
  by (auto simp: ValidateParent_def itype_Some split: sum.splits option.splits)

lemma ValidateRegularFile_Inr:
  "ValidateRegularFile s i = Inr u \<longleftrightarrow> itype s i = Some INODE_TYPE_FILE"
  by (auto simp: ValidateRegularFile_def itype_Some split: option.splits)

lemma IsDirectoryEmpty_iff: "IsDirectoryEmpty s i \<longleftrightarrow> (\<forall>n. den s (i, n) = None)"
proof -
  have "IsDirectoryEmpty s i \<longleftrightarrow> (\<forall>k v. omap_lookup (dentries s) k = Some v \<longrightarrow> fst k \<noteq> i)"
    unfolding IsDirectoryEmpty_def using om.scan_none [of "dentries s" "\<lambda>k v. fst k = i"] by simp
  then show ?thesis
    by (auto simp: den_def) (metis not_Some_eq)
qed

lemma ParentOf_child:
  assumes "ns_tree (itype s) (den s)" and "den s (p, n) = Some c"
  shows "ParentOf s c = p"
proof -
  have "find (\<lambda>e. snd e = c) (entries (dentries s)) = Some ((p, n), c)"
    using om.find_unique [of "dentries s" "(p, n)" c] ns_tree_unique [OF assms(1)] assms(2)
    by (auto simp: den_def)
  moreover have "c \<noteq> root"
    using assms ns_tree_not_root by blast
  ultimately show ?thesis
    by (simp add: ParentOf_def kRootInodeId_def)
qed

lemma ParentOf_orphan:
  assumes "\<And>k. den s k \<noteq> Some i"
  shows "ParentOf s i = i"
  using om.find_missing [of "dentries s" i] assms by (simp add: ParentOf_def den_def)

text \<open>The walk to the root stops and decides the relation \<^const>\<open>lies_above\<close>.\<close>

lemma IsAncestor_above:
  assumes "ns_tree (itype s) (den s)"
  shows "IsAncestor s a x = Some (lies_above (den s) a x)"
proof -
  obtain rank where r: "ranked (den s) rank"
    using assms ns_tree_ranked by blast
  show ?thesis
  proof (induction "rank x" arbitrary: x rule: less_induct)
    case less
    consider "x = root" | "x \<noteq> root" "x = a" | p n where "x \<noteq> root" "x \<noteq> a" "den s (p, n) = Some x"
      | "x \<noteq> root" "x \<noteq> a" "\<And>k. den s k \<noteq> Some x"
      by (metis surj_pair)
    then show ?case
    proof cases
      case 1
      then show ?thesis
        using above_root [OF assms] by (simp add: IsAncestor.simps kRootInodeId_def)
    next
      case 2
      then show ?thesis
        by (simp add: IsAncestor.simps kRootInodeId_def)
    next
      case (3 p n)
      then have "rank p < rank x"
        using r by (auto simp: ranked_def intro: edgesI)
      then have "IsAncestor s a p = Some (lies_above (den s) a p)"
        by (rule less)
      moreover have "ParentOf s x = p" and "p \<noteq> x"
        using ParentOf_child [OF assms 3(3)] \<open>rank p < rank x\<close> by auto
      ultimately show ?thesis
        using 3 above_child [OF assms 3(3), of a]
        by (simp add: IsAncestor.simps [of s a x] kRootInodeId_def)
    next
      case 4
      then show ?thesis
        using above_top [of "den s" x a]
        by (simp add: IsAncestor.simps [of s a x] ParentOf_orphan kRootInodeId_def)
    qed
  qed
qed

section \<open>Attribute updates\<close>

text \<open>
  Storing attributes that keep the identity, the type and the link count of an inode, and
  copying them to its layout, keeps the invariant: \<open>SetAttr\<close>, \<open>TouchInode\<close> and the last
  step of \<open>Rename\<close> are of this form.
\<close>

definition store_attrs :: "u64 \<Rightarrow> InodeAttrs \<Rightarrow> MetaState \<Rightarrow> MetaState" where
  "store_attrs i a s = sync_layout i a (s\<lparr>inodes := omap_put i a (inodes s)\<rparr>)"

lemma sync_layout_sel [simp]:
  "inodes (sync_layout i a s) = inodes s"
  "dentries (sync_layout i a s) = dentries s"
  "next_inode_id (sync_layout i a s) = next_inode_id s"
  "default_chunk_size (sync_layout i a s) = default_chunk_size s"
  by (simp_all add: sync_layout_def split: option.splits)

lemma lookup_sync_layout:
  "omap_lookup (layouts (sync_layout i a s)) j =
     (if j = i then map_option (\<lambda>l. l\<lparr>l_attrs := a\<rparr>) (omap_lookup (layouts s) i)
      else omap_lookup (layouts s) j)"
  by (simp add: sync_layout_def split: option.splits)

lemma itype_den_sync [simp]:
  "itype (sync_layout i a s) = itype s" "den (sync_layout i a s) = den s"
  by (simp_all add: itype_def den_def fun_eq_iff)

lemma store_attrs_abs:
  assumes "omap_lookup (inodes s) i = Some a" and "a_type a' = a_type a"
  shows "itype (store_attrs i a' s) = itype s" and "den (store_attrs i a' s) = den s"
  using assms by (auto simp: store_attrs_def itype_def fun_eq_iff)

lemma wf_store_attrs:
  assumes "meta_wf s" and a: "omap_lookup (inodes s) i = Some a"
    and a': "a_type a' = a_type a" "inode_id a' = inode_id a" "nlink a' = nlink a"
  shows "meta_wf (store_attrs i a' s)"
proof (rule wfI)
  note abs = store_attrs_abs [OF a a'(1)]
  show "ns_tree (itype (store_attrs i a' s)) (den (store_attrs i a' s))"
    using abs wf_tree [OF assms(1)] by simp
  show "ValidateName n = Inr ()" if "den (store_attrs i a' s) (p, n) = Some c" for p n c
    using that abs wf_name [OF assms(1)] by simp
  show "inode_ok (store_attrs i a' s) j b"
    if "omap_lookup (inodes (store_attrs i a' s)) j = Some b" for j b
    using that a a' abs wf_inode [OF assms(1), of j] wf_inode [OF assms(1), of i]
    by (auto simp: store_attrs_def inode_ok_def expected_nlink_def split: if_splits)
  show "layout_ok (store_attrs i a' s) j" for j
    using wf_layout [OF assms(1), of j] a a'(1)
    by (auto simp: layout_ok_def store_attrs_def lookup_sync_layout split: option.splits)
  show "j < next_inode_id (store_attrs i a' s)" if "itype (store_attrs i a' s) j \<noteq> None" for j
  proof -
    have "itype s j \<noteq> None"
      using that unfolding abs .
    then show ?thesis
      using wf_fresh [OF assms(1)] by (simp add: store_attrs_def)
  qed
qed

definition touched :: "i64 \<Rightarrow> InodeAttrs \<Rightarrow> InodeAttrs" where
  "touched now a = a\<lparr>mtime_ns := now, ctime_ns := now, version := version a + 1\<rparr>"

lemma touched_sel [simp]:
  "inode_id (touched now a) = inode_id a" "a_type (touched now a) = a_type a"
  "nlink (touched now a) = nlink a" "a_size (touched now a) = a_size a"
  "version (touched now a) = version a + 1"
  by (simp_all add: touched_def)

lemma TouchInode_store:
  "omap_lookup (inodes s) i = Some a \<Longrightarrow> TouchInode i now s = (Ok (), store_attrs i (touched now a) s)"
  by (simp add: TouchInode_def store_attrs_def touched_def Let_def)

lemma store_attrs_no_layout:
  "omap_lookup (layouts s) i = None \<Longrightarrow>
     store_attrs i a s = s\<lparr>inodes := omap_put i a (inodes s)\<rparr>"
  by (simp add: store_attrs_def sync_layout_def)

lemma apply_setattr_sel [simp]:
  "a_type (apply_setattr c a) = a_type a" "inode_id (apply_setattr c a) = inode_id a"
  "nlink (apply_setattr c a) = nlink a" "version (apply_setattr c a) = version a"
  "a_size (apply_setattr c a) = a_size a"
  by (simp_all add: apply_setattr_def Let_def)

lemma SetAttr_store:
  "SetAttr c now s =
     (case omap_lookup (inodes s) (sa_inode_id c) of
        None \<Rightarrow> (Err (MakeError (NotFound (to_string (sa_inode_id c))) ''inode not found''), s)
      | Some a \<Rightarrow>
          (let a = (apply_setattr c a)\<lparr>ctime_ns := now, version := version a + 1\<rparr>
           in (Ok a, store_attrs (sa_inode_id c) a s)))"
  by (simp add: SetAttr_def store_attrs_def Let_def split: option.splits)

lemma wf_SetAttr [wf_intros]: "meta_wf s \<Longrightarrow> meta_wf (snd (SetAttr c now s))"
  by (auto simp: SetAttr_store Let_def split: option.splits intro!: wf_store_attrs)

section \<open>Creation\<close>

text \<open>The state after a successful \<^verbatim>\<open>CreateNode\<close>, with the stores of the code combined.\<close>

definition created :: "u64 \<Rightarrow> string \<Rightarrow> InodeType \<Rightarrow> InodeAttrs \<Rightarrow> InodeAttrs \<Rightarrow> MetaState \<Rightarrow> MetaState" where
  "created p name type parent inode s =
     s\<lparr>next_inode_id := next_inode_id s + 1,
       inodes := omap_put (next_inode_id s) inode (omap_put p parent (inodes s)),
       dentries := omap_put (p, name) (next_inode_id s) (dentries s),
       layouts := (if type = INODE_TYPE_FILE
                   then omap_put (next_inode_id s)
                     \<lparr>l_attrs = inode, l_chunk_size = default_chunk_size s, extents = []\<rparr> (layouts s)
                   else layouts s)\<rparr>"

definition created_parent :: "InodeType \<Rightarrow> i64 \<Rightarrow> InodeAttrs \<Rightarrow> InodeAttrs" where
  "created_parent type now parent =
     (if type = DIR then (touched now parent)\<lparr>nlink := nlink parent + 1\<rparr> else touched now parent)"

lemma created_parent_sel [simp]:
  "a_type (created_parent type now a) = a_type a"
  "inode_id (created_parent type now a) = inode_id a"
  "nlink (created_parent type now a) = (if type = DIR then nlink a + 1 else nlink a)"
  by (simp_all add: created_parent_def)

lemma new_attrs_sel [simp]:
  "a_type (new_attrs i type mode uid gid now chunk) = type"
  "inode_id (new_attrs i type mode uid gid now chunk) = i"
  "nlink (new_attrs i type mode uid gid now chunk) = (if type = DIR then 2 else 1)"
  "a_size (new_attrs i type mode uid gid now chunk) = 0"
  by (simp_all add: new_attrs_def)

lemma CreateNode_created:
  assumes "meta_wf s" and "ValidateParent s p name = Inr u" and "den s (p, name) = None"
    and "omap_lookup (inodes s) p = Some parent"
  shows "CreateNode p name type mode uid gid now s =
    (let inode = new_attrs (next_inode_id s) type mode uid gid now (default_chunk_size s)
     in (Ok inode, created p name type (created_parent type now parent) inode s))"
proof -
  let ?i = "next_inode_id s"
  have i: "omap_lookup (inodes s) ?i = None"
    using wf_no_wrap [OF assms(1)] by (simp add: itype_None)
  then have ip: "?i \<noteq> p"
    using assms(4) by auto
  have l: "omap_lookup (layouts s) ?i = None"
    using wf_layout [OF assms(1), of ?i] i by (simp add: layout_ok_def)
  show ?thesis
    unfolding CreateNode_def Let_def using assms(2-4) i ip l
    by (simp add: den_def created_def created_parent_def touched_def emplace_fresh)
qed

lemma CreateNode_cases:
  assumes "meta_wf s"
  obtains (failed) e where "CreateNode p name type mode uid gid now s = (Err e, s)"
  | (created) parent inode where
      "ValidateName name = Inr ()" "den s (p, name) = None"
      "omap_lookup (inodes s) p = Some parent" "a_type parent = DIR"
      "inode = new_attrs (next_inode_id s) type mode uid gid now (default_chunk_size s)"
      "CreateNode p name type mode uid gid now s =
         (Ok inode, created p name type (created_parent type now parent) inode s)"
proof (cases "ValidateParent s p name")
  case (Inl e)
  then show thesis
    by (intro failed) (simp add: CreateNode_def)
next
  case (Inr u)
  show thesis
  proof (cases "den s (p, name)")
    case (Some c)
    with Inr show thesis
      by (intro failed) (simp add: CreateNode_def den_def)
  next
    case None
    obtain parent where "omap_lookup (inodes s) p = Some parent" "a_type parent = DIR"
      "ValidateName name = Inr ()"
      using Inr [unfolded ValidateParent_Inr] by (auto simp: itype_Some)
    with None show thesis
      using CreateNode_created [OF assms Inr None] by (intro created) (simp_all add: Let_def)
  qed
qed

text \<open>Creation adds a node to the abstract name space.\<close>

lemma created_abs:
  assumes "meta_wf s" and "omap_lookup (inodes s) p = Some parent"
  shows "itype (created p name type (created_parent type now parent) inode s) =
      (itype s)(next_inode_id s \<mapsto> a_type inode)"
    and "den (created p name type pa inode s) = (den s)((p, name) \<mapsto> next_inode_id s)"
  using assms by (auto simp: created_def itype_def den_def fun_eq_iff)

lemma created_sel [simp]:
  "omap_lookup (inodes (created p name type parent inode s)) j =
     (if j = next_inode_id s then Some inode else if j = p then Some parent
      else omap_lookup (inodes s) j)"
  "omap_lookup (layouts (created p name type parent inode s)) j =
     (if j = next_inode_id s \<and> type = INODE_TYPE_FILE
      then Some \<lparr>l_attrs = inode, l_chunk_size = default_chunk_size s, extents = []\<rparr>
      else omap_lookup (layouts s) j)"
  "next_inode_id (created p name type parent inode s) = next_inode_id s + 1"
  "default_chunk_size (created p name type parent inode s) = default_chunk_size s"
  by (simp_all add: created_def)

lemma wf_created:
  assumes "meta_wf s" and "den s (p, name) = None" and "ValidateName name = Inr ()"
    and p: "omap_lookup (inodes s) p = Some parent" "a_type parent = DIR"
    and inode: "a_type inode = type" "inode_id inode = next_inode_id s"
      "nlink inode = (if type = DIR then 2 else 1)"
    and ty: "type \<noteq> INODE_TYPE_UNSPECIFIED" and room: "next_inode_id s \<noteq> -1"
  shows "meta_wf (created p name type (created_parent type now parent) inode s)" (is "meta_wf ?s")
proof -
  let ?i = "next_inode_id s"
  note T = created_abs(1) [OF assms(1) p(1), of name type now inode, unfolded inode(1)]
    and D = created_abs(2) [OF assms(1) p(1), of name type "created_parent type now parent" inode]
  note tree = wf_tree [OF assms(1)]
  have i: "itype s ?i = None"
    by (rule wf_no_wrap [OF assms(1)])
  then have ip: "?i \<noteq> p"
    using p by (auto simp: itype_def)
  have ip': "itype s p = Some DIR"
    using p by (simp add: itype_def)
  note sub = subdirs_add [OF tree i assms(2), of type]
  have exp: "expected_nlink ?s j ty' =
      (if j = p \<and> type = DIR \<and> ty' = DIR then expected_nlink s j ty' + 1 else expected_nlink s j ty')" for j ty'
    using not_in_subdirs [of "den s" p name] assms(2)
    unfolding expected_nlink_def T D sub by simp
  show ?thesis
  proof (rule wfI)
    show "ns_tree (itype ?s) (den ?s)"
      using ns_tree_add [OF tree ip' assms(2) i] by (simp add: T D)
    show "ValidateName n = Inr ()" if "den ?s (q, n) = Some c" for q n c
      using that assms(3) wf_name [OF assms(1), of q n c] by (auto simp: D split: if_splits)
    show "inode_ok ?s j a" if a: "omap_lookup (inodes ?s) j = Some a" for j a
    proof -
      have "subdirs (itype s) (den s) ?i = {}"
        using ns_tree_absent [OF tree i] by (intro subdirs_none)
      then have "expected_nlink s ?i ty' = (if ty' = DIR then 2 else 1)" for ty'
        by (simp add: expected_nlink_def)
      then show ?thesis
        using a inode ty ip p wf_inode [OF assms(1), of j] wf_inode [OF assms(1), of p]
        by (auto simp: inode_ok_def exp split: if_splits)
    qed
    show "layout_ok ?s j" for j
      using wf_layout [OF assms(1), of j] wf_dir_layout [OF assms(1) ip'] inode(1) ty ip p
        i [unfolded itype_None]
      by (auto simp: layout_ok_def split: option.splits if_splits)
    show "j < next_inode_id ?s" if "itype ?s j \<noteq> None" for j
    proof -
      have "?i < ?i + 1"
        using room by (rule word_less_add_one)
      moreover have "j < ?i \<or> j = ?i"
        using that wf_fresh [OF assms(1), of j] by (auto simp: T split: if_splits)
      ultimately show ?thesis
        by auto
    qed
  qed
qed

lemma wf_CreateNode:
  assumes "meta_wf s" and "type \<noteq> INODE_TYPE_UNSPECIFIED" and "next_inode_id s \<noteq> -1"
  shows "meta_wf (snd (CreateNode p name type mode uid gid now s))"
  using assms(1)
proof (cases rule: CreateNode_cases [where p = p and name = name and type = type and mode = mode
    and uid = uid and gid = gid and now = now])
  case (created parent inode)
  then show ?thesis
    using wf_created [OF assms(1) created(2,1,3,4), of inode type now] assms(2,3) by simp
qed (use assms(1) in simp)

section \<open>Removal\<close>

text \<open>The state after a successful \<^verbatim>\<open>RemoveNode\<close>.\<close>

definition removed :: "u64 \<Rightarrow> string \<Rightarrow> u64 \<Rightarrow> InodeAttrs \<Rightarrow> MetaState \<Rightarrow> MetaState" where
  "removed p name i parent s =
     s\<lparr>dentries := omap_erase (p, name) (dentries s), layouts := omap_erase i (layouts s),
       inodes := omap_put p parent (omap_erase i (inodes s))\<rparr>"

definition removed_parent :: "InodeType \<Rightarrow> i64 \<Rightarrow> InodeAttrs \<Rightarrow> InodeAttrs" where
  "removed_parent type now parent =
     (if type = DIR then (touched now parent)\<lparr>nlink := nlink parent - 1\<rparr> else touched now parent)"

lemma removed_parent_sel [simp]:
  "a_type (removed_parent type now a) = a_type a"
  "inode_id (removed_parent type now a) = inode_id a"
  "nlink (removed_parent type now a) = (if type = DIR then nlink a - 1 else nlink a)"
  by (simp_all add: removed_parent_def)

lemma removed_sel [simp]:
  "omap_lookup (inodes (removed p name i parent s)) j =
     (if j = p then Some parent else if j = i then None else omap_lookup (inodes s) j)"
  "omap_lookup (layouts (removed p name i parent s)) j =
     (if j = i then None else omap_lookup (layouts s) j)"
  "next_inode_id (removed p name i parent s) = next_inode_id s"
  "default_chunk_size (removed p name i parent s) = default_chunk_size s"
  by (simp_all add: removed_def)

lemma RemoveNode_removed:
  assumes "omap_lookup (inodes s) i = Some inode" and "omap_lookup (inodes s) p = Some parent"
    and "omap_lookup (layouts s) p = None" and "i \<noteq> p"
  shows "RemoveNode p name i now s =
    (Ok (), removed p name i (removed_parent (a_type inode) now parent) s)"
proof -
  let ?s = "s\<lparr>dentries := omap_erase (p, name) (dentries s), layouts := omap_erase i (layouts s),
    inodes := omap_erase i (inodes s)\<rparr>"
  have "TouchInode p now ?s =
      (Ok (), ?s\<lparr>inodes := omap_put p (touched now parent) (inodes ?s)\<rparr>)"
    using assms by (subst TouchInode_store [of _ _ parent]) (simp_all add: store_attrs_no_layout)
  then show ?thesis
    using assms(1) by (simp add: RemoveNode_def removed_def removed_parent_def)
qed

text \<open>Removal takes a node without children out of the abstract name space.\<close>

lemma removed_abs:
  assumes "omap_lookup (inodes s) p = Some parent" and "i \<noteq> p" and "a_type parent' = a_type parent"
  shows "itype (removed p name i parent' s) = (itype s)(i := None)"
    and "den (removed p name i parent' s) = (den s)((p, name) := None)"
  using assms by (auto simp: removed_def itype_def den_def fun_eq_iff)

lemma wf_removed:
  assumes "meta_wf s" and d: "den s (p, name) = Some i" and leaf: "\<And>n. den s (i, n) = None"
    and i: "omap_lookup (inodes s) i = Some inode" and p: "omap_lookup (inodes s) p = Some parent"
  shows "meta_wf (removed p name i (removed_parent (a_type inode) now parent) s)" (is "meta_wf ?s")
proof -
  note tree = wf_tree [OF assms(1)]
  have ip: "i \<noteq> p"
    using d leaf by auto
  have pd: "itype s p = Some DIR"
    using ns_tree_parent [OF tree d] .
  have T: "itype ?s = (itype s)(i := None)" and D: "den ?s = (den s)((p, name) := None)"
    using removed_abs [OF p ip] by simp_all
  have sub: "subdirs (itype ?s) (den ?s) j = subdirs (itype s) (den s) j - {(p, name)}" for j
    unfolding T D by (rule subdirs_remove [OF tree d])
  have inS: "(p, name) \<in> subdirs (itype s) (den s) j \<longleftrightarrow> j = p \<and> a_type inode = DIR" for j
    using in_subdirs [of "den s" p name i "itype s" j] d i by (simp add: itype_def)
  have exp: "expected_nlink ?s j ty =
      (if j = p \<and> a_type inode = DIR \<and> ty = DIR then expected_nlink s j ty - 1
       else expected_nlink s j ty)" for j ty
  proof (cases "j = p \<and> a_type inode = DIR")
    case True
    then have "card (subdirs (itype s) (den s) j) = Suc (card (subdirs (itype ?s) (den ?s) j))"
      unfolding sub using inS by (intro card.remove) simp_all
    with True show ?thesis
      by (simp add: expected_nlink_def)
  next
    case False
    with inS have "subdirs (itype ?s) (den ?s) j = subdirs (itype s) (den s) j"
      unfolding sub by blast
    with False show ?thesis
      by (auto simp: expected_nlink_def)
  qed
  show ?thesis
  proof (rule wfI)
    show "ns_tree (itype ?s) (den ?s)"
      unfolding T D by (rule ns_tree_remove [OF tree d leaf])
    show "ValidateName n = Inr ()" if "den ?s (q, n) = Some c" for q n c
      using that wf_name [OF assms(1), of q n c] by (auto simp: D split: if_splits)
    show "inode_ok ?s j a" if "omap_lookup (inodes ?s) j = Some a" for j a
      using that p pd wf_inode [OF assms(1), of j] wf_inode [OF assms(1), of p]
      by (auto simp: inode_ok_def exp itype_def split: if_splits)
    show "layout_ok ?s j" for j
      using wf_layout [OF assms(1), of j] wf_dir_layout [OF assms(1) pd] p pd
      by (auto simp: layout_ok_def itype_def split: option.splits if_splits)
    show "j < next_inode_id ?s" if "itype ?s j \<noteq> None" for j
      using that wf_fresh [OF assms(1), of j] by (auto simp: T split: if_splits)
  qed
qed

text \<open>
  On well-formed states \<^verbatim>\<open>Unlink\<close> and \<^verbatim>\<open>Rmdir\<close> either fail and leave the state alone
  or remove the node the entry names.
\<close>

lemma wf_den_inodes:
  assumes "meta_wf s" and "den s (p, name) = Some i"
  obtains inode parent where "omap_lookup (inodes s) i = Some inode"
    "omap_lookup (inodes s) p = Some parent" "a_type parent = DIR"
    "omap_lookup (layouts s) p = None" "i \<noteq> p"
proof -
  note tree = wf_tree [OF assms(1)]
  obtain inode where "omap_lookup (inodes s) i = Some inode"
    using ns_tree_child [OF tree assms(2)] by (auto simp: itype_def)
  moreover obtain parent where "omap_lookup (inodes s) p = Some parent" "a_type parent = DIR"
    using ns_tree_parent [OF tree assms(2)] by (auto simp: itype_Some)
  moreover have "omap_lookup (layouts s) p = None"
    using wf_dir_layout [OF assms(1)] ns_tree_parent [OF tree assms(2)] by simp
  moreover have "i \<noteq> p"
    using ns_tree_no_cycle [OF tree assms(2)] by auto
  ultimately show thesis
    by (rule that)
qed

lemma RemoveNode_wf:
  assumes "meta_wf s" and "den s (p, name) = Some i" and "\<And>n. den s (i, n) = None"
    and i: "omap_lookup (inodes s) i = Some inode"
  obtains parent s' where "omap_lookup (inodes s) p = Some parent"
    "s' = removed p name i (removed_parent (a_type inode) now parent) s"
    "RemoveNode p name i now s = (Ok (), s')" "meta_wf s'"
    "itype s' = (itype s)(i := None)" "den s' = (den s)((p, name) := None)"
    "omap_lookup (inodes s') p = Some (removed_parent (a_type inode) now parent)"
proof -
  from assms(1,2) obtain parent where p: "omap_lookup (inodes s) p = Some parent"
    and l: "omap_lookup (layouts s) p = None" and ip: "i \<noteq> p"
    by (rule wf_den_inodes)
  let ?s = "removed p name i (removed_parent (a_type inode) now parent) s"
  have "itype ?s = (itype s)(i := None)" "den ?s = (den s)((p, name) := None)"
    using removed_abs [OF p ip] by simp_all
  then show thesis
    using that [OF p refl RemoveNode_removed [OF i p l ip] wf_removed [OF assms(1-3) i p]] by simp
qed

lemma Unlink_cases [consumes 1, case_names failed gone]:
  assumes "meta_wf s"
  obtains (failed) e where "Unlink p name now s = (Err e, s)"
  | (gone) i inode parent s' where "den s (p, name) = Some i" "omap_lookup (inodes s) i = Some inode"
      "a_type inode \<noteq> DIR" "omap_lookup (inodes s) p = Some parent"
      "Unlink p name now s = (Ok (removed_parent (a_type inode) now parent), s')" "meta_wf s'"
      "s' = removed p name i (removed_parent (a_type inode) now parent) s"
      "itype s' = (itype s)(i := None)" "den s' = (den s)((p, name) := None)"
proof (cases "ValidateParent s p name")
  case (Inl e)
  then show thesis
    by (intro failed) (simp add: Unlink_def)
next
  case V: (Inr u)
  show thesis
  proof (cases "den s (p, name)")
    case None
    with V show thesis
      by (intro failed) (simp add: Unlink_def den_def)
  next
    case d: (Some i)
    obtain inode where i: "omap_lookup (inodes s) i = Some inode"
      using wf_den_inodes [OF assms d] by metis
    show thesis
    proof (cases "a_type inode = DIR")
      case True
      with V d i show thesis
        by (intro failed) (simp add: Unlink_def den_def)
    next
      case False
      then have "den s (i, n) = None" for n
        using ns_tree_leaf [OF wf_tree [OF assms]] i by (simp add: itype_def)
      from RemoveNode_wf [OF assms d this i, where now = now] obtain parent s' where
        r: "omap_lookup (inodes s) p = Some parent"
          "s' = removed p name i (removed_parent (a_type inode) now parent) s"
          "RemoveNode p name i now s = (Ok (), s')" "meta_wf s'"
          "itype s' = (itype s)(i := None)" "den s' = (den s)((p, name) := None)"
          "omap_lookup (inodes s') p = Some (removed_parent (a_type inode) now parent)"
        by metis
      then have "Unlink p name now s = (Ok (removed_parent (a_type inode) now parent), s')"
        using V d i False by (simp add: Unlink_def den_def return_inode_def)
      then show thesis
        using gone [OF d i False r(1) _ r(4) r(2) r(5) r(6)] by blast
    qed
  qed
qed

lemma Rmdir_cases [consumes 1, case_names failed gone]:
  assumes "meta_wf s"
  obtains (failed) e where "Rmdir p name now s = (Err e, s)"
  | (gone) i inode parent s' where "den s (p, name) = Some i" "omap_lookup (inodes s) i = Some inode"
      "a_type inode = DIR" "\<And>n. den s (i, n) = None" "omap_lookup (inodes s) p = Some parent"
      "Rmdir p name now s = (Ok (removed_parent (a_type inode) now parent), s')" "meta_wf s'"
      "s' = removed p name i (removed_parent (a_type inode) now parent) s"
      "itype s' = (itype s)(i := None)" "den s' = (den s)((p, name) := None)"
proof (cases "ValidateParent s p name")
  case (Inl e)
  then show thesis
    by (intro failed) (simp add: Rmdir_def)
next
  case V: (Inr u)
  show thesis
  proof (cases "den s (p, name)")
    case None
    with V show thesis
      by (intro failed) (simp add: Rmdir_def den_def)
  next
    case d: (Some i)
    obtain inode where i: "omap_lookup (inodes s) i = Some inode"
      using wf_den_inodes [OF assms d] by metis
    show thesis
    proof (cases "a_type inode = DIR \<and> IsDirectoryEmpty s i")
      case False
      with V d i show thesis
        by (cases "a_type inode = DIR") (auto intro!: failed simp: Rmdir_def den_def)
    next
      case True
      then have leaf: "den s (i, n) = None" for n
        by (simp add: IsDirectoryEmpty_iff)
      from RemoveNode_wf [OF assms d this i, where now = now] obtain parent s' where
        r: "omap_lookup (inodes s) p = Some parent"
          "s' = removed p name i (removed_parent (a_type inode) now parent) s"
          "RemoveNode p name i now s = (Ok (), s')" "meta_wf s'"
          "itype s' = (itype s)(i := None)" "den s' = (den s)((p, name) := None)"
          "omap_lookup (inodes s') p = Some (removed_parent (a_type inode) now parent)"
        by metis
      then have "Rmdir p name now s = (Ok (removed_parent (a_type inode) now parent), s')"
        using V d i True by (simp add: Rmdir_def den_def return_inode_def)
      then show thesis
        using gone [OF d i _ leaf r(1) _ r(4) r(2) r(5) r(6)] True by blast
    qed
  qed
qed

lemma wf_Unlink [wf_intros]: "meta_wf s \<Longrightarrow> meta_wf (snd (Unlink p name now s))"
  by (cases rule: Unlink_cases [of s p name now]) auto

lemma wf_Rmdir [wf_intros]: "meta_wf s \<Longrightarrow> meta_wf (snd (Rmdir p name now s))"
  by (cases rule: Rmdir_cases [of s p name now]) auto

section \<open>Data operations\<close>

text \<open>
  Writes and truncation replace a file's layout and its attributes.  \<open>stored\<close> is that
  change; it also covers a failing write, which replaces the extents only.
\<close>

definition stored :: "u64 \<Rightarrow> InodeAttrs \<Rightarrow> FileLayout \<Rightarrow> MetaState \<Rightarrow> MetaState" where
  "stored i a l s =
     s\<lparr>inodes := omap_put i a (inodes s), layouts := omap_put i (l\<lparr>l_attrs := a\<rparr>) (layouts s)\<rparr>"

lemma stored_sel [simp]:
  "omap_lookup (inodes (stored i a l s)) j = (if j = i then Some a else omap_lookup (inodes s) j)"
  "omap_lookup (layouts (stored i a l s)) j =
     (if j = i then Some (l\<lparr>l_attrs := a\<rparr>) else omap_lookup (layouts s) j)"
  "dentries (stored i a l s) = dentries s"
  "next_inode_id (stored i a l s) = next_inode_id s"
  "default_chunk_size (stored i a l s) = default_chunk_size s"
  by (simp_all add: stored_def)

lemma stored_abs:
  assumes "omap_lookup (inodes s) i = Some a" and "a_type a' = a_type a"
  shows "itype (stored i a' l s) = itype s" and "den (stored i a' l s) = den s"
  using assms by (auto simp: itype_def den_def fun_eq_iff)

lemma wf_stored:
  assumes "meta_wf s" and a: "omap_lookup (inodes s) i = Some a" and "a_type a = INODE_TYPE_FILE"
    and a': "a_type a' = a_type a" "inode_id a' = inode_id a" "nlink a' = nlink a"
  shows "meta_wf (stored i a' l s)"
proof (rule wfI)
  note abs = stored_abs [OF a a'(1), of l]
  show "ns_tree (itype (stored i a' l s)) (den (stored i a' l s))"
    unfolding abs by (rule wf_tree [OF assms(1)])
  show "ValidateName n = Inr ()" if "den (stored i a' l s) (p, n) = Some c" for p n c
    using that wf_name [OF assms(1)] unfolding abs by blast
  show "inode_ok (stored i a' l s) j b"
    if "omap_lookup (inodes (stored i a' l s)) j = Some b" for j b
    using that a a' wf_inode [OF assms(1), of j] wf_inode [OF assms(1), of i]
    by (auto simp: inode_ok_def expected_nlink_def abs split: if_splits)
  show "layout_ok (stored i a' l s) j" for j
    using wf_layout [OF assms(1), of j] assms(3) a'(1)
    by (auto simp: layout_ok_def split: option.splits)
  show "j < next_inode_id (stored i a' l s)" if "itype (stored i a' l s) j \<noteq> None" for j
    using that wf_fresh [OF assms(1), of j] unfolding abs by simp
qed

definition wrote :: "u64 \<Rightarrow> i64 \<Rightarrow> InodeAttrs \<Rightarrow> InodeAttrs" where
  "wrote sz now a = a\<lparr>a_size := sz, version := version a + 1, mtime_ns := now, ctime_ns := now\<rparr>"

lemma wrote_sel [simp]:
  "a_type (wrote sz now a) = a_type a" "inode_id (wrote sz now a) = inode_id a"
  "nlink (wrote sz now a) = nlink a" "a_size (wrote sz now a) = sz"
  "version (wrote sz now a) = version a + 1"
  by (simp_all add: wrote_def)

definition commit_size :: "u64 \<Rightarrow> FileExtent list \<Rightarrow> u64" where
  "commit_size sz es = foldl (\<lambda>sz e. max sz (ExtentEnd e)) sz es"

text \<open>A file of a well-formed state has a layout, and its attributes are the inode's.\<close>

lemma wf_fileE:
  assumes "meta_wf s" and "ValidateRegularFile s i = Inr u"
  obtains inode layout where "omap_lookup (inodes s) i = Some inode"
    "a_type inode = INODE_TYPE_FILE" "omap_lookup (layouts s) i = Some layout"
    "l_attrs layout = inode"
proof -
  obtain inode where "omap_lookup (inodes s) i = Some inode" "a_type inode = INODE_TYPE_FILE"
    using assms(2) by (auto simp: ValidateRegularFile_Inr itype_Some)
  with wf_file_layout [OF assms(1)] that show thesis
    by blast
qed

text \<open>The three operations in closed form.\<close>

lemma put_layout_stored:
  assumes "omap_lookup (inodes s) i = Some a" and "l_attrs l = a"
  shows "s\<lparr>layouts := omap_put i (l\<lparr>extents := es\<rparr>) (layouts s)\<rparr> = stored i a (l\<lparr>extents := es\<rparr>) s"
proof -
  have "l\<lparr>extents := es, l_attrs := a\<rparr> = l\<lparr>extents := es\<rparr>"
    using assms(2) by (cases l) simp
  then show ?thesis
    using assms(1) by (simp add: stored_def put_idem)
qed

lemma CommitWrite_closed:
  assumes "omap_lookup (inodes s) i = Some a" and "a_type a = INODE_TYPE_FILE"
    and "omap_lookup (layouts s) i = Some l" and "l_attrs l = a"
    and "commit_loop (extents l) es = (es', valid)"
  shows "CommitWrite i base es now s =
    (if valid
     then (Ok (wrote (commit_size (a_size a) es) now a),
           stored i (wrote (commit_size (a_size a) es) now a) (l\<lparr>extents := es'\<rparr>) s)
     else (Err (MakeError InvalidArgument ''invalid committed extent''),
           stored i a (l\<lparr>extents := es'\<rparr>) s))"
proof -
  have "ValidateRegularFile s i = Inr ()"
    using assms(1,2) by (simp add: ValidateRegularFile_Inr itype_def)
  with assms show ?thesis
    by (cases valid)
      (simp_all add: CommitWrite_def Let_def commit_size_def wrote_def stored_def
        put_layout_stored [OF assms(1,4), unfolded stored_def])
qed

lemma AppendWrite_closed:
  assumes "omap_lookup (inodes s) i = Some a" and "a_type a = INODE_TYPE_FILE"
    and "omap_lookup (layouts s) i = Some l" and "l_attrs l = a"
    and "append_loop (a_size a) (extents l) 0 [] es = (es', n, committed, valid)"
  shows "AppendWrite i base es now s =
    (if valid
     then (Ok \<lparr>ar_attrs = wrote (a_size a + n) now a, append_start = a_size a,
             committed_extents = committed\<rparr>,
           stored i (wrote (a_size a + n) now a) (l\<lparr>extents := es'\<rparr>) s)
     else (Err (MakeError InvalidArgument ''invalid appended extent''),
           stored i a (l\<lparr>extents := es'\<rparr>) s))"
proof -
  have "ValidateRegularFile s i = Inr ()"
    using assms(1,2) by (simp add: ValidateRegularFile_Inr itype_def)
  with assms show ?thesis
    by (cases valid)
      (simp_all add: AppendWrite_def Let_def wrote_def stored_def
        put_layout_stored [OF assms(1,4), unfolded stored_def])
qed

lemma Truncate_closed:
  assumes "omap_lookup (inodes s) i = Some a" and "a_type a = INODE_TYPE_FILE"
    and "omap_lookup (layouts s) i = Some l" and "l_attrs l = a"
  shows "Truncate i sz now s =
    (Ok (wrote sz now a), stored i (wrote sz now a) (l\<lparr>extents := truncate_extents sz (extents l)\<rparr>) s)"
proof -
  have "ValidateRegularFile s i = Inr ()"
    using assms(1,2) by (simp add: ValidateRegularFile_Inr itype_def)
  with assms show ?thesis
    by (simp add: Truncate_def Let_def wrote_def stored_def)
qed

lemma wf_CommitWrite [wf_intros]:
  assumes "meta_wf s"
  shows "meta_wf (snd (CommitWrite i base es now s))"
proof (cases "ValidateRegularFile s i")
  case (Inr u)
  with assms obtain a l where f: "omap_lookup (inodes s) i = Some a" "a_type a = INODE_TYPE_FILE"
    "omap_lookup (layouts s) i = Some l" "l_attrs l = a"
    by (rule wf_fileE)
  obtain es' valid where "commit_loop (extents l) es = (es', valid)"
    by (cases "commit_loop (extents l) es")
  with CommitWrite_closed [OF f this] show ?thesis
    using wf_stored [OF assms f(1,2)] by simp
qed (use assms in \<open>simp add: CommitWrite_def\<close>)

lemma wf_AppendWrite [wf_intros]:
  assumes "meta_wf s"
  shows "meta_wf (snd (AppendWrite i base es now s))"
proof (cases "ValidateRegularFile s i")
  case (Inr u)
  with assms obtain a l where f: "omap_lookup (inodes s) i = Some a" "a_type a = INODE_TYPE_FILE"
    "omap_lookup (layouts s) i = Some l" "l_attrs l = a"
    by (rule wf_fileE)
  obtain es' n c valid where "append_loop (a_size a) (extents l) 0 [] es = (es', n, c, valid)"
    by (cases "append_loop (a_size a) (extents l) 0 [] es")
  with AppendWrite_closed [OF f this] show ?thesis
    using wf_stored [OF assms f(1,2)] by simp
qed (use assms in \<open>simp add: AppendWrite_def\<close>)

lemma wf_Truncate [wf_intros]:
  assumes "meta_wf s"
  shows "meta_wf (snd (Truncate i sz now s))"
proof (cases "ValidateRegularFile s i")
  case (Inr u)
  with assms obtain a l where f: "omap_lookup (inodes s) i = Some a" "a_type a = INODE_TYPE_FILE"
    "omap_lookup (layouts s) i = Some l" "l_attrs l = a"
    by (rule wf_fileE)
  with Truncate_closed [OF f] show ?thesis
    using wf_stored [OF assms f(1,2)] by simp
qed (use assms in \<open>simp add: Truncate_def\<close>)

section \<open>Renaming\<close>

text \<open>The state after the entry has moved and both parents have been updated.\<close>

definition relinked_inodes ::
  "u64 \<Rightarrow> u64 \<Rightarrow> InodeType \<Rightarrow> i64 \<Rightarrow> InodeAttrs \<Rightarrow> InodeAttrs \<Rightarrow> (u64, InodeAttrs) omap \<Rightarrow> (u64, InodeAttrs) omap" where
  "relinked_inodes p np ty now pa npa m =
     (if p = np then omap_put p (touched now pa) m
      else omap_put np (created_parent ty now npa) (omap_put p (removed_parent ty now pa) m))"

definition relinked ::
  "u64 \<Rightarrow> string \<Rightarrow> u64 \<Rightarrow> string \<Rightarrow> u64 \<Rightarrow> InodeType \<Rightarrow> i64 \<Rightarrow> InodeAttrs \<Rightarrow> InodeAttrs \<Rightarrow> MetaState \<Rightarrow> MetaState" where
  "relinked p name np nname m ty now pa npa s =
     s\<lparr>dentries := omap_put (np, nname) m (omap_erase (p, name) (dentries s)),
       inodes := relinked_inodes p np ty now pa npa (inodes s)\<rparr>"

lemma rename_parents_closed:
  assumes "omap_lookup (inodes s) p = Some pa" and "omap_lookup (inodes s) np = Some npa"
    and "omap_lookup (layouts s) p = None" and "omap_lookup (layouts s) np = None"
  shows "rename_parents p np ty now s =
    (Ok (), s\<lparr>inodes := relinked_inodes p np ty now pa npa (inodes s)\<rparr>)"
proof (cases "p = np")
  case True
  with assms show ?thesis
    by (simp add: rename_parents_def and_then_def TouchInode_store store_attrs_no_layout relinked_inodes_def)
next
  case False
  let ?s1 = "s\<lparr>inodes := omap_put p (touched now pa) (inodes s)\<rparr>"
  let ?s2 = "?s1\<lparr>inodes := omap_put np (touched now npa) (inodes ?s1)\<rparr>"
  have 1: "TouchInode p now s = (Ok (), ?s1)"
    using assms by (simp add: TouchInode_store store_attrs_no_layout)
  have 2: "TouchInode np now ?s1 = (Ok (), ?s2)"
    using assms False by (subst TouchInode_store [of _ _ npa]) (auto simp: store_attrs_no_layout)
  have 3: "omap_put np x (omap_put p y (omap_put np u (omap_put p v m))) = omap_put np x (omap_put p y m)"
    for x y u v :: InodeAttrs and m
    by (rule omap_eqI) simp
  show ?thesis
    using False assms
    by (auto simp: rename_parents_def and_then_def 1 2 adjust_nlink_def relinked_inodes_def
        removed_parent_def created_parent_def 3)
qed

lemma relinked_sel [simp]:
  "omap_lookup (inodes (relinked p name np nname m ty now pa npa s)) j =
     (if p = np then (if j = p then Some (touched now pa) else omap_lookup (inodes s) j)
      else if j = np then Some (created_parent ty now npa)
      else if j = p then Some (removed_parent ty now pa)
      else omap_lookup (inodes s) j)"
  "layouts (relinked p name np nname m ty now pa npa s) = layouts s"
  "next_inode_id (relinked p name np nname m ty now pa npa s) = next_inode_id s"
  "default_chunk_size (relinked p name np nname m ty now pa npa s) = default_chunk_size s"
  by (simp_all add: relinked_def relinked_inodes_def)

lemma rename_move_closed:
  assumes pa: "omap_lookup (inodes s) p = Some pa" "omap_lookup (inodes s) np = Some npa"
    and l: "omap_lookup (layouts s) p = None" "omap_lookup (layouts s) np = None"
    and m: "omap_lookup (inodes s) m = Some moved" "m \<noteq> p" "m \<noteq> np"
    and d: "den s (np, nname) = None"
  shows "rename_move p name np nname m ty now s =
    (let moved = moved\<lparr>ctime_ns := now, version := version moved + 1\<rparr>
     in (Ok moved, store_attrs m moved (relinked p name np nname m ty now pa npa s)))"
proof -
  have "omap_emplace (np, nname) m (omap_erase (p, name) (dentries s)) =
      omap_put (np, nname) m (omap_erase (p, name) (dentries s))"
    using d by (intro emplace_fresh) (simp add: den_def)
  moreover have "rename_parents p np ty now
      (s\<lparr>dentries := omap_put (np, nname) m (omap_erase (p, name) (dentries s))\<rparr>) =
      (Ok (), relinked p name np nname m ty now pa npa s)"
    using assms by (subst rename_parents_closed [of _ _ pa _ npa]) (simp_all add: relinked_def)
  moreover have "omap_lookup (inodes (relinked p name np nname m ty now pa npa s)) m = Some moved"
    using m by simp
  ultimately show ?thesis
    by (simp add: rename_move_def and_then_def rename_moved_def store_attrs_def Let_def)
qed

lemma relinked_abs:
  assumes "omap_lookup (inodes s) p = Some pa" and "omap_lookup (inodes s) np = Some npa"
  shows "itype (relinked p name np nname m ty now pa npa s) = itype s"
    and "den (relinked p name np nname m ty now pa npa s) =
      (den s)((p, name) := None, (np, nname) \<mapsto> m)"
  using assms by (auto simp: relinked_def itype_def den_def fun_eq_iff relinked_inodes_def)

lemma relinked_nlink:
  assumes pa: "omap_lookup (inodes s) p = Some pa" "omap_lookup (inodes s) np = Some npa"
    and d: "den s (p, name) = Some m" "den s (np, nname) = None"
    and m: "omap_lookup (inodes s) m = Some moved"
  shows "expected_nlink (relinked p name np nname m (a_type moved) now pa npa s) j ty =
    (if a_type moved = DIR \<and> ty = DIR \<and> p \<noteq> np \<and> j = p then expected_nlink s j ty - 1
     else if a_type moved = DIR \<and> ty = DIR \<and> p \<noteq> np \<and> j = np then expected_nlink s j ty + 1
     else expected_nlink s j ty)"
proof -
  let ?S = "subdirs (itype s) (den s) j"
  have mt: "itype s m = Some (a_type moved)"
    using m by (simp add: itype_def)
  have S': "subdirs (itype s) ((den s)((p, name) := None, (np, nname) \<mapsto> m)) j =
      (if j = np \<and> a_type moved = DIR then insert (np, nname) (?S - {(p, name)}) else ?S - {(p, name)})"
    using subdirs_move [OF d(2,1), of "itype s" j] mt by simp
  have inS: "(p, name) \<in> ?S \<longleftrightarrow> j = p \<and> a_type moved = DIR"
    using in_subdirs [of "den s" p name m "itype s" j] d(1) mt by simp
  have notS: "(np, nname) \<notin> ?S"
    using not_in_subdirs [of "den s" np nname] d(2) by simp
  have rem: "card ?S = Suc (card (?S - {(p, name)}))" if "j = p" "a_type moved = DIR"
    using inS that by (intro card.remove) simp_all
  have same: "?S - {(p, name)} = ?S" if "\<not> (j = p \<and> a_type moved = DIR)"
    using inS that by blast
  show ?thesis
    unfolding expected_nlink_def relinked_abs [OF pa] S'
    using rem same notS by (cases "a_type moved = DIR"; cases "j = p"; cases "j = np") auto
qed

lemma wf_relinked:
  assumes "meta_wf s" and pa: "omap_lookup (inodes s) p = Some pa" "omap_lookup (inodes s) np = Some npa"
    and dirs: "a_type pa = DIR" "a_type npa = DIR"
    and d: "den s (p, name) = Some m" "den s (np, nname) = None"
    and m: "omap_lookup (inodes s) m = Some moved" and na: "\<not> lies_above (den s) m np"
    and v: "ValidateName nname = Inr ()"
  shows "meta_wf (relinked p name np nname m (a_type moved) now pa npa s)" (is "meta_wf ?s")
proof (rule wfI)
  note abs = relinked_abs [OF pa, of name nname m "a_type moved" now]
    and nl = relinked_nlink [OF pa d m, of now]
  have np: "itype s np = Some DIR" and p: "itype s p = Some DIR"
    using pa dirs by (simp_all add: itype_def)
  show "ns_tree (itype ?s) (den ?s)"
    unfolding abs by (rule ns_tree_move [OF wf_tree [OF assms(1)] d(1) na np d(2)])
  show "ValidateName n = Inr ()" if "den ?s (q, n) = Some c" for q n c
    using that v wf_name [OF assms(1), of q n c] unfolding abs by (auto split: if_splits)
  show "inode_ok ?s j a" if "omap_lookup (inodes ?s) j = Some a" for j a
    using that pa dirs wf_inode [OF assms(1), of j] wf_inode [OF assms(1), of p]
      wf_inode [OF assms(1), of np]
    by (auto simp: inode_ok_def nl split: if_splits)
  show "layout_ok ?s j" for j
    using wf_layout [OF assms(1), of j] pa dirs wf_dir_layout [OF assms(1) p]
      wf_dir_layout [OF assms(1) np]
    by (auto simp: layout_ok_def split: option.splits if_splits)
  show "j < next_inode_id ?s" if "itype ?s j \<noteq> None" for j
    using that wf_fresh [OF assms(1), of j] unfolding abs by simp
qed

definition moved_attrs :: "i64 \<Rightarrow> InodeAttrs \<Rightarrow> InodeAttrs" where
  "moved_attrs now a = a\<lparr>ctime_ns := now, version := version a + 1\<rparr>"

lemma moved_attrs_sel [simp]:
  "a_type (moved_attrs now a) = a_type a" "inode_id (moved_attrs now a) = inode_id a"
  "nlink (moved_attrs now a) = nlink a" "a_size (moved_attrs now a) = a_size a"
  by (simp_all add: moved_attrs_def)

text \<open>
  The moving part of \<^verbatim>\<open>Rename\<close> on a well-formed state where the target entry is free.
  \<open>frame\<close> states that an inode and its layout are what they were.
\<close>

definition frame :: "MetaState \<Rightarrow> MetaState \<Rightarrow> u64 \<Rightarrow> bool" where
  "frame s s' j \<longleftrightarrow> omap_lookup (inodes s') j = omap_lookup (inodes s) j \<and>
     omap_lookup (layouts s') j = omap_lookup (layouts s) j"

lemma rename_move_wf:
  assumes "meta_wf s" and np: "itype s np = Some DIR"
    and d: "den s (p, name) = Some m" "den s (np, nname) = None"
    and m: "omap_lookup (inodes s) m = Some moved" and na: "\<not> lies_above (den s) m np"
    and v: "ValidateName nname = Inr ()"
  obtains s' where "rename_move p name np nname m (a_type moved) now s = (Ok (moved_attrs now moved), s')"
    "meta_wf s'" "itype s' = itype s" "den s' = (den s)((p, name) := None, (np, nname) \<mapsto> m)"
    "omap_lookup (inodes s') m = Some (moved_attrs now moved)"
    "map_option extents (omap_lookup (layouts s') m) = map_option extents (omap_lookup (layouts s) m)"
    "\<And>j. j \<noteq> p \<Longrightarrow> j \<noteq> np \<Longrightarrow> j \<noteq> m \<Longrightarrow> frame s s' j"
proof -
  from assms(1) d(1) obtain pa where pa: "omap_lookup (inodes s) p = Some pa" "a_type pa = DIR"
    "omap_lookup (layouts s) p = None" and mp: "m \<noteq> p"
    by (rule wf_den_inodes)
  obtain npa where npa: "omap_lookup (inodes s) np = Some npa" "a_type npa = DIR"
    using np by (auto simp: itype_Some)
  have l: "omap_lookup (layouts s) np = None"
    using wf_dir_layout [OF assms(1) np] .
  have mnp: "m \<noteq> np"
    using na by auto
  let ?r = "relinked p name np nname m (a_type moved) now pa npa s"
  let ?s = "store_attrs m (moved_attrs now moved) ?r"
  have wf: "meta_wf ?r"
    by (rule wf_relinked [OF assms(1) pa(1) npa(1) pa(2) npa(2) d m na v])
  have lm: "omap_lookup (inodes ?r) m = Some moved"
    using m mp mnp by simp
  note abs = store_attrs_abs [OF lm, of "moved_attrs now moved"]
    and rabs = relinked_abs [OF pa(1) npa(1), of name nname m "a_type moved" now]
  show thesis
  proof (rule that [of ?s])
    show "rename_move p name np nname m (a_type moved) now s = (Ok (moved_attrs now moved), ?s)"
      using rename_move_closed [OF pa(1) npa(1) pa(3) l m mp mnp d(2)]
      by (simp add: Let_def moved_attrs_def)
    show "meta_wf ?s"
      by (rule wf_store_attrs [OF wf lm]) simp_all
    show "itype ?s = itype s" and "den ?s = (den s)((p, name) := None, (np, nname) \<mapsto> m)"
      using abs rabs by simp_all
    show "omap_lookup (inodes ?s) m = Some (moved_attrs now moved)"
      by (simp add: store_attrs_def)
    show "map_option extents (omap_lookup (layouts ?s) m) = map_option extents (omap_lookup (layouts s) m)"
      by (simp add: store_attrs_def lookup_sync_layout option.map_comp comp_def)
    show "frame s ?s j" if "j \<noteq> p" "j \<noteq> np" "j \<noteq> m" for j
      using that by (simp add: frame_def store_attrs_def lookup_sync_layout)
  qed
qed

lemma rename_replace_wf:
  assumes "meta_wf s" and t: "den s (np, nname) = Some t"
  obtains (failed) e where "rename_replace np nname ty t now s = (Err e, s)"
  | (gone) s' target where "rename_replace np nname ty t now s = (Ok (), s')" "meta_wf s'"
      "itype s' = (itype s)(t := None)" "den s' = (den s)((np, nname) := None)"
      "\<And>n. den s (t, n) = None" "omap_lookup (inodes s) t = Some target"
      "ty = DIR \<longleftrightarrow> a_type target = DIR" "\<And>j. j \<noteq> np \<Longrightarrow> j \<noteq> t \<Longrightarrow> frame s s' j"
proof -
  from assms obtain target where i: "omap_lookup (inodes s) t = Some target"
    by (rule wf_den_inodes)
  show thesis
  proof (cases "(ty = DIR \<longleftrightarrow> a_type target = DIR) \<and> (a_type target = DIR \<longrightarrow> IsDirectoryEmpty s t)")
    case False
    with i show thesis
      by (cases "ty = DIR"; cases "a_type target = DIR")
        (auto intro!: failed simp: rename_replace_def)
  next
    case True
    have leaf: "den s (t, n) = None" for n
      using True ns_tree_leaf [OF wf_tree [OF assms(1)], of t n] i
      by (cases "a_type target = DIR") (auto simp: IsDirectoryEmpty_iff itype_def)
    from RemoveNode_wf [OF assms leaf i, where now = now] obtain parent s' where
      r: "s' = removed np nname t (removed_parent (a_type target) now parent) s"
        "RemoveNode np nname t now s = (Ok (), s')" "meta_wf s'"
        "itype s' = (itype s)(t := None)" "den s' = (den s)((np, nname) := None)"
      by metis
    then have "rename_replace np nname ty t now s = (Ok (), s')"
      using True i by (auto simp: rename_replace_def)
    moreover have "frame s s' j" if "j \<noteq> np" "j \<noteq> t" for j
      using that r(1) by (simp add: frame_def)
    ultimately show thesis
      using r leaf i True by (intro gone) auto
  qed
qed

text \<open>The check for a move below itself, for files and directories alike.\<close>

lemma rename_ancestor:
  assumes "meta_wf s" and m: "omap_lookup (inodes s) m = Some moved" and np: "itype s np = Some DIR"
  shows "(if a_type moved = DIR then IsAncestor s m np else Some False) = Some (lies_above (den s) m np)"
proof (cases "a_type moved = DIR")
  case True
  then show ?thesis
    by (simp add: IsAncestor_above [OF wf_tree [OF assms(1)]])
next
  case False
  then have "m \<noteq> np" and "den s (m, n) = None" for n
    using m np ns_tree_leaf [OF wf_tree [OF assms(1)], of m n] by (auto simp: itype_def)
  with False show ?thesis
    by (simp add: above_leaf)
qed

text \<open>The move after the entry at its goal was removed.\<close>

lemma rename_move_over:
  assumes "meta_wf s" and np: "itype s np = Some DIR" and vn: "ValidateName nname = Inr ()"
    and d: "den s (p, name) = Some m" and m: "omap_lookup (inodes s) m = Some moved"
    and na: "\<not> lies_above (den s) m np" and t: "den s (np, nname) = Some t" and tm: "t \<noteq> m"
    and leaf: "\<And>n. den s (t, n) = None" and wf1: "meta_wf s1" and ty1: "itype s1 = (itype s)(t := None)"
    and den1: "den s1 = (den s)((np, nname) := None)" and fr1: "\<And>j. j \<noteq> np \<Longrightarrow> j \<noteq> t \<Longrightarrow> frame s s1 j"
  obtains s' where "rename_move p name np nname m (a_type moved) now s1 = (Ok (moved_attrs now moved), s')"
    "meta_wf s'" "itype s' = itype s1" "den s' = (den s)((p, name) := None, (np, nname) \<mapsto> m)"
    "omap_lookup (inodes s') m = Some (moved_attrs now moved)"
    "map_option extents (omap_lookup (layouts s') m) = map_option extents (omap_lookup (layouts s) m)"
    "\<And>j. j \<noteq> p \<Longrightarrow> j \<noteq> np \<Longrightarrow> j \<noteq> m \<Longrightarrow> j \<noteq> t \<Longrightarrow> frame s s' j"
proof -
  have ne: "(p, name) \<noteq> (np, nname)"
    using tm t d by auto
  have npt: "np \<noteq> t"
    using ns_tree_no_cycle [OF wf_tree [OF assms(1)] t] by auto
  have 1: "itype s1 np = Some DIR" "den s1 (p, name) = Some m" "den s1 (np, nname) = None"
    using np npt d ty1 den1 ne by auto
  have na1: "\<not> lies_above (den s1) m np"
    using na above_mono [of "den s1" "den s" m np] den1 by (metis fun_upd_apply option.distinct(1))
  have mnp: "m \<noteq> np" "m \<noteq> t"
    using na tm by auto
  then have m1: "omap_lookup (inodes s1) m = Some moved"
    using fr1 [of m] m by (simp add: frame_def)
  from rename_move_wf [OF wf1 1 m1 na1 vn, where now = now] obtain s' where
    s': "rename_move p name np nname m (a_type moved) now s1 = (Ok (moved_attrs now moved), s')"
      "meta_wf s'" "itype s' = itype s1" "den s' = (den s1)((p, name) := None, (np, nname) \<mapsto> m)"
      "omap_lookup (inodes s') m = Some (moved_attrs now moved)"
      "map_option extents (omap_lookup (layouts s') m) = map_option extents (omap_lookup (layouts s1) m)"
      "\<And>j. j \<noteq> p \<Longrightarrow> j \<noteq> np \<Longrightarrow> j \<noteq> m \<Longrightarrow> frame s1 s' j"
    by metis
  moreover have "den s' = (den s)((p, name) := None, (np, nname) \<mapsto> m)"
    using s'(4) den1 by (auto simp: fun_eq_iff)
  moreover have "map_option extents (omap_lookup (layouts s') m) = map_option extents (omap_lookup (layouts s) m)"
    using s'(6) fr1 [of m] mnp by (simp add: frame_def)
  moreover have "frame s s' j" if "j \<noteq> p" "j \<noteq> np" "j \<noteq> m" "j \<noteq> t" for j
    using s'(7) [OF that(1,2,3)] fr1 [OF that(2,4)] by (simp add: frame_def)
  ultimately show thesis
    by (intro that)
qed

text \<open>
  \<^verbatim>\<open>Rename\<close> on a well-formed state: it fails and changes nothing, finds the entry where
  it should go, or moves the entry, removing the node it replaces.
\<close>

lemma Rename_cases:
  assumes "meta_wf s"
  obtains (failed) e where "Rename p name np nname now0 now s = (Err e, s)"
  | (same) moved where "(p, name) = (np, nname)" "Rename p name np nname now0 now s = (Ok moved, s)"
      "Lookup p name s = Ok moved"
  | (moved) m moved s' where "(p, name) \<noteq> (np, nname)" "den s (p, name) = Some m"
      "omap_lookup (inodes s) m = Some moved"
      "Rename p name np nname now0 now s = (Ok (moved_attrs now moved), s')" "meta_wf s'"
      "den s' = (den s)((p, name) := None, (np, nname) \<mapsto> m)"
      "itype s' = (case den s (np, nname) of None \<Rightarrow> itype s | Some t \<Rightarrow> (itype s)(t := None))"
      "omap_lookup (inodes s') m = Some (moved_attrs now moved)"
      "map_option extents (omap_lookup (layouts s') m) = map_option extents (omap_lookup (layouts s) m)"
      "\<And>j. j \<noteq> p \<Longrightarrow> j \<noteq> np \<Longrightarrow> j \<noteq> m \<Longrightarrow> den s (np, nname) \<noteq> Some j \<Longrightarrow> frame s s' j"
      "\<And>t n. den s (np, nname) = Some t \<Longrightarrow> t \<noteq> m \<and> den s (t, n) = None"
      "itype s np = Some DIR" "\<not> lies_above (den s) m np"
proof -
  note tree = wf_tree [OF assms]
  show thesis
  proof (cases "ValidateParent s p name"; cases "ValidateParent s np nname"; cases "den s (p, name)")
    fix u v m
    assume V: "ValidateParent s p name = Inr u" "ValidateParent s np nname = Inr v"
      and d: "den s (p, name) = Some m"
    have np: "itype s np = Some DIR" and vn: "ValidateName nname = Inr ()"
      using V(2) by (simp_all add: ValidateParent_Inr)
    from assms d obtain moved where m: "omap_lookup (inodes s) m = Some moved"
      by (rule wf_den_inodes)
    note anc = rename_ancestor [OF assms m np]
    show thesis
    proof (cases "lies_above (den s) m np")
      case True
      with V d m anc show thesis
        by (intro failed) (simp add: Rename_def den_def)
    next
      case na: False
      show thesis
      proof (cases "den s (np, nname)")
        case None
        from rename_move_wf [OF assms np d None m na vn, where now = now] obtain s' where
          s': "rename_move p name np nname m (a_type moved) now s = (Ok (moved_attrs now moved), s')"
            "meta_wf s'" "itype s' = itype s" "den s' = (den s)((p, name) := None, (np, nname) \<mapsto> m)"
            "omap_lookup (inodes s') m = Some (moved_attrs now moved)"
            "map_option extents (omap_lookup (layouts s') m) = map_option extents (omap_lookup (layouts s) m)"
            "\<And>j. j \<noteq> p \<Longrightarrow> j \<noteq> np \<Longrightarrow> j \<noteq> m \<Longrightarrow> frame s s' j"
          by metis
        have "Rename p name np nname now0 now s = (Ok (moved_attrs now moved), s')"
          using V d m anc na None s'(1) by (simp add: Rename_def den_def)
        with s' None d m np na show thesis
          by (intro moved [of m moved s']) auto
      next
        case t: (Some t)
        show thesis
        proof (cases "t = m")
          case True
          then have "(p, name) = (np, nname)"
            using ns_tree_unique [OF tree d] t by simp
          moreover have "Rename p name np nname now0 now s = (Ok moved, s)"
            using V d m anc na t True by (simp add: Rename_def den_def)
          moreover have "Lookup p name s = Ok moved"
            using V d m by (simp add: Lookup_def den_def return_inode_def)
          ultimately show thesis
            by (rule same)
        next
          case tm: False
          from assms t show thesis
          proof (cases rule: rename_replace_wf [where ty = "a_type moved" and now = now0])
            case (failed e)
            then have "Rename p name np nname now0 now s = (Err e, s)"
              using V d m anc na t tm by (simp add: Rename_def den_def and_then_def)
            then show thesis
              by (rule that(1))
          next
            case (gone s1 target)
            from rename_move_over [OF assms np vn d m na t tm gone(5,2,3,4,8), where now = now] obtain s' where
              s': "rename_move p name np nname m (a_type moved) now s1 = (Ok (moved_attrs now moved), s')"
                "meta_wf s'" "itype s' = itype s1" "den s' = (den s)((p, name) := None, (np, nname) \<mapsto> m)"
                "omap_lookup (inodes s') m = Some (moved_attrs now moved)"
                "map_option extents (omap_lookup (layouts s') m) = map_option extents (omap_lookup (layouts s) m)"
                "\<And>j. j \<noteq> p \<Longrightarrow> j \<noteq> np \<Longrightarrow> j \<noteq> m \<Longrightarrow> j \<noteq> t \<Longrightarrow> frame s s' j"
              by metis
            have "Rename p name np nname now0 now s = (Ok (moved_attrs now moved), s')"
              using V d m anc na t tm gone(1) s'(1) by (simp add: Rename_def den_def and_then_def)
            moreover have "(p, name) \<noteq> (np, nname)"
              using tm t d by auto
            ultimately show thesis
              using s' gone(3,5) t tm d m np na by (intro moved [of m moved s']) auto
          qed
        qed
      qed
    qed
  qed (auto intro!: failed simp: Rename_def den_def)
qed

lemma wf_Rename [wf_intros]: 
  assumes "meta_wf s"
  shows "meta_wf (snd (Rename p name np nname now0 now s))"
  using assms
  by (cases rule: Rename_cases [where p = p and name = name and np = np and nname = nname
    and ?now0.0 = now0 and now = now]) (use assms in auto)

end
