(* ===== verification/Meta_Data.thy ===== *)
theory Meta_Data
  imports Meta_Invariant
begin

text \<open>
  File contents.  \<open>file_content\<close> abstracts the layout of a file to the content of
  \<^verbatim>\<open>Extents\<close>; \<open>data_ok\<close> says that every layout is sorted and disjoint and ends within
  the size of its file.  The write operations are shown to refine overwriting, appending
  and cutting on the abstract content.  The server checks that an extent has a length and
  an object but not that its end fits in 64 bits; \<open>admissible\<close> adds the latter.
\<close>

section \<open>Requests\<close>

definition accepted :: "FileExtent \<Rightarrow> bool" where
  "accepted e \<longleftrightarrow> len e \<noteq> 0 \<and> object_key e \<noteq> []"

definition fits :: "u64 \<Rightarrow> FileExtent \<Rightarrow> bool" where
  "fits start e \<longleftrightarrow> unat start + unat (offset e) + unat (len e) < 2 ^ 64"

lemma fits_code [code]:
  "fits start e \<longleftrightarrow> start \<le> start + offset e \<and> start + offset e \<le> start + offset e + len e"
proof (cases "unat start + unat (offset e) < 2 ^ 64")
  case True
  then have "unat (start + offset e) = unat start + unat (offset e)"
    by (simp add: unat_word_ariths)
  then show ?thesis
    using no_wrap_iff_le [of start "offset e"] no_wrap_iff_le [of "start + offset e" "len e"] True
    by (simp add: fits_def)
next
  case False
  then show ?thesis
    using no_wrap_iff_le [of start "offset e"] by (simp add: fits_def)
qed

text \<open>The extents of a write, or of an append to a file that ends at \<open>start\<close>.\<close>

definition admissible :: "u64 \<Rightarrow> FileExtent list \<Rightarrow> bool" where
  "admissible start es \<longleftrightarrow> (\<forall>e\<in>set es. accepted e \<and> fits start e)"

definition shift_extent :: "u64 \<Rightarrow> FileExtent \<Rightarrow> FileExtent" where
  "shift_extent start e = e\<lparr>offset := start + offset e\<rparr>"

lemma shift_extent_sel [simp]:
  "offset (shift_extent start e) = start + offset e" "len (shift_extent start e) = len e"
  "object_key (shift_extent start e) = object_key e"
  "object_offset (shift_extent start e) = object_offset e"
  "ExtentEnd (shift_extent start e) = start + ExtentEnd e"
  by (simp_all add: shift_extent_def ExtentEnd_def)

lemma admissible_Cons [simp]:
  "admissible start (e # es) \<longleftrightarrow> accepted e \<and> fits start e \<and> admissible start es"
  by (auto simp: admissible_def)

lemma admissible_Nil [simp]: "admissible start []"
  by (simp add: admissible_def)

text \<open>Sums that fit are the sums of the naturals.\<close>

lemma fits_unat:
  assumes "fits start e"
  shows "unat (offset (shift_extent start e)) = unat start + unat (offset e)"
    and "unat (ExtentEnd e) = unat (offset e) + unat (len e)"
    and "unat (ExtentEnd (shift_extent start e)) = unat start + unat (offset e) + unat (len e)"
  using assms unfolding fits_def shift_extent_sel ExtentEnd_def
  by (simp_all add: unat_word_ariths)

lemma accepted_proper:
  assumes "accepted e" and "fits start e"
  shows "proper e" and "proper (shift_extent start e)"
proof -
  have "0 < unat (len e)"
    using assms(1) by (simp add: accepted_def unat_gt_0)
  then show "proper e" and "proper (shift_extent start e)"
    using fits_unat [OF assms(2)]
    by (simp_all add: proper_def word_less_nat_alt del: shift_extent_sel)
qed

section \<open>The loops\<close>

lemma commit_loop_valid:
  "snd (commit_loop old es) \<longleftrightarrow> (\<forall>e\<in>set es. accepted e)"
  by (induction es arbitrary: old) (auto simp: accepted_def)

lemma commit_loop_spec:
  assumes "laid_out old" and "admissible 0 es"
  shows "laid_out (fst (commit_loop old es)) \<and>
    content (fst (commit_loop old es)) = overwrite_all es (content old)"
  using assms
proof (induction es arbitrary: old)
  case (Cons e es)
  have "proper e"
    using Cons.prems accepted_proper(1) by auto
  then have "laid_out (MergeExtent old e)"
    "content (MergeExtent old e) = overwrite e (content old)"
    using Cons.prems(1) by (simp_all add: MergeExtent_laid_out MergeExtent_content)
  with Cons show ?case
    by (simp add: accepted_def)
qed simp

lemma commit_loop_laid_out:
  assumes "laid_out old" and "\<forall>e\<in>set es. fits 0 e"
  shows "laid_out (fst (commit_loop old es))"
  using assms
proof (induction es arbitrary: old)
  case (Cons e es)
  show ?case
  proof (cases "accepted e")
    case True
    then have "laid_out (MergeExtent old e)"
      using Cons.prems accepted_proper(1) [of e 0] by (auto intro: MergeExtent_laid_out)
    then have "laid_out (fst (commit_loop (MergeExtent old e) es))"
      using Cons.prems(2) by (intro Cons.IH) simp_all
    with True show ?thesis
      by (simp add: accepted_def)
  qed (use Cons.prems in \<open>auto simp: accepted_def\<close>)
qed simp

lemma commit_loop_below:
  assumes "laid_out old" and "admissible 0 es" and "below n old"
    and "\<forall>e\<in>set es. ExtentEnd e \<le> n"
  shows "below n (fst (commit_loop old es))"
  using assms
proof (induction es arbitrary: old)
  case (Cons e es)
  then have p: "proper e"
    using accepted_proper(1) by auto
  have "laid_out (MergeExtent old e)"
    using Cons.prems(1) p by (rule MergeExtent_laid_out)
  moreover have "below n (MergeExtent old e)"
    using Cons.prems p by (intro MergeExtent_below) (simp_all add: laid_out_def)
  ultimately have "below n (fst (commit_loop (MergeExtent old e) es))"
    using Cons.prems by (intro Cons.IH) simp_all
  with Cons.prems(2) show ?case
    by (simp add: accepted_def)
qed simp

lemma commit_loop_keys:
  "object_key ` set (fst (commit_loop old es)) \<subseteq> object_key ` set old \<union> object_key ` set es"
proof (induction es arbitrary: old)
  case (Cons e es)
  then show ?case
    using MergeExtent_keys [of old e] by (simp add: subset_iff) blast
qed simp

text \<open>Appending is writing the shifted extents, and reports them.\<close>

lemma append_loop_commit:
  assumes "append_loop start old n c es = (es', n', c', valid)"
  shows "(es', valid) = commit_loop old (map (shift_extent start) es) \<and>
    (valid \<longrightarrow> n' = fold (\<lambda>e m. max m (ExtentEnd e)) es n \<and> c' = c @ map (shift_extent start) es)"
  using assms
proof (induction es arbitrary: old n c)
  case (Cons e es)
  show ?case
  proof (cases "len e = 0 \<or> object_key e = []")
    case False
    with Cons.prems have "append_loop start (MergeExtent old (shift_extent start e))
        (max n (ExtentEnd e)) (c @ [shift_extent start e]) es = (es', n', c', valid)"
      by (simp add: shift_extent_def Let_def)
    from Cons.IH [OF this] False show ?thesis
      by auto
  qed (use Cons.prems in auto)
qed simp

lemma fold_max_start:
  fixes f :: "'a \<Rightarrow> 'b::linorder"
  shows "n \<le> fold (\<lambda>e m. max m (f e)) es n"
proof (induction es arbitrary: n)
  case (Cons e es)
  have "n \<le> max n (f e)"
    by simp
  also have "\<dots> \<le> fold (\<lambda>e m. max m (f e)) es (max n (f e))"
    by (rule Cons.IH)
  finally show ?case
    by simp
qed simp

lemma fold_max_ge:
  fixes f :: "'a \<Rightarrow> 'b::linorder"
  shows "e \<in> set es \<Longrightarrow> f e \<le> fold (\<lambda>e m. max m (f e)) es n"
proof (induction es arbitrary: n)
  case (Cons x es)
  have "f x \<le> fold (\<lambda>e m. max m (f e)) es (max n (f x))"
    using fold_max_start [of "max n (f x)" f es] by (rule order_trans [rotated]) simp
  with Cons show ?case
    by auto
qed simp

lemma fold_max_cases:
  fixes f :: "'a \<Rightarrow> 'b::linorder"
  shows "fold (\<lambda>e m. max m (f e)) es n = n \<or> (\<exists>e\<in>set es. fold (\<lambda>e m. max m (f e)) es n = f e)"
  by (induction es arbitrary: n) (auto simp: max_def)

lemma commit_size_fold: "commit_size sz es = fold (\<lambda>e m. max m (ExtentEnd e)) es sz"
  by (simp add: commit_size_def foldl_conv_fold)

lemma commit_size_start: "sz \<le> commit_size sz es"
  by (simp add: commit_size_fold fold_max_start)

lemma commit_size_ge: "e \<in> set es \<Longrightarrow> ExtentEnd e \<le> commit_size sz es"
  by (simp add: commit_size_fold fold_max_ge)

lemma commit_size_Max: "commit_size n es = Max (insert n (ExtentEnd ` set es))"
proof (rule Max_eqI [symmetric])
  show "commit_size n es \<in> insert n (ExtentEnd ` set es)"
    using fold_max_cases [of ExtentEnd es n] by (auto simp: commit_size_fold)
qed (auto simp: commit_size_start commit_size_ge)

section \<open>Contents of a state\<close>

definition file_content :: "MetaState \<Rightarrow> u64 \<Rightarrow> content" where
  "file_content s i =
     (case omap_lookup (layouts s) i of None \<Rightarrow> (\<lambda>_. None) | Some l \<Rightarrow> content (extents l))"

definition file_size :: "MetaState \<Rightarrow> u64 \<Rightarrow> u64" where
  "file_size s i = (case omap_lookup (inodes s) i of None \<Rightarrow> 0 | Some a \<Rightarrow> a_size a)"

definition data_ok :: "MetaState \<Rightarrow> bool" where
  "data_ok s \<longleftrightarrow> (\<forall>i l. omap_lookup (layouts s) i = Some l \<longrightarrow>
     laid_out (extents l) \<and> below (file_size s i) (extents l) \<and> [] \<notin> object_key ` set (extents l))"

text \<open>What one file of a well-formed state looks like.\<close>

definition file_view :: "MetaState \<Rightarrow> u64 \<Rightarrow> (u64 \<times> FileExtent list) option" where
  "file_view s i =
     map_option (\<lambda>l. (file_size s i, extents l)) (omap_lookup (layouts s) i)"

lemma data_ok_view:
  "data_ok s \<longleftrightarrow> (\<forall>i n es. file_view s i = Some (n, es) \<longrightarrow>
     laid_out es \<and> below n es \<and> [] \<notin> object_key ` set es)"
  by (auto simp: data_ok_def file_view_def)

lemma file_content_view:
  "file_content s i = (case file_view s i of None \<Rightarrow> (\<lambda>_. None) | Some (_, es) \<Rightarrow> content es)"
  by (simp add: file_content_def file_view_def split: option.splits)

lemma data_ok_same: "(\<And>i. file_view s' i = file_view s i \<or> file_view s' i = None) \<Longrightarrow> data_ok s \<Longrightarrow> data_ok s'"
  unfolding data_ok_view by (metis option.distinct(1))

lemma file_view_stored:
  "file_view (stored i a (l\<lparr>extents := es\<rparr>) s) j =
     (if j = i then Some (a_size a, es) else file_view s j)"
  by (simp add: file_view_def file_size_def)

lemma file_view_frame: "frame s s' j \<Longrightarrow> file_view s' j = file_view s j"
  by (simp add: frame_def file_view_def file_size_def)

lemma file_view_store_attrs:
  assumes "omap_lookup (inodes s) i = Some a" and "a_size a' = a_size a"
  shows "file_view (store_attrs i a' s) j = file_view s j"
  using assms
  by (simp add: file_view_def file_size_def store_attrs_def lookup_sync_layout option.map_comp comp_def)

text \<open>Operations that do not write data leave every remaining file's content alone.\<close>

lemma view_SetAttr: "file_view (snd (SetAttr c now s)) j = file_view s j"
  by (auto simp: SetAttr_store Let_def file_view_store_attrs split: option.splits)

lemma view_dir: "meta_wf s \<Longrightarrow> itype s p = Some DIR \<Longrightarrow> file_view s p = None"
  by (simp add: file_view_def wf_dir_layout)

lemma view_created:
  assumes "meta_wf s" and "omap_lookup (inodes s) p = Some parent" "a_type parent = DIR"
    and "a_size inode = 0"
  shows "file_view (created p name type (created_parent type now parent) inode s) j =
    (if j = next_inode_id s then (if type = INODE_TYPE_FILE then Some (0, []) else None)
     else file_view s j)"
proof -
  have "omap_lookup (layouts s) p = None"
    using wf_dir_layout [OF assms(1)] assms(2,3) by (simp add: itype_def)
  moreover have "omap_lookup (layouts s) (next_inode_id s) = None"
    using wf_layout [OF assms(1), of "next_inode_id s"] wf_no_wrap [OF assms(1)]
    by (simp add: layout_ok_def itype_None)
  ultimately show ?thesis
    using assms(4) by (simp add: file_view_def file_size_def)
qed

lemma data_CreateNode:
  assumes "meta_wf s" and "data_ok s"
  shows "data_ok (snd (CreateNode p name type mode uid gid now s))"
  using assms(1)
proof (cases rule: CreateNode_cases [where p = p and name = name and type = type and mode = mode
    and uid = uid and gid = gid and now = now])
  case (created parent inode)
  have "laid_out []" "below 0 []"
    by (simp_all add: laid_out_def below_def)
  then show ?thesis
    using assms(2) created view_created [OF assms(1) created(3,4), of inode name type now]
    by (auto simp: data_ok_view split: if_splits)
qed (use assms in simp)

lemma view_removed:
  assumes "meta_wf s" and "den s (p, name) = Some i"
    and "omap_lookup (inodes s) p = Some parent"
  shows "file_view (removed p name i (removed_parent ty now parent) s) j =
    (if j = i then None else file_view s j)"
  using view_dir [OF assms(1) ns_tree_parent [OF wf_tree [OF assms(1)] assms(2)]] assms(3)
  by (auto simp: file_view_def file_size_def)

lemma data_Unlink:
  assumes "meta_wf s" and "data_ok s"
  shows "data_ok (snd (Unlink p name now s))"
  using assms(1)
proof (cases rule: Unlink_cases [where p = p and name = name and now = now])
  case (gone i inode parent s')
  have "data_ok s'"
    unfolding gone(7)
    by (rule data_ok_same [OF _ assms(2)]) (simp add: view_removed [OF assms(1) gone(1,4)])
  with gone(5) show ?thesis
    by simp
qed (use assms in simp)

lemma data_Rmdir:
  assumes "meta_wf s" and "data_ok s"
  shows "data_ok (snd (Rmdir p name now s))"
  using assms(1)
proof (cases rule: Rmdir_cases [where p = p and name = name and now = now])
  case (gone i inode parent s')
  have "data_ok s'"
    unfolding gone(8)
    by (rule data_ok_same [OF _ assms(2)]) (simp add: view_removed [OF assms(1) gone(1,5)])
  with gone(6) show ?thesis
    by simp
qed (use assms in simp)

lemma view_Rename:
  assumes "meta_wf s"
  shows "file_view (snd (Rename p name np nname now0 now s)) j = file_view s j \<or>
    den s (np, nname) = Some j \<and> file_view (snd (Rename p name np nname now0 now s)) j = None"
  using assms
proof (cases rule: Rename_cases [where p = p and name = name and np = np and nname = nname
    and ?now0.0 = now0 and now = now])
  case (moved m mv s')
  consider "j = p \<or> j = np" | "j = m" | "den s (np, nname) = Some j"
    | "j \<noteq> p" "j \<noteq> np" "j \<noteq> m" "den s (np, nname) \<noteq> Some j"
    by blast
  then have "file_view s' j = file_view s j \<or> den s (np, nname) = Some j \<and> file_view s' j = None"
  proof cases
    case 1
    have "itype s j = Some DIR"
      using 1 moved(12) ns_tree_parent [OF wf_tree [OF assms] moved(2)] by auto
    moreover have "itype s' j = Some DIR"
      using calculation moved(7,11) moved(2) 1 moved(13)
        ns_tree_no_cycle [OF wf_tree [OF assms], of np nname j]
      by (auto split: option.splits)
    ultimately show ?thesis
      using view_dir [OF assms] view_dir [OF moved(5)] by simp
  next
    case 2
    then show ?thesis
      using moved(3,8,9) by (auto simp: file_view_def file_size_def map_option_case split: option.splits)
  next
    case 3
    then have "omap_lookup (inodes s') j = None"
      using moved(7) by (simp add: itype_None [symmetric])
    then have "omap_lookup (layouts s') j = None"
      using wf_layout [OF moved(5), of j] by (simp add: layout_ok_def)
    with 3 show ?thesis
      by (simp add: file_view_def)
  next
    case 4
    then show ?thesis
      using moved(10) by (simp add: file_view_frame)
  qed
  with moved(4) show ?thesis
    by simp
qed simp_all

lemma data_Rename:
  assumes "meta_wf s" and "data_ok s"
  shows "data_ok (snd (Rename p name np nname now0 now s))"
  by (rule data_ok_same [OF _ assms(2)]) (metis view_Rename [OF assms(1)])

section \<open>Write operations\<close>

text \<open>
  Each write operation changes the view of one file; what it makes of it is given by the
  loops, and the loops implement the operations on the abstract content.
\<close>

lemma CommitWrite_view:
  assumes "omap_lookup (inodes s) i = Some a" and "a_type a = INODE_TYPE_FILE"
    and "omap_lookup (layouts s) i = Some l" and "l_attrs l = a"
    and "\<forall>e\<in>set es. accepted e"
  obtains s' where "CommitWrite i base es now s = (Ok (wrote (commit_size (a_size a) es) now a), s')"
    "dentries s' = dentries s"
    "\<And>j. file_view s' j = (if j = i then Some (commit_size (a_size a) es, fst (commit_loop (extents l) es))
       else file_view s j)"
proof -
  obtain es' valid where c: "commit_loop (extents l) es = (es', valid)"
    by (cases "commit_loop (extents l) es")
  moreover have valid
    using commit_loop_valid [of "extents l" es] assms(5) c by simp
  ultimately show thesis
    using that [of "stored i (wrote (commit_size (a_size a) es) now a) (l\<lparr>extents := es'\<rparr>) s"]
      CommitWrite_closed [OF assms(1-4) c, of base now]
    by (simp add: file_view_stored)
qed

lemma data_ok_upd:
  assumes "data_ok s" and "\<And>j. file_view s' j = (if j = i then Some (n, es) else file_view s j)"
    and "laid_out es" and "below n es" and "[] \<notin> object_key ` set es"
  shows "data_ok s'"
  using assms unfolding data_ok_view by (metis option.inject prod.inject)

lemma data_okD:
  assumes "data_ok s" and "omap_lookup (layouts s) i = Some l" and "omap_lookup (inodes s) i = Some a"
  shows "laid_out (extents l)" "below (a_size a) (extents l)" "[] \<notin> object_key ` set (extents l)"
  using assms unfolding data_ok_def file_size_def by force+

lemma accepted_keys: "\<forall>e\<in>set es. accepted e \<Longrightarrow> [] \<notin> object_key ` set es"
  by (auto simp: accepted_def)

lemma below_mono: "below m es \<Longrightarrow> m \<le> n \<Longrightarrow> below n es"
  by (auto simp: below_def)

lemma data_CommitWrite:
  assumes "meta_wf s" and "data_ok s" and "admissible 0 es"
  shows "data_ok (snd (CommitWrite i base es now s))"
proof (cases "ValidateRegularFile s i")
  case (Inr u)
  with assms(1) obtain a l where f: "omap_lookup (inodes s) i = Some a" "a_type a = INODE_TYPE_FILE"
    "omap_lookup (layouts s) i = Some l" "l_attrs l = a"
    by (rule wf_fileE)
  have acc: "\<forall>e\<in>set es. accepted e"
    using assms(3) by (simp add: admissible_def)
  note ok = data_okD [OF assms(2) f(3,1)]
  let ?es = "fst (commit_loop (extents l) es)" and ?n = "commit_size (a_size a) es"
  have 1: "laid_out ?es"
    using commit_loop_spec [OF ok(1) assms(3)] by simp
  have 2: "below ?n ?es"
    using ok below_mono [OF ok(2) commit_size_start] commit_size_ge
    by (intro commit_loop_below [OF _ assms(3)]) auto
  have 3: "[] \<notin> object_key ` set ?es"
    using commit_loop_keys [of "extents l" es] ok(3) accepted_keys [OF acc] by blast
  from f acc show ?thesis
  proof (rule CommitWrite_view [where base = base and now = now])
    fix s'
    assume s': "CommitWrite i base es now s = (Ok (wrote ?n now a), s')"
      and v: "\<And>j. file_view s' j = (if j = i then Some (?n, ?es) else file_view s j)"
    have "data_ok s'"
      using assms(2) v 1 2 3 by (rule data_ok_upd)
    with s' show ?thesis
      by simp
  qed
qed (use assms(2) in \<open>simp add: CommitWrite_def\<close>)

text \<open>\<^verbatim>\<open>AppendWrite\<close>: the extents are written behind the end of the file.\<close>

definition append_length :: "FileExtent list \<Rightarrow> u64" where
  "append_length es = fold (\<lambda>e m. max m (ExtentEnd e)) es 0"

lemma append_length_attained:
  assumes "append_length es \<noteq> 0"
  shows "\<exists>e\<in>set es. append_length es = ExtentEnd e"
  using assms fold_max_cases [of ExtentEnd es 0] by (auto simp: append_length_def)

lemma append_end:
  assumes "admissible start es"
  shows "start \<le> start + append_length es"
    and "\<forall>e\<in>set es. ExtentEnd (shift_extent start e) \<le> start + append_length es"
proof -
  have b: "unat start + unat (append_length es) < 2 ^ 64"
  proof (cases "append_length es = 0")
    case False
    then obtain e where "e \<in> set es" "append_length es = ExtentEnd e"
      using append_length_attained by blast
    with assms show ?thesis
      using fits_unat(2) [of start e] by (auto simp: admissible_def fits_def)
  qed (use unsigned_less [of start] in simp)
  then have u: "unat (start + append_length es) = unat start + unat (append_length es)"
    by (simp add: unat_word_ariths)
  then show "start \<le> start + append_length es"
    by (simp add: word_le_nat_alt)
  show "\<forall>e\<in>set es. ExtentEnd (shift_extent start e) \<le> start + append_length es"
  proof
    fix e
    assume e: "e \<in> set es"
    then have "ExtentEnd e \<le> append_length es"
      by (simp add: append_length_def fold_max_ge)
    moreover have "fits start e"
      using assms e by (simp add: admissible_def)
    ultimately show "ExtentEnd (shift_extent start e) \<le> start + append_length es"
      using u fits_unat [of start e] by (simp add: word_le_nat_alt del: shift_extent_sel)
  qed
qed

lemma admissible_shift:
  assumes "admissible start es"
  shows "admissible 0 (map (shift_extent start) es)"
  using assms fits_unat(1) [of start]
  by (auto simp: admissible_def accepted_def fits_def simp del: shift_extent_sel(1,5))

lemma AppendWrite_view:
  assumes "omap_lookup (inodes s) i = Some a" and "a_type a = INODE_TYPE_FILE"
    and "omap_lookup (layouts s) i = Some l" and "l_attrs l = a"
    and "\<forall>e\<in>set es. accepted e"
  defines "new \<equiv> map (shift_extent (a_size a)) es"
  obtains s' where
    "AppendWrite i base es now s =
       (Ok \<lparr>ar_attrs = wrote (a_size a + append_length es) now a, append_start = a_size a,
          committed_extents = new\<rparr>, s')"
    "dentries s' = dentries s" "GetAttr i s' = Ok (wrote (a_size a + append_length es) now a)"
    "\<And>j. file_view s' j = (if j = i then Some (a_size a + append_length es, fst (commit_loop (extents l) new))
       else file_view s j)"
proof -
  obtain es' n c valid where c: "append_loop (a_size a) (extents l) 0 [] es = (es', n, c, valid)"
    by (cases "append_loop (a_size a) (extents l) 0 [] es")
  note loop = append_loop_commit [OF c, folded new_def]
  have "snd (commit_loop (extents l) new)"
    unfolding commit_loop_valid using assms(5) by (simp add: new_def accepted_def)
  moreover have "fst (commit_loop (extents l) new) = es'" and "snd (commit_loop (extents l) new) = valid"
    using conjunct1 [OF loop] by (simp_all flip: conjunct1 [OF loop])
  ultimately have r: valid "fst (commit_loop (extents l) new) = es'" "n = append_length es" "c = new"
    using loop by (simp_all add: append_length_def)
  show thesis
  proof (rule that)
    show "AppendWrite i base es now s =
       (Ok \<lparr>ar_attrs = wrote (a_size a + append_length es) now a, append_start = a_size a,
          committed_extents = new\<rparr>,
        stored i (wrote (a_size a + append_length es) now a) (l\<lparr>extents := es'\<rparr>) s)"
      using AppendWrite_closed [OF assms(1-4) c, of base now] r by simp
  qed (simp_all add: file_view_stored r GetAttr_def)
qed

lemma data_AppendWrite:
  assumes "meta_wf s" and "data_ok s" and "admissible (file_size s i) es"
  shows "data_ok (snd (AppendWrite i base es now s))"
proof (cases "ValidateRegularFile s i")
  case (Inr u)
  with assms(1) obtain a l where f: "omap_lookup (inodes s) i = Some a" "a_type a = INODE_TYPE_FILE"
    "omap_lookup (layouts s) i = Some l" "l_attrs l = a"
    by (rule wf_fileE)
  have adm: "admissible (a_size a) es"
    using assms(3) f by (simp add: file_size_def)
  then have acc: "\<forall>e\<in>set es. accepted e"
    by (simp add: admissible_def)
  note ok = data_okD [OF assms(2) f(3,1)]
  let ?new = "map (shift_extent (a_size a)) es"
  let ?es = "fst (commit_loop (extents l) ?new)" and ?n = "a_size a + append_length es"
  have 1: "laid_out ?es"
    using commit_loop_spec [OF ok(1) admissible_shift [OF adm]] by simp
  have 2: "below ?n ?es"
    using ok(1) below_mono [OF ok(2) append_end(1) [OF adm]] append_end(2) [OF adm]
    by (intro commit_loop_below [OF _ admissible_shift [OF adm]]) auto
  have 3: "[] \<notin> object_key ` set ?es"
    using commit_loop_keys [of "extents l" ?new] ok(3) accepted_keys [OF acc] by (simp add: image_image) blast
  from f acc show ?thesis
  proof (rule AppendWrite_view [where base = base and now = now])
    fix s'
    assume s': "AppendWrite i base es now s =
        (Ok \<lparr>ar_attrs = wrote ?n now a, append_start = a_size a, committed_extents = ?new\<rparr>, s')"
      and v: "\<And>j. file_view s' j = (if j = i then Some (?n, ?es) else file_view s j)"
    have "data_ok s'"
      using assms(2) v 1 2 3 by (rule data_ok_upd)
    with s' show ?thesis
      by simp
  qed
qed (use assms(2) in \<open>simp add: AppendWrite_def\<close>)

lemma Truncate_view:
  assumes "omap_lookup (inodes s) i = Some a" and "a_type a = INODE_TYPE_FILE"
    and "omap_lookup (layouts s) i = Some l" and "l_attrs l = a"
  obtains s' where "Truncate i sz now s = (Ok (wrote sz now a), s')"
    "dentries s' = dentries s"
    "\<And>j. file_view s' j = (if j = i then Some (sz, truncate_extents sz (extents l)) else file_view s j)"
proof (rule that)
  show "Truncate i sz now s =
      (Ok (wrote sz now a), stored i (wrote sz now a) (l\<lparr>extents := truncate_extents sz (extents l)\<rparr>) s)"
    by (rule Truncate_closed [OF assms])
qed (simp_all add: file_view_stored)

lemma data_Truncate:
  assumes "meta_wf s" and "data_ok s"
  shows "data_ok (snd (Truncate i sz now s))"
proof (cases "ValidateRegularFile s i")
  case (Inr u)
  with assms(1) obtain a l where f: "omap_lookup (inodes s) i = Some a" "a_type a = INODE_TYPE_FILE"
    "omap_lookup (layouts s) i = Some l" "l_attrs l = a"
    by (rule wf_fileE)
  note ok = data_okD [OF assms(2) f(3,1)]
  have 1: "laid_out (truncate_extents sz (extents l))"
    using ok(1) by (rule truncate_extents_laid_out)
  have 3: "[] \<notin> object_key ` set (truncate_extents sz (extents l))"
    using truncate_extents_keys [of sz "extents l"] ok(3) by blast
  from f show ?thesis
  proof (rule Truncate_view [where sz = sz and now = now])
    fix s'
    assume s': "Truncate i sz now s = (Ok (wrote sz now a), s')"
      and v: "\<And>j. file_view s' j =
        (if j = i then Some (sz, truncate_extents sz (extents l)) else file_view s j)"
    have "data_ok s'"
      using assms(2) v 1 truncate_extents_below 3 by (rule data_ok_upd)
    with s' show ?thesis
      by simp
  qed
qed (use assms(2) in \<open>simp add: Truncate_def\<close>)

text \<open>A regular file of a well-formed state, with what its view says.\<close>

lemma file_of:
  assumes "meta_wf s" and "data_ok s" and "itype s i = Some INODE_TYPE_FILE"
  obtains a l where "omap_lookup (inodes s) i = Some a" "a_type a = INODE_TYPE_FILE"
    "omap_lookup (layouts s) i = Some l" "l_attrs l = a" "laid_out (extents l)"
    "below (a_size a) (extents l)" "file_size s i = a_size a" "file_content s i = content (extents l)"
proof -
  obtain a l where f: "omap_lookup (inodes s) i = Some a" "a_type a = INODE_TYPE_FILE"
    "omap_lookup (layouts s) i = Some l" "l_attrs l = a"
    using assms(3) by (rule_tac wf_fileE [OF assms(1), of i]) (simp_all add: ValidateRegularFile_Inr)
  with data_okD [OF assms(2) f(3,1)] show thesis
    using that [of a l] by (simp add: file_size_def file_content_def)
qed

lemma file_view_SomeD:
  assumes "file_view s i = Some (n, es)"
  shows "file_size s i = n" and "file_content s i = content es"
  using assms by (auto simp: file_view_def file_content_def)

end
