(* ===== verification/Meta_Snapshot.thy ===== *)
theory Meta_Snapshot
  imports Meta_Data
begin

text \<open>
  \<^verbatim>\<open>SerializeSnapshot\<close> and \<^verbatim>\<open>RestoreSnapshot\<close> of \<^verbatim>\<open>src/meta_state.cc\<close>.  The wire format
  is generated code: \<open>serialize\<close> and \<open>parse\<close> stand for \<^verbatim>\<open>SerializeAsString\<close> and
  \<^verbatim>\<open>ParseFromString\<close> of \<^verbatim>\<open>MetaSnapshot\<close>, with \<open>None\<close> for a failed parse.  What the code
  relies on is that parsing what was serialized gives the message back.
\<close>

section \<open>Serialization\<close>

definition to_snapshot :: "MetaState \<Rightarrow> MetaSnapshot" where
  "to_snapshot s = \<lparr>sn_next_inode_id = next_inode_id s,
     sn_default_chunk_size = default_chunk_size s,
     sn_inodes = map snd (entries (inodes s)),
     sn_dentries = map (\<lambda>((p, n), c). \<lparr>sd_parent_inode_id = p, sd_name = n, sd_child_inode_id = c\<rparr>)
       (entries (dentries s)),
     sn_layouts = map (\<lambda>(i, l). \<lparr>sl_inode_id = i, sl_layout = l\<rparr>) (entries (layouts s))\<rparr>"

definition SerializeSnapshot :: "(MetaSnapshot \<Rightarrow> string) \<Rightarrow> MetaState \<Rightarrow> string" where
  "SerializeSnapshot serialize s = serialize (to_snapshot s)"

section \<open>Restoration\<close>

definition restore_inodes :: "InodeAttrs list \<Rightarrow> (u64, InodeAttrs) omap" where
  "restore_inodes as = fold (\<lambda>a. omap_emplace (inode_id a) a) as omap_empty"

fun restore_dentries ::
  "(u64, InodeAttrs) omap \<Rightarrow> SnapshotDentry list \<Rightarrow> (u64 \<times> string, u64) omap
     \<Rightarrow> (u64 \<times> string, u64) omap Result" where
  "restore_dentries inos [] m = Inr m"
| "restore_dentries inos (d # ds) m =
     (if omap_lookup inos (sd_parent_inode_id d) = None \<or> omap_lookup inos (sd_child_inode_id d) = None
      then Inl (MakeError InvalidArgument ''metadata snapshot has dangling dentry'')
      else restore_dentries inos ds
             (omap_emplace (sd_parent_inode_id d, sd_name d) (sd_child_inode_id d) m))"

fun restore_layouts ::
  "(u64, InodeAttrs) omap \<Rightarrow> SnapshotLayout list \<Rightarrow> (u64, FileLayout) omap \<Rightarrow> (u64, FileLayout) omap Result" where
  "restore_layouts inos [] m = Inr m"
| "restore_layouts inos (l # ls) m =
     (if omap_lookup inos (sl_inode_id l) = None
      then Inl (MakeError InvalidArgument ''metadata snapshot has dangling layout'')
      else restore_layouts inos ls (omap_emplace (sl_inode_id l) (sl_layout l) m))"

definition RestoreSnapshot ::
  "(string \<Rightarrow> MetaSnapshot option) \<Rightarrow> string \<Rightarrow> MetaState \<Rightarrow> unit Result \<times> MetaState" where
  "RestoreSnapshot parse data s =
     (case parse data of
        None \<Rightarrow> (Inl (MakeError InvalidArgument ''failed to parse metadata snapshot''), s)
      | Some snapshot \<Rightarrow>
          let inos = restore_inodes (sn_inodes snapshot) in
          if omap_lookup inos kRootInodeId = None
          then (Inl (MakeError InvalidArgument ''metadata snapshot has no root inode''), s)
          else
            (case restore_dentries inos (sn_dentries snapshot) omap_empty of
               Inl e \<Rightarrow> (Inl e, s)
             | Inr dens \<Rightarrow>
                 (case restore_layouts inos (sn_layouts snapshot) omap_empty of
                    Inl e \<Rightarrow> (Inl e, s)
                  | Inr lays \<Rightarrow>
                      (Inr (), s\<lparr>next_inode_id := sn_next_inode_id snapshot,
                         default_chunk_size := sn_default_chunk_size snapshot,
                         inodes := inos, dentries := dens, layouts := lays\<rparr>))))"

section \<open>Rebuilding the maps\<close>

text \<open>
  The keys of the inode map are the numbers stored in its inodes, so emplacing by that
  number rebuilds the map.
\<close>

lemma fold_emplace_ids:
  "\<forall>e\<in>set xs. inode_id (snd e) = fst e \<Longrightarrow>
     fold (\<lambda>a. omap_emplace (inode_id a) a) (map snd xs) n = fold (\<lambda>(k, v). omap_emplace k v) xs n"
  by (induction xs arbitrary: n) auto

lemma restore_inodes_entries:
  assumes "\<And>i a. omap_lookup m i = Some a \<Longrightarrow> inode_id a = i"
  shows "restore_inodes (map snd (entries m)) = m"
proof -
  have "\<forall>e\<in>set (entries m). inode_id (snd e) = fst e"
    using assms by (auto simp: in_entries_iff)
  from fold_emplace_ids [OF this] show ?thesis
    by (simp add: restore_inodes_def fold_emplace_entries)
qed

lemma restore_dentries_fold:
  assumes "\<forall>e\<in>set es. omap_lookup inos (fst (fst e)) \<noteq> None \<and> omap_lookup inos (snd e) \<noteq> None"
  shows "restore_dentries inos
      (map (\<lambda>((p, n), c). \<lparr>sd_parent_inode_id = p, sd_name = n, sd_child_inode_id = c\<rparr>) es) m =
    Inr (fold (\<lambda>(k, v). omap_emplace k v) es m)"
  using assms by (induction es arbitrary: m) auto

lemma restore_layouts_fold:
  assumes "\<forall>e\<in>set es. omap_lookup inos (fst e) \<noteq> None"
  shows "restore_layouts inos (map (\<lambda>(i, l). \<lparr>sl_inode_id = i, sl_layout = l\<rparr>) es) m =
    Inr (fold (\<lambda>(k, v). omap_emplace k v) es m)"
  using assms by (induction es arbitrary: m) auto

text \<open>Restoring what was serialized gives the state back, whatever state it replaces.\<close>

lemma restore_serialized:
  assumes "meta_wf s" and "parse (serialize (to_snapshot s)) = Some (to_snapshot s)"
  shows "RestoreSnapshot parse (SerializeSnapshot serialize s) s0 = (Inr (), s)"
proof -
  note tree = wf_tree [OF assms(1)]
  have inos: "restore_inodes (sn_inodes (to_snapshot s)) = inodes s"
    using wf_inode [OF assms(1)]
    by (simp add: to_snapshot_def restore_inodes_entries inode_ok_def)
  have root: "omap_lookup (inodes s) kRootInodeId \<noteq> None"
    using ns_tree_root [OF tree] by (auto simp: itype_def kRootInodeId_def)
  have "omap_lookup (inodes s) p \<noteq> None \<and> omap_lookup (inodes s) c \<noteq> None"
    if "((p, n), c) \<in> set (entries (dentries s))" for p n c
    using that ns_tree_parent [OF tree, of p n c] ns_tree_child [OF tree, of p n c]
    by (auto simp: in_entries_iff den_def itype_def)
  then have dens: "restore_dentries (inodes s) (sn_dentries (to_snapshot s)) omap_empty = Inr (dentries s)"
    unfolding to_snapshot_def MetaSnapshot.select_convs
    by (subst restore_dentries_fold) (force, simp add: fold_emplace_entries)
  have "omap_lookup (inodes s) i \<noteq> None" if "(i, l) \<in> set (entries (layouts s))" for i l
    using that wf_layoutD [OF assms(1), of i l] by (simp add: in_entries_iff)
  then have lays: "restore_layouts (inodes s) (sn_layouts (to_snapshot s)) omap_empty = Inr (layouts s)"
    unfolding to_snapshot_def MetaSnapshot.select_convs
    by (subst restore_layouts_fold) (force, simp add: fold_emplace_entries)
  show ?thesis
    using assms(2) root
    by (simp add: RestoreSnapshot_def SerializeSnapshot_def Let_def inos dens lays)
      (simp add: to_snapshot_def)
qed

section \<open>What an accepted snapshot guarantees\<close>

definition linked :: "(u64, InodeAttrs) omap \<Rightarrow> (u64 \<times> string, u64) omap \<Rightarrow> bool" where
  "linked inos m \<longleftrightarrow> (\<forall>p n c. omap_lookup m (p, n) = Some c \<longrightarrow>
     omap_lookup inos p \<noteq> None \<and> omap_lookup inos c \<noteq> None)"

lemma linked_emplace:
  "linked inos m \<Longrightarrow> omap_lookup inos p \<noteq> None \<Longrightarrow> omap_lookup inos c \<noteq> None \<Longrightarrow>
     linked inos (omap_emplace (p, n) c m)"
  unfolding linked_def by simp

lemma restore_dentries_closed:
  "restore_dentries inos ds m = Inr m' \<Longrightarrow> linked inos m \<Longrightarrow> linked inos m'"
proof (induction inos ds m rule: restore_dentries.induct)
  case (2 inos d ds m)
  then show ?case
    by (simp add: linked_emplace split: if_splits)
qed simp

lemma restore_layouts_closed:
  "restore_layouts inos ls m = Inr m' \<Longrightarrow>
     (\<And>i. omap_lookup m i \<noteq> None \<Longrightarrow> omap_lookup inos i \<noteq> None) \<Longrightarrow>
     omap_lookup m' i \<noteq> None \<Longrightarrow> omap_lookup inos i \<noteq> None"
proof (induction inos ls m rule: restore_layouts.induct)
  case (2 inos l ls m)
  from 2(2) have c: "omap_lookup inos (sl_inode_id l) \<noteq> None"
    "restore_layouts inos ls (omap_emplace (sl_inode_id l) (sl_layout l) m) = Inr m'"
    by (auto split: if_splits)
  show ?case
  proof (rule 2(1) [OF _ c(2) _ 2(4)])
    show "omap_lookup inos j \<noteq> None"
      if "omap_lookup (omap_emplace (sl_inode_id l) (sl_layout l) m) j \<noteq> None" for j
      using that c(1) 2(3) [of j] by (auto split: if_splits)
  qed (use c(1) in simp)
qed auto

text \<open>
  A restore that succeeds leaves a root and no dangling entry or layout; one that fails
  leaves the old state.
\<close>

definition no_dangling :: "MetaState \<Rightarrow> bool" where
  "no_dangling s \<longleftrightarrow> omap_lookup (inodes s) kRootInodeId \<noteq> None \<and>
     linked (inodes s) (dentries s) \<and>
     (\<forall>i. omap_lookup (layouts s) i \<noteq> None \<longrightarrow> omap_lookup (inodes s) i \<noteq> None)"

lemma restore_closed:
  "case RestoreSnapshot parse data s of (Inl e, s') \<Rightarrow> s' = s \<and> kind e = InvalidArgument
    | (Inr _, s') \<Rightarrow> no_dangling s'"
proof (cases "fst (RestoreSnapshot parse data s)")
  case (Inl e)
  have "kind e' = InvalidArgument" if "restore_dentries i ds m = Inl e'" for i ds m e'
    using that by (induction i ds m rule: restore_dentries.induct) (auto split: if_splits)
  moreover have "kind e' = InvalidArgument" if "restore_layouts i ls m = Inl e'" for i ls m e'
    using that by (induction i ls m rule: restore_layouts.induct) (auto split: if_splits)
  ultimately show ?thesis
    using Inl by (auto simp: RestoreSnapshot_def Let_def split: option.splits if_splits sum.splits)
next
  case (Inr u)
  then show ?thesis
    using restore_layouts_closed [where m = omap_empty]
    by (auto simp: RestoreSnapshot_def Let_def no_dangling_def linked_def
        split: option.splits if_splits sum.splits dest!: restore_dentries_closed)
qed

end
