(* ===== verification/Meta_Service.thy ===== *)
theory Meta_Service
  imports Meta_Snapshot
begin

text \<open>
  \<^verbatim>\<open>src/meta_service.h\<close> and \<^verbatim>\<open>src/meta_service.cc\<close>: the replicated state machine
  (\<^verbatim>\<open>Apply\<close>, the snapshot hooks) and the RPC handlers in front of it.  The Raft library
  and the generated message code are parameters: \<open>parse\<close> and \<open>serialize\<close> functions for
  the wire, and the record \<open>raft_api\<close> for the calls to \<^verbatim>\<open>Raftor\<close> on a world \<open>'w\<close> that
  contains the state machine.
\<close>

section \<open>Errors in responses\<close>

fun ErrorKindName :: "ErrorKind \<Rightarrow> string" where
  "ErrorKindName InvalidArgument = ''InvalidArgument''"
| "ErrorKindName (NotFound _) = ''NotFound''"
| "ErrorKindName (AlreadyExists _) = ''AlreadyExists''"
| "ErrorKindName (NotDirectory _) = ''NotDirectory''"
| "ErrorKindName (IsDirectory _) = ''IsDirectory''"
| "ErrorKindName (DirectoryNotEmpty _) = ''DirectoryNotEmpty''"
| "ErrorKindName (NotLeader _) = ''NotLeader''"
| "ErrorKindName Unavailable = ''Unavailable''"
| "ErrorKindName (Timeout _) = ''Timeout''"
| "ErrorKindName Internal = ''Internal''"
| "ErrorKindName RaftFailure = ''RaftFailure''"

text \<open>The kinds that have a member \<^verbatim>\<open>path\<close> give it, the others the empty string.\<close>

fun ErrorPath :: "ErrorKind \<Rightarrow> string" where
  "ErrorPath (NotFound p) = p"
| "ErrorPath (AlreadyExists p) = p"
| "ErrorPath (NotDirectory p) = p"
| "ErrorPath (IsDirectory p) = p"
| "ErrorPath (DirectoryNotEmpty p) = p"
| "ErrorPath _ = []"

definition ErrorFromResponse :: "ErrorResponse \<Rightarrow> Error" where
  "ErrorFromResponse r =
     (if er_kind r = ''InvalidArgument'' then MakeError InvalidArgument (er_message r)
      else if er_kind r = ''NotFound'' then MakeError (NotFound (er_path r)) (er_message r)
      else if er_kind r = ''AlreadyExists'' then MakeError (AlreadyExists (er_path r)) (er_message r)
      else if er_kind r = ''NotDirectory'' then MakeError (NotDirectory (er_path r)) (er_message r)
      else if er_kind r = ''IsDirectory'' then MakeError (IsDirectory (er_path r)) (er_message r)
      else if er_kind r = ''DirectoryNotEmpty''
        then MakeError (DirectoryNotEmpty (er_path r)) (er_message r)
      else MakeError Internal (er_message r))"

definition MakeErrorResponse :: "Error \<Rightarrow> RaftCommandResponse" where
  "MakeErrorResponse e = ErrorResponseOf
     \<lparr>er_kind = ErrorKindName (kind e), er_message = message e, er_path = ErrorPath (kind e)\<rparr>"

text \<open>The kinds the metadata state itself produces.\<close>

fun state_kind :: "ErrorKind \<Rightarrow> bool" where
  "state_kind InvalidArgument = True"
| "state_kind (NotFound _) = True"
| "state_kind (AlreadyExists _) = True"
| "state_kind (NotDirectory _) = True"
| "state_kind (IsDirectory _) = True"
| "state_kind (DirectoryNotEmpty _) = True"
| "state_kind _ = False"

lemma ErrorFromResponse_MakeErrorResponse:
  assumes "state_kind (kind e)" and "MakeErrorResponse e = ErrorResponseOf r"
  shows "ErrorFromResponse r = e"
  using assms
  by (cases e; cases "kind e") (auto simp: ErrorFromResponse_def MakeErrorResponse_def MakeError_def)

section \<open>Applying a command\<close>

text \<open>
  The clock of the replica that applies an entry: the reading of each call to \<^verbatim>\<open>NowNs\<close>
  during the application.  \<^verbatim>\<open>Rename\<close> reads it once in \<^verbatim>\<open>RemoveNode\<close> and once itself.
\<close>

type_synonym clock = "nat \<Rightarrow> i64"

definition respond :: "InodeAttrs outcome \<times> MetaState \<Rightarrow> RaftCommandResponse outcome \<times> MetaState" where
  "respond r = (case r of
     (Ok a, s) \<Rightarrow> (Ok (AttrsResponse a), s)
   | (Err e, s) \<Rightarrow> (Ok (MakeErrorResponse e), s)
   | (OutOfRange, s) \<Rightarrow> (OutOfRange, s)
   | (NoReturn, s) \<Rightarrow> (NoReturn, s))"

definition respond_append ::
  "AppendWriteStateResult outcome \<times> MetaState \<Rightarrow> RaftCommandResponse outcome \<times> MetaState" where
  "respond_append r = (case r of
     (Ok a, s) \<Rightarrow> (Ok (AppendWriteResponse \<lparr>aw_attrs = ar_attrs a, aw_append_start = append_start a,
        aw_committed_extents = committed_extents a\<rparr>), s)
   | (Err e, s) \<Rightarrow> (Ok (MakeErrorResponse e), s)
   | (OutOfRange, s) \<Rightarrow> (OutOfRange, s)
   | (NoReturn, s) \<Rightarrow> (NoReturn, s))"

fun apply_command :: "RaftCommand \<Rightarrow> clock \<Rightarrow> MetaState \<Rightarrow> RaftCommandResponse outcome \<times> MetaState" where
  "apply_command (MkdirCommand p name mode uid gid) clk s = respond (Mkdir p name mode uid gid (clk 0) s)"
| "apply_command (CreateFileCommand p name mode uid gid) clk s =
     respond (CreateFile p name mode uid gid (clk 0) s)"
| "apply_command (SetAttrCommandOf c) clk s = respond (SetAttr c (clk 0) s)"
| "apply_command (CommitWriteCommand i base es) clk s = respond (CommitWrite i base es (clk 0) s)"
| "apply_command (AppendWriteCommand i base es) clk s = respond_append (AppendWrite i base es (clk 0) s)"
| "apply_command (TruncateCommand i sz) clk s = respond (Truncate i sz (clk 0) s)"
| "apply_command (UnlinkCommand p name) clk s = respond (Unlink p name (clk 0) s)"
| "apply_command (RmdirCommand p name) clk s = respond (Rmdir p name (clk 0) s)"
| "apply_command (RenameCommand p name np nname) clk s =
     respond (Rename p name np nname (clk 0) (clk 1) s)"
| "apply_command COMMAND_NOT_SET clk s =
     (Ok (MakeErrorResponse (MakeError InvalidArgument ''unknown raft command'')), s)"

text \<open>
  \<^verbatim>\<open>Apply\<close> on the bytes of a log entry.  An empty entry is acknowledged with an empty
  response; one that does not parse is dropped.
\<close>

datatype ApplyResult = Applied string | ProposalDropped | ApplyThrew | ApplyHung

definition Apply ::
  "(string \<Rightarrow> RaftCommand option) \<Rightarrow> (RaftCommandResponse \<Rightarrow> string) \<Rightarrow> string \<Rightarrow> clock
     \<Rightarrow> MetaState \<Rightarrow> ApplyResult \<times> MetaState" where
  "Apply parse serialize data clk s =
     (if data = [] then (Applied [], s)
      else case parse data of
             None \<Rightarrow> (ProposalDropped, s)
           | Some command \<Rightarrow>
               (case apply_command command clk s of
                  (Ok response, s) \<Rightarrow> (Applied (serialize response), s)
                | (Err e, s) \<Rightarrow> (Applied (serialize (MakeErrorResponse e)), s)
                | (OutOfRange, s) \<Rightarrow> (ApplyThrew, s)
                | (NoReturn, s) \<Rightarrow> (ApplyHung, s)))"

section \<open>Preservation\<close>

lemma snd_respond [simp]: "snd (respond r) = snd r"
  by (auto simp: respond_def split: prod.splits outcome.splits)

lemma snd_respond_append [simp]: "snd (respond_append r) = snd r"
  by (auto simp: respond_append_def split: prod.splits outcome.splits)

text \<open>The number of the next inode has room.\<close>

definition has_room :: "MetaState \<Rightarrow> bool" where
  "has_room s \<longleftrightarrow> next_inode_id s \<noteq> -1"

lemma wf_apply_command:
  assumes "meta_wf s" and "has_room s"
  shows "meta_wf (snd (apply_command c clk s))"
  using assms
  by (cases c) (simp_all add: wf_intros wf_CreateNode has_room_def Mkdir_def CreateFile_def)

text \<open>The data of a write command fits the file it is for.\<close>

fun admissible_command :: "RaftCommand \<Rightarrow> MetaState \<Rightarrow> bool" where
  "admissible_command (CommitWriteCommand i base es) s = admissible 0 es"
| "admissible_command (AppendWriteCommand i base es) s = admissible (file_size s i) es"
| "admissible_command _ s = True"

lemma data_SetAttr: "data_ok s \<Longrightarrow> data_ok (snd (SetAttr c now s))"
  by (rule data_ok_same) (simp_all add: view_SetAttr)

lemma data_apply_command:
  assumes "meta_wf s" and "data_ok s" and "admissible_command c s"
  shows "data_ok (snd (apply_command c clk s))"
  using assms
  by (cases c)
    (simp_all add: data_CreateNode data_SetAttr data_CommitWrite data_AppendWrite data_Truncate
      data_Unlink data_Rmdir data_Rename Mkdir_def CreateFile_def)

end
