(* ===== verification/Meta_Machine.thy ===== *)
theory Meta_Machine
  imports Meta_Service
begin

text \<open>
  The metadata service as a replicated state machine.  The locale \<open>state_machine\<close> is the
  interface the log relies on, a step function with an invariant; \<open>replica_machine\<close> adds
  that what a step does to a view of the state does not depend on the local clock.  Both
  are interpreted on \<^const>\<open>apply_command\<close>: every state a log leads to is well formed and
  no command throws or hangs there, and replicas that apply the same log agree on
  everything but the time stamps.
\<close>

section \<open>The interface\<close>

text \<open>A log is a list of commands, each with the clock of the replica that applies it.\<close>

fun run_log :: "('c \<Rightarrow> 't \<Rightarrow> 's \<Rightarrow> 'r \<times> 's) \<Rightarrow> ('c \<times> 't) list \<Rightarrow> 's \<Rightarrow> 's" where
  "run_log step [] s = s"
| "run_log step ((c, t) # log) s = run_log step log (snd (step c t s))"

fun responses :: "('c \<Rightarrow> 't \<Rightarrow> 's \<Rightarrow> 'r \<times> 's) \<Rightarrow> ('c \<times> 't) list \<Rightarrow> 's \<Rightarrow> 'r list" where
  "responses step [] s = []"
| "responses step ((c, t) # log) s = fst (step c t s) # responses step log (snd (step c t s))"

text \<open>A condition on commands and states that holds whenever a command of the log is applied.\<close>

fun along :: "('c \<Rightarrow> 't \<Rightarrow> 's \<Rightarrow> 'r \<times> 's) \<Rightarrow> ('c \<Rightarrow> 's \<Rightarrow> bool) \<Rightarrow> ('c \<times> 't) list \<Rightarrow> 's \<Rightarrow> bool" where
  "along step pre [] s = True"
| "along step pre ((c, t) # log) s = (pre c s \<and> along step pre log (snd (step c t s)))"

locale state_machine =
  fixes step :: "'c \<Rightarrow> 't \<Rightarrow> 's \<Rightarrow> 'r \<times> 's"
    and inv :: "'s \<Rightarrow> bool"
    and pre :: "'c \<Rightarrow> 's \<Rightarrow> bool"
  assumes step_inv: "inv s \<Longrightarrow> pre c s \<Longrightarrow> inv (snd (step c t s))"
begin

lemma run_inv: "inv s \<Longrightarrow> along step pre log s \<Longrightarrow> inv (run_log step log s)"
proof (induction log arbitrary: s)
  case (Cons e log)
  then show ?case
    by (cases e) (simp add: step_inv)
qed simp

lemma run_append: "run_log step (log1 @ log2) s = run_log step log2 (run_log step log1 s)"
proof (induction log1 arbitrary: s)
  case (Cons e log1)
  then show ?case
    by (cases e) simp
qed simp

lemma responses_ok:
  assumes "\<And>c t s. inv s \<Longrightarrow> pre c s \<Longrightarrow> P (fst (step c t s))"
  shows "inv s \<Longrightarrow> along step pre log s \<Longrightarrow> \<forall>r\<in>set (responses step log s). P r"
proof (induction log arbitrary: s)
  case (Cons e log)
  obtain c t where e: "e = (c, t)"
    by (cases e)
  with Cons.prems have p: "pre c s" "along step pre log (snd (step c t s))"
    by simp_all
  from Cons.IH [OF step_inv [OF Cons.prems(1) p(1)] p(2)] assms [OF Cons.prems(1) p(1)] show ?case
    unfolding e by (metis responses.simps(2) set_ConsD)
qed simp

end

locale replica_machine = state_machine step inv pre
  for step :: "'c \<Rightarrow> 't \<Rightarrow> 's \<Rightarrow> 'r \<times> 's" and inv pre +
  fixes sview :: "'s \<Rightarrow> 'v"
    and rview :: "'r \<Rightarrow> 'w"
  assumes step_view: "sview s = sview s' \<Longrightarrow>
      rview (fst (step c t s)) = rview (fst (step c t' s')) \<and>
      sview (snd (step c t s)) = sview (snd (step c t' s'))"
begin

text \<open>Two runs of the same commands agree on the view, whatever the clocks say.\<close>

lemma replicas_agree:
  assumes "map fst log = map fst log'" and "sview s = sview s'"
  shows "sview (run_log step log s) = sview (run_log step log' s') \<and>
    map rview (responses step log s) = map rview (responses step log' s')"
  using assms
proof (induction log arbitrary: log' s s')
  case (Cons e log)
  then obtain t' log'' where l: "log' = (fst e, t') # log''" "map fst log = map fst log''"
    by (cases log') auto
  note v = step_view [OF Cons.prems(2), of "fst e" "snd e" t']
  from Cons.IH [OF l(2) conjunct2 [OF v]] v show ?case
    unfolding l(1) by (cases e) simp
qed simp

end

section \<open>Errors of the operations\<close>

lemma ValidateName_kind: "ValidateName n = Inl e \<Longrightarrow> kind e = InvalidArgument"
  by (auto simp: ValidateName_def split: if_splits)

lemma ValidateParent_kind: "ValidateParent s p n = Inl e \<Longrightarrow> state_kind (kind e)"
  by (auto simp: ValidateParent_def dest!: ValidateName_kind split: sum.splits option.splits if_splits)

lemma ValidateRegularFile_kind: "ValidateRegularFile s i = Inl e \<Longrightarrow> state_kind (kind e)"
  by (auto simp: ValidateRegularFile_def split: option.splits if_splits)

definition no_err :: "'a outcome \<times> MetaState \<Rightarrow> bool" where
  "no_err r \<longleftrightarrow> (\<forall>e. fst r \<noteq> Err e)"

lemma no_err_and_then: "no_err r \<Longrightarrow> (\<And>s. no_err (f s)) \<Longrightarrow> no_err (and_then r f)"
  by (auto simp: no_err_def and_then_def split: prod.splits outcome.splits)

lemma no_err_TouchInode: "no_err (TouchInode i now s)"
  by (auto simp: no_err_def TouchInode_def Let_def split: option.splits)

lemma no_err_RemoveNode: "no_err (RemoveNode p n i now s)"
  by (auto simp: no_err_def RemoveNode_def TouchInode_def Let_def
      split: option.splits prod.splits outcome.splits)

lemma no_err_adjust_nlink: "no_err (adjust_nlink f i s)"
  by (auto simp: no_err_def adjust_nlink_def split: option.splits)

lemma no_err_rename_moved: "no_err (rename_moved m now s)"
  by (auto simp: no_err_def rename_moved_def Let_def split: option.splits)

lemma no_err_Ok: "no_err (Ok x, s)"
  by (simp add: no_err_def)

lemma no_err_rename_move: "no_err (rename_move p n np nn m ty now s)"
  unfolding rename_move_def rename_parents_def
  by (intro no_err_and_then no_err_TouchInode no_err_rename_moved)
    (auto intro!: no_err_and_then no_err_TouchInode no_err_adjust_nlink no_err_Ok)

lemma rename_replace_kind: "fst (rename_replace np nn ty t now s) = Err e \<Longrightarrow> state_kind (kind e)"
  using no_err_RemoveNode [of np nn t now s]
  by (auto simp: rename_replace_def no_err_def split: option.splits if_splits)

lemma CreateNode_kind: "fst (CreateNode p n ty m u g now s) = Err e \<Longrightarrow> state_kind (kind e)"
  by (auto simp: CreateNode_def Let_def dest: ValidateParent_kind split: sum.splits option.splits if_splits)

lemma SetAttr_kind: "fst (SetAttr c now s) = Err e \<Longrightarrow> state_kind (kind e)"
  by (auto simp: SetAttr_def Let_def split: option.splits)

lemma Unlink_kind: "fst (Unlink p n now s) = Err e \<Longrightarrow> state_kind (kind e)"
  by (auto simp: Unlink_def return_inode_def dest: ValidateParent_kind
      split: sum.splits option.splits if_splits prod.splits outcome.splits)

lemma Rmdir_kind: "fst (Rmdir p n now s) = Err e \<Longrightarrow> state_kind (kind e)"
  by (auto simp: Rmdir_def return_inode_def dest: ValidateParent_kind
      split: sum.splits option.splits if_splits prod.splits outcome.splits)

lemma CommitWrite_kind: "fst (CommitWrite i b es now s) = Err e \<Longrightarrow> state_kind (kind e)"
  by (auto simp: CommitWrite_def Let_def dest: ValidateRegularFile_kind
      split: sum.splits option.splits if_splits prod.splits)

lemma AppendWrite_kind: "fst (AppendWrite i b es now s) = Err e \<Longrightarrow> state_kind (kind e)"
  by (auto simp: AppendWrite_def Let_def dest: ValidateRegularFile_kind
      split: sum.splits option.splits if_splits prod.splits)

lemma Truncate_kind: "fst (Truncate i sz now s) = Err e \<Longrightarrow> state_kind (kind e)"
  by (auto simp: Truncate_def Let_def dest: ValidateRegularFile_kind split: sum.splits option.splits)

lemma Rename_kind:
  assumes "fst (Rename p n np nn now0 now s) = Err e"
  shows "state_kind (kind e)"
proof -
  have m: "fst (rename_move p n np nn m ty now s') \<noteq> Err e" for m ty s'
    using no_err_rename_move [of p n np nn m ty now s'] by (simp add: no_err_def)
  have "state_kind (kind e)"
    if "fst (and_then (rename_replace np nn ty t now0 s) (rename_move p n np nn m ty now)) = Err e" for ty t m
    using that rename_replace_kind [of np nn ty t now0 s e] m
    by (auto simp: and_then_def split: prod.splits outcome.splits)
  with assms m show ?thesis
    by (auto simp: Rename_def dest: ValidateParent_kind
        split: sum.splits option.splits if_splits bool.splits)
qed

section \<open>No exception, no endless walk\<close>

text \<open>
  On a well-formed state every operation returns: a value, or an error of a kind the
  metadata state produces.
\<close>

definition returns :: "'a outcome \<Rightarrow> bool" where
  "returns r \<longleftrightarrow> (case r of Ok _ \<Rightarrow> True | Err e \<Rightarrow> state_kind (kind e) | _ \<Rightarrow> False)"

lemma returnsI_Ok: "r = Ok a \<Longrightarrow> returns r"
  by (simp add: returns_def)

lemma returnsI_Err: "r = Err e \<Longrightarrow> state_kind (kind e) \<Longrightarrow> returns r"
  by (simp add: returns_def)

lemma returns_CreateNode:
  assumes "meta_wf s"
  shows "returns (fst (CreateNode p name type mode uid gid now s))"
  using assms
proof (cases rule: CreateNode_cases [where p = p and name = name and type = type and mode = mode
    and uid = uid and gid = gid and now = now])
  case (failed e)
  then show ?thesis
    using CreateNode_kind [of p name type mode uid gid now s e] by (simp add: returns_def)
qed (simp add: returns_def)

lemma returns_Unlink:
  assumes "meta_wf s"
  shows "returns (fst (Unlink p name now s))"
  using assms
proof (cases rule: Unlink_cases [where p = p and name = name and now = now])
  case (failed e)
  then show ?thesis
    using Unlink_kind [of p name now s e] by (simp add: returns_def)
qed (simp add: returns_def)

lemma returns_Rmdir:
  assumes "meta_wf s"
  shows "returns (fst (Rmdir p name now s))"
  using assms
proof (cases rule: Rmdir_cases [where p = p and name = name and now = now])
  case (failed e)
  then show ?thesis
    using Rmdir_kind [of p name now s e] by (simp add: returns_def)
qed (simp add: returns_def)

lemma returns_Rename:
  assumes "meta_wf s"
  shows "returns (fst (Rename p name np nname now0 now s))"
  using assms
proof (cases rule: Rename_cases [where p = p and name = name and np = np and nname = nname
    and ?now0.0 = now0 and now = now])
  case (failed e)
  then show ?thesis
    using Rename_kind [of p name np nname now0 now s e] by (simp add: returns_def)
qed (simp_all add: returns_def)

lemma returns_SetAttr: "returns (fst (SetAttr c now s))"
  by (auto simp: SetAttr_def Let_def returns_def split: option.splits)

lemma returns_CommitWrite:
  assumes "meta_wf s"
  shows "returns (fst (CommitWrite i base es now s))"
proof (cases "ValidateRegularFile s i")
  case (Inl e)
  then show ?thesis
    using ValidateRegularFile_kind [OF Inl] by (simp add: CommitWrite_def returns_def)
next
  case (Inr u)
  with assms obtain a l where f: "omap_lookup (inodes s) i = Some a" "a_type a = INODE_TYPE_FILE"
    "omap_lookup (layouts s) i = Some l" "l_attrs l = a"
    by (rule wf_fileE)
  obtain es' valid where "commit_loop (extents l) es = (es', valid)"
    by (cases "commit_loop (extents l) es")
  from CommitWrite_closed [OF f this] show ?thesis
    by (simp add: returns_def)
qed

lemma returns_AppendWrite:
  assumes "meta_wf s"
  shows "returns (fst (AppendWrite i base es now s))"
proof (cases "ValidateRegularFile s i")
  case (Inl e)
  then show ?thesis
    using ValidateRegularFile_kind [OF Inl] by (simp add: AppendWrite_def returns_def)
next
  case (Inr u)
  with assms obtain a l where f: "omap_lookup (inodes s) i = Some a" "a_type a = INODE_TYPE_FILE"
    "omap_lookup (layouts s) i = Some l" "l_attrs l = a"
    by (rule wf_fileE)
  obtain es' n c valid where "append_loop (a_size a) (extents l) 0 [] es = (es', n, c, valid)"
    by (cases "append_loop (a_size a) (extents l) 0 [] es")
  from AppendWrite_closed [OF f this] show ?thesis
    by (simp add: returns_def)
qed

lemma returns_Truncate:
  assumes "meta_wf s"
  shows "returns (fst (Truncate i sz now s))"
proof (cases "ValidateRegularFile s i")
  case (Inl e)
  then show ?thesis
    using ValidateRegularFile_kind [OF Inl] by (simp add: Truncate_def returns_def)
next
  case (Inr u)
  with assms obtain a l where f: "omap_lookup (inodes s) i = Some a" "a_type a = INODE_TYPE_FILE"
    "omap_lookup (layouts s) i = Some l" "l_attrs l = a"
    by (rule wf_fileE)
  from Truncate_closed [OF f] show ?thesis
    by (simp add: returns_def)
qed

lemma respond_returns: "returns (fst r) \<Longrightarrow> \<exists>a. fst (respond r) = Ok a"
  by (auto simp: respond_def returns_def split: prod.splits outcome.splits)

lemma respond_append_returns: "returns (fst r) \<Longrightarrow> \<exists>a. fst (respond_append r) = Ok a"
  by (auto simp: respond_append_def returns_def split: prod.splits outcome.splits)

lemma apply_command_returns:
  assumes "meta_wf s"
  shows "\<exists>r. fst (apply_command c clk s) = Ok r"
  by (cases c)
    (simp_all add: respond_returns respond_append_returns returns_CreateNode returns_Unlink
      returns_Rmdir returns_Rename returns_SetAttr returns_CommitWrite returns_AppendWrite
      returns_Truncate Mkdir_def CreateFile_def assms)

section \<open>The invariant of the machine\<close>

definition machine_ok :: "MetaState \<Rightarrow> bool" where
  "machine_ok s \<longleftrightarrow> meta_wf s \<and> data_ok s"

text \<open>A command is in order when its data fits and an inode number is left.\<close>

definition in_order :: "RaftCommand \<Rightarrow> MetaState \<Rightarrow> bool" where
  "in_order c s \<longleftrightarrow> has_room s \<and> admissible_command c s"

interpretation meta_ns: state_machine apply_command meta_wf "\<lambda>c. has_room"
  by unfold_locales (rule wf_apply_command)

lemma machine_step:
  "machine_ok s \<Longrightarrow> in_order c s \<Longrightarrow> machine_ok (snd (apply_command c clk s))"
  by (simp add: machine_ok_def in_order_def wf_apply_command data_apply_command)

lemma init_lookups [simp]:
  "omap_lookup (inodes (MetaState_init chunk now)) i =
     (if i = kRootInodeId then Some (root_attrs now) else None)"
  "omap_lookup (dentries (MetaState_init chunk now)) k = None"
  "omap_lookup (layouts (MetaState_init chunk now)) i = None"
  "next_inode_id (MetaState_init chunk now) = 2"
  by (simp_all add: MetaState_init_def kRootInodeId_def)

lemma wf_init: "meta_wf (MetaState_init chunk now)"
proof (rule wfI)
  let ?s = "MetaState_init chunk now"
  have d: "den ?s = (\<lambda>_. None)" and t: "itype ?s = (\<lambda>_. None)(1 \<mapsto> DIR)"
    by (auto simp: den_def itype_def kRootInodeId_def root_attrs_def fun_eq_iff)
  show "ns_tree (itype ?s) (den ?s)"
    unfolding d t by (rule ns_treeI [of _ _ "\<lambda>_. 0"]) (auto simp: ranked_def edges_def split: if_splits)
  show "ValidateName n = Inr ()" if "den ?s (p, n) = Some c" for p n c
    using that by (simp add: d)
  show "inode_ok ?s i a" if "omap_lookup (inodes ?s) i = Some a" for i a
    using that by (auto simp: inode_ok_def root_attrs_def expected_nlink_def d subdirs_def split: if_splits)
  show "layout_ok ?s i" for i
    by (auto simp: layout_ok_def root_attrs_def)
  show "i < next_inode_id ?s" if "itype ?s i \<noteq> None" for i
    using that by (auto simp: t split: if_splits)
qed

lemma machine_ok_init: "machine_ok (MetaState_init chunk now)"
  by (simp add: machine_ok_def wf_init data_ok_def)

interpretation machine: state_machine apply_command machine_ok in_order
  by unfold_locales (rule machine_step)

end
