(* ===== verification/Meta_Replica.thy ===== *)
theory Meta_Replica
  imports Meta_Machine
begin

text \<open>
  Replicas read their own wall clock while they apply the log, so their states differ in
  the time stamps.  \<open>sview\<close> is a state without them.  Every operation maps states with
  equal views to states with equal views and to responses that differ in time stamps
  only: \<^const>\<open>apply_command\<close> is an instance of \<open>replica_machine\<close>.
\<close>

section \<open>States without time stamps\<close>

definition strip :: "InodeAttrs \<Rightarrow> InodeAttrs" where
  "strip a = a\<lparr>atime_ns := 0, mtime_ns := 0, ctime_ns := 0\<rparr>"

definition strip_layout :: "FileLayout \<Rightarrow> FileLayout" where
  "strip_layout l = l\<lparr>l_attrs := strip (l_attrs l)\<rparr>"

type_synonym state_view = "u64 \<times> u64 \<times> (u64 \<times> string, u64) omap \<times>
  (u64 \<Rightarrow> InodeAttrs option) \<times> (u64 \<Rightarrow> FileLayout option)"

definition sview :: "MetaState \<Rightarrow> state_view" where
  "sview s = (next_inode_id s, default_chunk_size s, dentries s,
     \<lambda>i. map_option strip (omap_lookup (inodes s) i),
     \<lambda>i. map_option strip_layout (omap_lookup (layouts s) i))"

fun strip_response :: "RaftCommandResponse \<Rightarrow> RaftCommandResponse" where
  "strip_response (AttrsResponse a) = AttrsResponse (strip a)"
| "strip_response (AppendWriteResponse r) = AppendWriteResponse (r\<lparr>aw_attrs := strip (aw_attrs r)\<rparr>)"
| "strip_response (ErrorResponseOf e) = ErrorResponseOf e"
| "strip_response r = r"

fun view_outcome :: "('a \<Rightarrow> 'b) \<Rightarrow> 'a outcome \<Rightarrow> 'b outcome" where
  "view_outcome f (Ok a) = Ok (f a)"
| "view_outcome f (Err e) = Err e"
| "view_outcome f OutOfRange = OutOfRange"
| "view_outcome f NoReturn = NoReturn"

text \<open>Two results of an operation agree: equal views of the outcome and of the state.\<close>

definition agree :: "('a \<Rightarrow> 'b) \<Rightarrow> 'a outcome \<times> MetaState \<Rightarrow> 'a outcome \<times> MetaState \<Rightarrow> bool" where
  "agree f r r' \<longleftrightarrow> view_outcome f (fst r) = view_outcome f (fst r') \<and> sview (snd r) = sview (snd r')"

lemma strip_eq_iff:
  "strip a = strip b \<longleftrightarrow> inode_id a = inode_id b \<and> a_type a = a_type b \<and> a_mode a = a_mode b \<and>
     a_uid a = a_uid b \<and> a_gid a = a_gid b \<and> a_size a = a_size b \<and> nlink a = nlink b \<and>
     version a = version b \<and> a_chunk_size a = a_chunk_size b"
  by (cases a; cases b) (auto simp: strip_def)

lemma strip_layout_eq_iff:
  "strip_layout l = strip_layout m \<longleftrightarrow> strip (l_attrs l) = strip (l_attrs m) \<and>
     l_chunk_size l = l_chunk_size m \<and> extents l = extents m"
  by (cases l; cases m) (auto simp: strip_layout_def)

lemma sview_eq_iff:
  "sview s = sview s' \<longleftrightarrow> next_inode_id s = next_inode_id s' \<and>
     default_chunk_size s = default_chunk_size s' \<and> dentries s = dentries s' \<and>
     (\<forall>i. map_option strip (omap_lookup (inodes s) i) = map_option strip (omap_lookup (inodes s') i)) \<and>
     (\<forall>i. map_option strip_layout (omap_lookup (layouts s) i) =
        map_option strip_layout (omap_lookup (layouts s') i))"
  by (auto simp: sview_def fun_eq_iff)

lemma sview_inode:
  assumes "sview s = sview s'"
  obtains "omap_lookup (inodes s) i = None" "omap_lookup (inodes s') i = None"
  | a b where "omap_lookup (inodes s) i = Some a" "omap_lookup (inodes s') i = Some b" "strip a = strip b"
proof -
  have "map_option strip (omap_lookup (inodes s) i) = map_option strip (omap_lookup (inodes s') i)"
    using assms by (simp add: sview_eq_iff)
  then show thesis
    using that by (cases "omap_lookup (inodes s) i"; cases "omap_lookup (inodes s') i") simp_all
qed

lemma sview_layout:
  assumes "sview s = sview s'"
  obtains "omap_lookup (layouts s) i = None" "omap_lookup (layouts s') i = None"
  | l m where "omap_lookup (layouts s) i = Some l" "omap_lookup (layouts s') i = Some m"
      "strip_layout l = strip_layout m"
proof -
  have "map_option strip_layout (omap_lookup (layouts s) i) = map_option strip_layout (omap_lookup (layouts s') i)"
    using assms by (simp add: sview_eq_iff)
  then show thesis
    using that by (cases "omap_lookup (layouts s) i"; cases "omap_lookup (layouts s') i") simp_all
qed

lemma sview_dentries: "sview s = sview s' \<Longrightarrow> dentries s = dentries s'"
  by (simp add: sview_eq_iff)

lemma sview_put_inode:
  "sview s = sview s' \<Longrightarrow> strip a = strip b \<Longrightarrow>
     sview (s\<lparr>inodes := omap_put i a (inodes s)\<rparr>) = sview (s'\<lparr>inodes := omap_put i b (inodes s')\<rparr>)"
  by (simp add: sview_eq_iff)

lemma sview_put_layout:
  "sview s = sview s' \<Longrightarrow> strip_layout l = strip_layout m \<Longrightarrow>
     sview (s\<lparr>layouts := omap_put i l (layouts s)\<rparr>) = sview (s'\<lparr>layouts := omap_put i m (layouts s')\<rparr>)"
  by (simp add: sview_eq_iff)

lemma sview_sync:
  assumes "sview s = sview s'" and "strip a = strip b"
  shows "sview (sync_layout i a s) = sview (sync_layout i b s')"
  using assms(1)
proof (rule sview_layout [where i = i])
  fix l m
  assume "omap_lookup (layouts s) i = Some l" "omap_lookup (layouts s') i = Some m"
    and "strip_layout l = strip_layout m"
  with assms show ?thesis
    by (simp add: sync_layout_def sview_put_layout strip_layout_eq_iff)
qed (use assms in \<open>simp add: sync_layout_def\<close>)

section \<open>The operations\<close>

lemma agree_and_then:
  assumes "agree id r r'" and "\<And>s s'. sview s = sview s' \<Longrightarrow> agree f (g s) (g' s')"
  shows "agree f (and_then r g) (and_then r' g')"
  using assms
  by (cases r; cases r'; cases "fst r"; cases "fst r'") (auto simp: and_then_def agree_def)

lemma agree_Ok: "sview s = sview s' \<Longrightarrow> f a = f b \<Longrightarrow> agree f (Ok a, s) (Ok b, s')"
  by (simp add: agree_def)

lemma agree_Err: "sview s = sview s' \<Longrightarrow> agree f (Err e, s) (Err e, s')"
  by (simp add: agree_def)

lemma agree_OutOfRange: "sview s = sview s' \<Longrightarrow> agree f (OutOfRange, s) (OutOfRange, s')"
  by (simp add: agree_def)

lemma agree_NoReturn: "sview s = sview s' \<Longrightarrow> agree f (NoReturn, s) (NoReturn, s')"
  by (simp add: agree_def)

lemmas agree_intros = agree_Ok agree_Err agree_OutOfRange agree_NoReturn

lemma agree_TouchInode:
  assumes "sview s = sview s'"
  shows "agree id (TouchInode i now s) (TouchInode i now' s')"
  using assms
proof (rule sview_inode [where i = i])
  fix a b
  assume "omap_lookup (inodes s) i = Some a" "omap_lookup (inodes s') i = Some b" "strip a = strip b"
  with assms show ?thesis
    by (simp add: TouchInode_def Let_def agree_def sview_sync sview_put_inode strip_eq_iff)
qed (use assms in \<open>simp add: TouchInode_def agree_def\<close>)

lemma agree_adjust_nlink:
  assumes "sview s = sview s'"
  shows "agree id (adjust_nlink f i s) (adjust_nlink f i s')"
  using assms
proof (rule sview_inode [where i = i])
  fix a b
  assume "omap_lookup (inodes s) i = Some a" "omap_lookup (inodes s') i = Some b" "strip a = strip b"
  with assms show ?thesis
    by (simp add: adjust_nlink_def agree_def sview_put_inode strip_eq_iff)
qed (use assms in \<open>simp add: adjust_nlink_def agree_def\<close>)

lemma agree_return_inode:
  assumes "sview s = sview s'"
  shows "agree strip (return_inode i s) (return_inode i s')"
  using assms by (rule sview_inode [where i = i]) (use assms in \<open>simp_all add: return_inode_def agree_def\<close>)

text \<open>\<^verbatim>\<open>RemoveNode\<close> is a touch of the parent followed by a change of its link count.\<close>

lemma RemoveNode_and_then:
  "RemoveNode p name i now s =
     (case omap_lookup (inodes s) i of
        None \<Rightarrow> (OutOfRange, s)
      | Some inode \<Rightarrow>
          and_then (TouchInode p now
              (s\<lparr>dentries := omap_erase (p, name) (dentries s), layouts := omap_erase i (layouts s),
                 inodes := omap_erase i (inodes s)\<rparr>))
            (\<lambda>s. if a_type inode = DIR then adjust_nlink (\<lambda>n. n - 1) p s else (Ok (), s)))"
  by (auto simp: RemoveNode_def and_then_def adjust_nlink_def TouchInode_def Let_def
      split: option.splits prod.splits outcome.splits)

lemma agree_RemoveNode:
  assumes "sview s = sview s'"
  shows "agree id (RemoveNode p name i now s) (RemoveNode p name i now' s')"
  using assms
proof (rule sview_inode [where i = i])
  fix a b
  assume "omap_lookup (inodes s) i = Some a" "omap_lookup (inodes s') i = Some b" "strip a = strip b"
  moreover have "sview (s\<lparr>dentries := omap_erase (p, name) (dentries s),
        layouts := omap_erase i (layouts s), inodes := omap_erase i (inodes s)\<rparr>) =
      sview (s'\<lparr>dentries := omap_erase (p, name) (dentries s'),
        layouts := omap_erase i (layouts s'), inodes := omap_erase i (inodes s')\<rparr>)"
    using assms by (simp add: sview_eq_iff)
  ultimately show ?thesis
    by (simp add: RemoveNode_and_then strip_eq_iff agree_Ok
        agree_and_then [OF agree_TouchInode] agree_adjust_nlink)
qed (use assms in \<open>simp add: RemoveNode_def agree_def\<close>)

text \<open>The checks see nothing but the view.\<close>

lemma sview_ValidateParent:
  assumes "sview s = sview s'"
  shows "ValidateParent s p name = ValidateParent s' p name"
  using assms
  by (rule sview_inode [where i = p]) (simp_all add: ValidateParent_def strip_eq_iff split: sum.split)

lemma sview_ValidateRegularFile:
  assumes "sview s = sview s'"
  shows "ValidateRegularFile s i = ValidateRegularFile s' i"
  using assms
  by (rule sview_inode [where i = i]) (simp_all add: ValidateRegularFile_def strip_eq_iff)

lemma sview_IsDirectoryEmpty:
  "sview s = sview s' \<Longrightarrow> IsDirectoryEmpty s i = IsDirectoryEmpty s' i"
  by (simp add: IsDirectoryEmpty_def sview_eq_iff)

lemma sview_ParentOf: "sview s = sview s' \<Longrightarrow> ParentOf s i = ParentOf s' i"
  by (simp add: ParentOf_def sview_eq_iff)

lemma IsAncestor_transfer:
  assumes "sview s = sview s'"
  shows "IsAncestor s a x = Some r \<Longrightarrow> IsAncestor s' a x = Some r"
proof -
  have "sview t = sview s' \<longrightarrow> IsAncestor s' a x = Some r" if "IsAncestor t a x = Some r" for t
  proof (rule IsAncestor.raw_induct
      [where P = "\<lambda>t a x r. sview t = sview s' \<longrightarrow> IsAncestor s' a x = Some r", OF _ that])
    fix walk t a x r
    assume IH: "\<And>t a x r. walk t a x = Some r \<Longrightarrow>
        sview t = sview s' \<longrightarrow> IsAncestor s' a x = Some r"
      and step: "(if x = kRootInodeId then Some (a = kRootInodeId) else if x = a then Some True
        else if ParentOf t x = x then Some False else walk t a (ParentOf t x)) = Some r"
    show "sview t = sview s' \<longrightarrow> IsAncestor s' a x = Some r"
    proof
      assume v: "sview t = sview s'"
      show "IsAncestor s' a x = Some r"
        using step IH [of t a "ParentOf t x" r] v
        by (subst IsAncestor.simps) (auto simp: sview_ParentOf [OF v] split: if_splits)
    qed
  qed
  with assms show "IsAncestor s a x = Some r \<Longrightarrow> IsAncestor s' a x = Some r"
    by blast
qed

lemma sview_IsAncestor:
  assumes "sview s = sview s'"
  shows "IsAncestor s a x = IsAncestor s' a x"
  using IsAncestor_transfer [OF assms, of a x] IsAncestor_transfer [OF assms [symmetric], of a x]
  by (cases "IsAncestor s a x"; cases "IsAncestor s' a x") auto

lemmas sview_checks = sview_ValidateParent sview_ValidateRegularFile sview_IsDirectoryEmpty
  sview_IsAncestor

lemma agree_CreateNode:
  assumes v: "sview s = sview s'"
  shows "agree strip (CreateNode p name type mode uid gid now s) (CreateNode p name type mode uid gid now' s')"
proof (cases "ValidateParent s p name")
  case Inl
  with v show ?thesis
    by (simp add: CreateNode_def sview_checks [OF v] agree_Err)
next
  case (Inr u)
  have e: "next_inode_id s = next_inode_id s'" "default_chunk_size s = default_chunk_size s'"
    "dentries s = dentries s'"
    using v by (simp_all add: sview_eq_iff)
  obtain a b where ab: "omap_lookup (inodes s) p = Some a" "omap_lookup (inodes s') p = Some b"
    "strip a = strip b"
    using Inr by (rule_tac sview_inode [OF v, of p]) (auto simp: ValidateParent_Inr itype_def)
  show ?thesis
  proof (cases "omap_lookup (dentries s') (p, name)")
    case None
    let ?i = "next_inode_id s'"
    let ?new = "\<lambda>now. new_attrs ?i type mode uid gid now (default_chunk_size s')"
    have pa: "strip (created_parent type now a) = strip (created_parent type now' b)"
      using ab(3) by (simp add: strip_eq_iff created_parent_def touched_def)
    have new: "strip (?new now) = strip (?new now')"
      by (simp add: strip_eq_iff new_attrs_def)
    have ino: "map_option strip (omap_lookup (omap_emplace ?i (?new now)
            (omap_put p (created_parent type now a) (inodes s))) j) =
          map_option strip (omap_lookup (omap_emplace ?i (?new now')
            (omap_put p (created_parent type now' b) (inodes s'))) j)" for j
      using v pa new by (rule_tac sview_inode [OF v, of j]) (auto simp: sview_eq_iff)
    have lay: "map_option strip_layout (omap_lookup (omap_emplace ?i
            \<lparr>l_attrs = ?new now, l_chunk_size = default_chunk_size s', extents = []\<rparr> (layouts s)) j) =
          map_option strip_layout (omap_lookup (omap_emplace ?i
            \<lparr>l_attrs = ?new now', l_chunk_size = default_chunk_size s', extents = []\<rparr> (layouts s')) j)" for j
      using new by (rule_tac sview_layout [OF v, of j]) (auto simp: strip_layout_eq_iff)
    have "agree strip
        (Ok (?new now), s\<lparr>next_inode_id := ?i + 1,
          inodes := omap_emplace ?i (?new now) (omap_put p (created_parent type now a) (inodes s)),
          dentries := omap_emplace (p, name) ?i (dentries s'),
          layouts := (if type = INODE_TYPE_FILE then omap_emplace ?i
              \<lparr>l_attrs = ?new now, l_chunk_size = default_chunk_size s', extents = []\<rparr> (layouts s)
            else layouts s)\<rparr>)
        (Ok (?new now'), s'\<lparr>next_inode_id := ?i + 1,
          inodes := omap_emplace ?i (?new now') (omap_put p (created_parent type now' b) (inodes s')),
          dentries := omap_emplace (p, name) ?i (dentries s'),
          layouts := (if type = INODE_TYPE_FILE then omap_emplace ?i
              \<lparr>l_attrs = ?new now', l_chunk_size = default_chunk_size s', extents = []\<rparr> (layouts s')
            else layouts s')\<rparr>)"
      using v new ino lay by (intro agree_Ok) (auto simp: sview_eq_iff simp del: lookup_emplace)
    note result = this
    have closed: "CreateNode p name type mode uid gid now t =
        (Ok (new_attrs (next_inode_id t) type mode uid gid now (default_chunk_size t)),
         t\<lparr>next_inode_id := next_inode_id t + 1,
           inodes := omap_emplace (next_inode_id t)
             (new_attrs (next_inode_id t) type mode uid gid now (default_chunk_size t))
             (omap_put p (created_parent type now c) (inodes t)),
           dentries := omap_emplace (p, name) (next_inode_id t) (dentries t),
           layouts := (if type = INODE_TYPE_FILE then omap_emplace (next_inode_id t)
               \<lparr>l_attrs = new_attrs (next_inode_id t) type mode uid gid now (default_chunk_size t),
                 l_chunk_size = default_chunk_size t, extents = []\<rparr> (layouts t)
             else layouts t)\<rparr>)"
      if "ValidateParent t p name = Inr u" "omap_lookup (inodes t) p = Some c"
        "omap_lookup (dentries t) (p, name) = None" for t now c
      using that by (simp add: CreateNode_def Let_def created_parent_def touched_def)
    have c: "ValidateParent s' p name = Inr u" "omap_lookup (dentries s) (p, name) = None"
      using Inr None e sview_ValidateParent [OF v, of p name] by simp_all
    show ?thesis
      unfolding closed [OF Inr ab(1) c(2)] closed [OF c(1) ab(2) None] e by (rule result)
  next
    case (Some c)
    with v Inr show ?thesis
      by (simp add: CreateNode_def sview_checks [OF v] e agree_Err)
  qed
qed

lemma agree_store:
  assumes "sview s = sview s'" and "strip a = strip b"
  shows "sview (store_attrs i a s) = sview (store_attrs i b s')"
  unfolding store_attrs_def by (intro sview_sync sview_put_inode assms)

lemma agree_SetAttr:
  assumes v: "sview s = sview s'"
  shows "agree strip (SetAttr c now s) (SetAttr c now' s')"
proof (rule sview_inode [OF v, of "sa_inode_id c"])
  fix a b
  assume ab: "omap_lookup (inodes s) (sa_inode_id c) = Some a"
    "omap_lookup (inodes s') (sa_inode_id c) = Some b" "strip a = strip b"
  then have "strip ((apply_setattr c a)\<lparr>ctime_ns := now, version := version a + 1\<rparr>) =
      strip ((apply_setattr c b)\<lparr>ctime_ns := now', version := version b + 1\<rparr>)"
    by (simp add: apply_setattr_def Let_def strip_eq_iff)
  note st = this
  show ?thesis
    unfolding SetAttr_store ab(1,2) option.case Let_def by (intro agree_Ok agree_store v st)
qed (use v in \<open>simp add: SetAttr_store agree_Err\<close>)

lemma RemoveNode_outcome:
  obtains s' where "RemoveNode p name i now s = (Ok (), s')"
  | s' where "RemoveNode p name i now s = (OutOfRange, s')"
proof -
  have touch: "fst (TouchInode p now t) = Ok () \<or> fst (TouchInode p now t) = OutOfRange" for t
    by (simp add: TouchInode_def Let_def split: option.split)
  have adjust: "fst (adjust_nlink f p t) = Ok () \<or> fst (adjust_nlink f p t) = OutOfRange" for f t
    by (simp add: adjust_nlink_def split: option.split)
  have "fst (and_then (TouchInode p now t)
        (\<lambda>s. if c then adjust_nlink (\<lambda>n. n - 1) p s else (Ok (), s))) \<in> {Ok (), OutOfRange}" for t c
  proof (cases "TouchInode p now t")
    case (Pair r b)
    then show ?thesis
      using touch [of t] adjust [of "\<lambda>n. n - 1" b] by (auto simp: and_then_def)
  qed
  then have "fst (RemoveNode p name i now s) \<in> {Ok (), OutOfRange}"
    by (simp add: RemoveNode_and_then split: option.split)
  then show thesis
    using that by (cases "RemoveNode p name i now s") auto
qed

text \<open>How \<^verbatim>\<open>Unlink\<close> and \<^verbatim>\<open>Rmdir\<close> end, as a sequence of steps.\<close>

lemma remove_and_return:
  "(case RemoveNode p name i now s of (Ok _, s) \<Rightarrow> return_inode p s | (_, s) \<Rightarrow> (OutOfRange, s)) =
     and_then (RemoveNode p name i now s) (return_inode p)"
  by (rule RemoveNode_outcome [of p name i now s]) (simp_all add: and_then_def)

lemma agree_remove_and_return:
  assumes "sview s = sview s'"
  shows "agree strip
    (case RemoveNode p name i now s of (Ok _, s) \<Rightarrow> return_inode p s | (_, s) \<Rightarrow> (OutOfRange, s))
    (case RemoveNode p name i now' s' of (Ok _, s) \<Rightarrow> return_inode p s | (_, s) \<Rightarrow> (OutOfRange, s))"
  unfolding remove_and_return
  by (intro agree_and_then agree_RemoveNode agree_return_inode assms)

lemma agree_Unlink:
  assumes v: "sview s = sview s'"
  shows "agree strip (Unlink p name now s) (Unlink p name now' s')"
proof (cases "ValidateParent s' p name")
  case Inr
  show ?thesis
  proof (cases "omap_lookup (dentries s') (p, name)")
    case (Some i)
    show ?thesis
    proof (rule sview_inode [OF v, of i])
      fix a b
      assume "omap_lookup (inodes s) i = Some a" "omap_lookup (inodes s') i = Some b" "strip a = strip b"
      with v Inr Some show ?thesis
        by (simp add: Unlink_def sview_checks [OF v] sview_dentries [OF v] strip_eq_iff agree_Err
            agree_remove_and_return)
    qed (use v Inr Some in \<open>simp add: Unlink_def sview_checks [OF v] sview_dentries [OF v] agree_OutOfRange\<close>)
  qed (use v Inr in \<open>simp add: Unlink_def sview_checks [OF v] sview_dentries [OF v] agree_Err\<close>)
qed (use v in \<open>simp add: Unlink_def sview_checks [OF v] agree_Err\<close>)

lemma agree_Rmdir:
  assumes v: "sview s = sview s'"
  shows "agree strip (Rmdir p name now s) (Rmdir p name now' s')"
proof (cases "ValidateParent s' p name")
  case Inr
  show ?thesis
  proof (cases "omap_lookup (dentries s') (p, name)")
    case (Some i)
    show ?thesis
    proof (rule sview_inode [OF v, of i])
      fix a b
      assume "omap_lookup (inodes s) i = Some a" "omap_lookup (inodes s') i = Some b" "strip a = strip b"
      with v Inr Some show ?thesis
        by (simp add: Rmdir_def sview_checks [OF v] sview_dentries [OF v] strip_eq_iff agree_Err
            agree_remove_and_return)
    qed (use v Inr Some in \<open>simp add: Rmdir_def sview_checks [OF v] sview_dentries [OF v] agree_OutOfRange\<close>)
  qed (use v Inr in \<open>simp add: Rmdir_def sview_checks [OF v] sview_dentries [OF v] agree_Err\<close>)
qed (use v in \<open>simp add: Rmdir_def sview_checks [OF v] agree_Err\<close>)

section \<open>Renaming\<close>

lemma agree_rename_replace:
  assumes v: "sview s = sview s'"
  shows "agree id (rename_replace np nname ty t now s) (rename_replace np nname ty t now' s')"
proof (rule sview_inode [OF v, of t])
  fix a b
  assume "omap_lookup (inodes s) t = Some a" "omap_lookup (inodes s') t = Some b" "strip a = strip b"
  with v show ?thesis
    by (simp add: rename_replace_def sview_checks [OF v] strip_eq_iff agree_Err agree_RemoveNode)
qed (use v in \<open>simp add: rename_replace_def agree_OutOfRange\<close>)

lemma agree_rename_moved:
  assumes v: "sview s = sview s'"
  shows "agree strip (rename_moved m now s) (rename_moved m now' s')"
proof (rule sview_inode [OF v, of m])
  fix a b
  assume "omap_lookup (inodes s) m = Some a" "omap_lookup (inodes s') m = Some b" "strip a = strip b"
  with v show ?thesis
    by (simp add: rename_moved_def Let_def strip_eq_iff agree_Ok agree_store [unfolded store_attrs_def])
qed (use v in \<open>simp add: rename_moved_def agree_OutOfRange\<close>)

lemma agree_rename_parents:
  assumes "sview s = sview s'"
  shows "agree id (rename_parents p np ty now s) (rename_parents p np ty now' s')"
  using assms unfolding rename_parents_def
  by (auto intro!: agree_and_then agree_TouchInode agree_adjust_nlink agree_Ok)

lemma agree_rename_move:
  assumes "sview s = sview s'"
  shows "agree strip (rename_move p name np nname m ty now s) (rename_move p name np nname m ty now' s')"
  unfolding rename_move_def
  by (intro agree_and_then agree_rename_parents agree_rename_moved) (use assms in \<open>simp_all add: sview_eq_iff\<close>)


lemma agree_Rename:
  assumes v: "sview s = sview s'"
  shows "agree strip (Rename p name np nname now0 now s) (Rename p name np nname now0' now' s')"
proof -
  note checks = sview_checks [OF v] sview_dentries [OF v]
  have step: "agree strip
      (case (if a_type a = DIR then IsAncestor s' m np else Some False) of
         None \<Rightarrow> (NoReturn, s)
       | Some True \<Rightarrow> (Err e, s)
       | Some False \<Rightarrow>
           (case omap_lookup (dentries s') (np, nname) of
              None \<Rightarrow> rename_move p name np nname m (a_type a) now s
            | Some t \<Rightarrow> if t = m then (Ok a, s)
                else and_then (rename_replace np nname (a_type a) t now0 s)
                  (rename_move p name np nname m (a_type a) now)))
      (case (if a_type b = DIR then IsAncestor s' m np else Some False) of
         None \<Rightarrow> (NoReturn, s')
       | Some True \<Rightarrow> (Err e, s')
       | Some False \<Rightarrow>
           (case omap_lookup (dentries s') (np, nname) of
              None \<Rightarrow> rename_move p name np nname m (a_type b) now' s'
            | Some t \<Rightarrow> if t = m then (Ok b, s')
                else and_then (rename_replace np nname (a_type b) t now0' s')
                  (rename_move p name np nname m (a_type b) now')))"
    if ab: "strip a = strip b" for a b m e
  proof -
    have "a_type a = a_type b"
      using ab by (simp add: strip_eq_iff)
    then show ?thesis
      using v ab
      by (simp add: agree_intros agree_rename_move agree_and_then [OF agree_rename_replace agree_rename_move]
          split: option.split bool.split)
  qed
  show ?thesis
  proof (cases "ValidateParent s' p name")
    case p: Inr
    show ?thesis
    proof (cases "ValidateParent s' np nname")
      case np: Inr
      show ?thesis
      proof (cases "omap_lookup (dentries s') (p, name)")
        case (Some m)
        show ?thesis
        proof (rule sview_inode [OF v, of m])
          fix a b
          assume ab: "omap_lookup (inodes s) m = Some a" "omap_lookup (inodes s') m = Some b"
            "strip a = strip b"
          show ?thesis
            unfolding Rename_def checks p np Some ab(1,2) sum.case option.case by (rule step [OF ab(3)])
        qed (use v p np Some in \<open>simp add: Rename_def checks agree_OutOfRange\<close>)
      qed (use v p np in \<open>simp add: Rename_def checks agree_Err\<close>)
    qed (use v p in \<open>simp add: Rename_def checks agree_Err\<close>)
  qed (use v in \<open>simp add: Rename_def checks agree_Err\<close>)
qed

section \<open>Writing\<close>

lemma sview_file:
  assumes "sview s = sview s'"
    and "omap_lookup (inodes s) i = Some a" "omap_lookup (inodes s') i = Some b" "strip a = strip b"
    and "strip_layout l = strip_layout m" and "strip a' = strip b'"
    and "\<And>j. j \<noteq> i \<Longrightarrow> map_option strip_layout (omap_lookup ls j) = map_option strip_layout (omap_lookup ls' j)"
  shows "sview (s\<lparr>inodes := omap_put i a' (inodes s), layouts := omap_put i (l\<lparr>l_attrs := a'\<rparr>) ls\<rparr>) =
    sview (s'\<lparr>inodes := omap_put i b' (inodes s'), layouts := omap_put i (m\<lparr>l_attrs := b'\<rparr>) ls'\<rparr>)"
  using assms by (simp add: sview_eq_iff strip_layout_eq_iff)

lemma agree_CommitWrite:
  assumes v: "sview s = sview s'"
  shows "agree strip (CommitWrite i base es now s) (CommitWrite i base es now' s')"
proof (cases "ValidateRegularFile s' i")
  case Inr
  show ?thesis
  proof (rule sview_layout [OF v, of i])
    fix l m
    assume lm: "omap_lookup (layouts s) i = Some l" "omap_lookup (layouts s') i = Some m"
      "strip_layout l = strip_layout m"
    have e: "extents l = extents m"
      using lm(3) by (simp add: strip_layout_eq_iff)
    obtain old valid where c: "commit_loop (extents m) es = (old, valid)"
      by (cases "commit_loop (extents m) es")
    have lm': "strip_layout (l\<lparr>extents := old\<rparr>) = strip_layout (m\<lparr>extents := old\<rparr>)"
      using lm(3) by (simp add: strip_layout_eq_iff)
    note vl = sview_put_layout [OF v lm', of i]
    show ?thesis
    proof (rule sview_inode [OF v, of i])
      fix a b
      assume ab: "omap_lookup (inodes s) i = Some a" "omap_lookup (inodes s') i = Some b" "strip a = strip b"
      then have w: "strip (wrote n now a) = strip (wrote n now' b)" "a_size a = a_size b" for n
        by (simp_all add: strip_eq_iff wrote_def)
      show ?thesis
      proof (cases valid)
        case True
        let ?n = "foldl (\<lambda>sz e. max sz (ExtentEnd e)) (a_size b) es"
        have "agree strip
          (Ok (wrote ?n now a), s\<lparr>inodes := omap_put i (wrote ?n now a) (inodes s),
            layouts := omap_put i (l\<lparr>extents := old, l_attrs := wrote ?n now a\<rparr>)
              (omap_put i (l\<lparr>extents := old\<rparr>) (layouts s))\<rparr>)
          (Ok (wrote ?n now' b), s'\<lparr>inodes := omap_put i (wrote ?n now' b) (inodes s'),
            layouts := omap_put i (m\<lparr>extents := old, l_attrs := wrote ?n now' b\<rparr>)
              (omap_put i (m\<lparr>extents := old\<rparr>) (layouts s'))\<rparr>)"
          by (intro agree_Ok sview_file [OF v ab lm'] w) (use v in \<open>simp add: sview_eq_iff\<close>)
        with True Inr lm(1,2) c ab w(2) show ?thesis
          by (simp add: CommitWrite_def sview_checks [OF v] e Let_def wrote_def)
      qed (use vl Inr lm(1,2) c in \<open>simp add: CommitWrite_def sview_checks [OF v] e Let_def agree_Err\<close>)
    qed (use vl Inr lm(1,2) c in \<open>simp add: CommitWrite_def sview_checks [OF v] e Let_def agree_intros\<close>)
  qed (use v Inr in \<open>simp add: CommitWrite_def sview_checks [OF v] agree_Err\<close>)
qed (use v in \<open>simp add: CommitWrite_def sview_checks [OF v] agree_Err\<close>)

lemma agree_AppendWrite:
  assumes v: "sview s = sview s'"
  shows "agree (\<lambda>r. r\<lparr>ar_attrs := strip (ar_attrs r)\<rparr>)
    (AppendWrite i base es now s) (AppendWrite i base es now' s')"
proof (cases "ValidateRegularFile s' i")
  case Inr
  show ?thesis
  proof (rule sview_layout [OF v, of i])
    fix l m
    assume lm: "omap_lookup (layouts s) i = Some l" "omap_lookup (layouts s') i = Some m"
      "strip_layout l = strip_layout m"
    have e: "extents l = extents m"
      using lm(3) by (simp add: strip_layout_eq_iff)
    show ?thesis
    proof (rule sview_inode [OF v, of i])
      fix a b
      assume ab: "omap_lookup (inodes s) i = Some a" "omap_lookup (inodes s') i = Some b" "strip a = strip b"
      then have w: "strip (wrote n now a) = strip (wrote n now' b)" "a_size a = a_size b" for n
        by (simp_all add: strip_eq_iff wrote_def)
      obtain old k com valid where c: "append_loop (a_size b) (extents m) 0 [] es = (old, k, com, valid)"
        by (cases "append_loop (a_size b) (extents m) 0 [] es")
      have lm': "strip_layout (l\<lparr>extents := old\<rparr>) = strip_layout (m\<lparr>extents := old\<rparr>)"
        using lm(3) by (simp add: strip_layout_eq_iff)
      note vl = sview_put_layout [OF v lm', of i]
      show ?thesis
      proof (cases valid)
        case True
        let ?n = "a_size b + k"
        have "agree (\<lambda>r. r\<lparr>ar_attrs := strip (ar_attrs r)\<rparr>)
          (Ok \<lparr>ar_attrs = wrote ?n now a, append_start = a_size b, committed_extents = com\<rparr>,
            s\<lparr>inodes := omap_put i (wrote ?n now a) (inodes s),
              layouts := omap_put i (l\<lparr>extents := old, l_attrs := wrote ?n now a\<rparr>)
                (omap_put i (l\<lparr>extents := old\<rparr>) (layouts s))\<rparr>)
          (Ok \<lparr>ar_attrs = wrote ?n now' b, append_start = a_size b, committed_extents = com\<rparr>,
            s'\<lparr>inodes := omap_put i (wrote ?n now' b) (inodes s'),
              layouts := omap_put i (m\<lparr>extents := old, l_attrs := wrote ?n now' b\<rparr>)
                (omap_put i (m\<lparr>extents := old\<rparr>) (layouts s'))\<rparr>)"
          by (intro agree_Ok sview_file [OF v ab lm'])
            (use v w(1) in \<open>simp_all add: sview_eq_iff\<close>)
        with True Inr lm(1,2) c ab w(2) show ?thesis
          by (simp add: AppendWrite_def sview_checks [OF v] e Let_def wrote_def)
      qed (use vl Inr lm(1,2) c ab w(2) in
          \<open>simp add: AppendWrite_def sview_checks [OF v] e Let_def agree_Err\<close>)
    qed (use v Inr lm(1,2) in \<open>simp add: AppendWrite_def sview_checks [OF v] e Let_def agree_intros\<close>)
  qed (use v Inr in \<open>simp add: AppendWrite_def sview_checks [OF v] agree_Err\<close>)
qed (use v in \<open>simp add: AppendWrite_def sview_checks [OF v] agree_Err\<close>)

lemma agree_Truncate:
  assumes v: "sview s = sview s'"
  shows "agree strip (Truncate i sz now s) (Truncate i sz now' s')"
proof (cases "ValidateRegularFile s' i")
  case Inr
  show ?thesis
  proof (rule sview_layout [OF v, of i])
    fix l m
    assume lm: "omap_lookup (layouts s) i = Some l" "omap_lookup (layouts s') i = Some m"
      "strip_layout l = strip_layout m"
    let ?es = "truncate_extents sz (extents m)"
    have e: "extents l = extents m"
      using lm(3) by (simp add: strip_layout_eq_iff)
    have lm': "strip_layout (l\<lparr>extents := ?es\<rparr>) = strip_layout (m\<lparr>extents := ?es\<rparr>)"
      using lm(3) by (simp add: strip_layout_eq_iff)
    note vl = sview_put_layout [OF v lm', of i]
    show ?thesis
    proof (rule sview_inode [OF v, of i])
      fix a b
      assume ab: "omap_lookup (inodes s) i = Some a" "omap_lookup (inodes s') i = Some b" "strip a = strip b"
      then have w: "strip (wrote sz now a) = strip (wrote sz now' b)"
        by (simp add: strip_eq_iff wrote_def)
      have "agree strip
        (Ok (wrote sz now a), s\<lparr>inodes := omap_put i (wrote sz now a) (inodes s),
          layouts := omap_put i (l\<lparr>extents := ?es, l_attrs := wrote sz now a\<rparr>)
            (omap_put i (l\<lparr>extents := ?es\<rparr>) (layouts s))\<rparr>)
        (Ok (wrote sz now' b), s'\<lparr>inodes := omap_put i (wrote sz now' b) (inodes s'),
          layouts := omap_put i (m\<lparr>extents := ?es, l_attrs := wrote sz now' b\<rparr>)
            (omap_put i (m\<lparr>extents := ?es\<rparr>) (layouts s'))\<rparr>)"
        by (intro agree_Ok sview_file [OF v ab lm']) (use v w in \<open>simp_all add: sview_eq_iff\<close>)
      with Inr lm(1,2) ab show ?thesis
        by (simp add: Truncate_def sview_checks [OF v] e Let_def wrote_def)
    qed (use vl Inr lm(1,2) in \<open>simp add: Truncate_def sview_checks [OF v] e Let_def agree_intros\<close>)
  qed (use v Inr in \<open>simp add: Truncate_def sview_checks [OF v] agree_Err\<close>)
qed (use v in \<open>simp add: Truncate_def sview_checks [OF v] agree_Err\<close>)

section \<open>The replicated machine\<close>

lemma agree_respond:
  assumes "agree strip r r'"
  shows "agree strip_response (respond r) (respond r')"
  using assms
  by (cases r; cases r'; cases "fst r"; cases "fst r'") (auto simp: respond_def agree_def MakeErrorResponse_def)

lemma agree_respond_append:
  assumes "agree (\<lambda>r. r\<lparr>ar_attrs := strip (ar_attrs r)\<rparr>) r r'"
  shows "agree strip_response (respond_append r) (respond_append r')"
proof -
  have ok: "strip (ar_attrs x) = strip (ar_attrs y) \<and>
      append_start x = append_start y \<and> committed_extents x = committed_extents y"
    if "x\<lparr>ar_attrs := strip (ar_attrs x)\<rparr> = y\<lparr>ar_attrs := strip (ar_attrs y)\<rparr>"
    for x y :: AppendWriteStateResult
    using that by (cases x; cases y) simp
  obtain o1 t1 o2 t2 where r: "r = (o1, t1)" "r' = (o2, t2)"
    by (cases r; cases r')
  have "sview t1 = sview t2"
    using assms by (simp add: r agree_def)
  moreover have "view_outcome strip_response (fst (respond_append r)) =
      view_outcome strip_response (fst (respond_append r'))"
  proof (cases o1)
    case (Ok x)
    then obtain y where y: "o2 = Ok y" "x\<lparr>ar_attrs := strip (ar_attrs x)\<rparr> = y\<lparr>ar_attrs := strip (ar_attrs y)\<rparr>"
      using assms by (cases o2) (simp_all add: r agree_def)
    show ?thesis
      using ok [OF y(2)] by (simp add: r Ok y(1) respond_append_def)
  qed (use assms in \<open>cases o2; simp add: r agree_def respond_append_def MakeErrorResponse_def\<close>)+
  ultimately show ?thesis
    by (simp add: agree_def r)
qed

lemma agree_apply_command:
  assumes v: "sview s = sview s'"
  shows "agree strip_response (apply_command c clk s) (apply_command c clk' s')"
  by (cases c; simp only: apply_command.simps Mkdir_def CreateFile_def;
      intro agree_respond agree_respond_append agree_CreateNode agree_SetAttr agree_CommitWrite
        agree_AppendWrite agree_Truncate agree_Unlink agree_Rmdir agree_Rename agree_Ok v refl)

interpretation replicas: replica_machine apply_command machine_ok in_order sview
    "view_outcome strip_response"
  by unfold_locales (use agree_apply_command in \<open>simp add: agree_def\<close>)

end
