(* ===== verification/Namespace_Spec.thy ===== *)
theory Namespace_Spec
  imports Meta_Replica
begin

text \<open>
  What the name space operations promise, on the abstract name space (the types of the
  inodes and the links between them): the error of the first check that fails, and the
  change of the name space when none does.  Each operation of \<^verbatim>\<open>meta_state.cc\<close> is shown to
  implement its specification on well-formed states: an error leaves the state alone and
  has the specified kind, a success makes the specified change.
\<close>

section \<open>Specification\<close>

definition valid_name :: "string \<Rightarrow> bool" where
  "valid_name n \<longleftrightarrow> n \<noteq> [] \<and> n \<noteq> ''.'' \<and> n \<noteq> ''..'' \<and> CHR ''/'' \<notin> set n \<and> CHR 0x00 \<notin> set n"

definition parent_error :: "types \<Rightarrow> u64 \<Rightarrow> string \<Rightarrow> ErrorKind option" where
  "parent_error T p n =
     (if \<not> valid_name n then Some InvalidArgument
      else case T p of
             None \<Rightarrow> Some (NotFound (to_string p))
           | Some ty \<Rightarrow> if ty = DIR then None else Some (NotDirectory (to_string p)))"

definition create_error :: "types \<Rightarrow> links \<Rightarrow> u64 \<Rightarrow> string \<Rightarrow> ErrorKind option" where
  "create_error T D p n =
     (case parent_error T p n of
        Some k \<Rightarrow> Some k
      | None \<Rightarrow> if D (p, n) = None then None else Some (AlreadyExists (PathFor p n)))"

definition unlink_error :: "types \<Rightarrow> links \<Rightarrow> u64 \<Rightarrow> string \<Rightarrow> ErrorKind option" where
  "unlink_error T D p n =
     (case parent_error T p n of
        Some k \<Rightarrow> Some k
      | None \<Rightarrow>
          (case D (p, n) of
             None \<Rightarrow> Some (NotFound (PathFor p n))
           | Some i \<Rightarrow> if T i = Some DIR then Some (IsDirectory (PathFor p n)) else None))"

definition rmdir_error :: "types \<Rightarrow> links \<Rightarrow> u64 \<Rightarrow> string \<Rightarrow> ErrorKind option" where
  "rmdir_error T D p n =
     (case parent_error T p n of
        Some k \<Rightarrow> Some k
      | None \<Rightarrow>
          (case D (p, n) of
             None \<Rightarrow> Some (NotFound (PathFor p n))
           | Some i \<Rightarrow>
               if T i \<noteq> Some DIR then Some (NotDirectory (PathFor p n))
               else if \<exists>m. D (i, m) \<noteq> None then Some (DirectoryNotEmpty (PathFor p n))
               else None))"

text \<open>What replacing the target \<open>t\<close> of a rename by a node of type \<open>ty\<close> runs into.\<close>

definition replace_error ::
  "types \<Rightarrow> links \<Rightarrow> u64 \<Rightarrow> string \<Rightarrow> InodeType option \<Rightarrow> u64 \<Rightarrow> ErrorKind option" where
  "replace_error T D np nn ty t =
     (if ty = Some DIR \<and> T t \<noteq> Some DIR then Some (NotDirectory (PathFor np nn))
      else if ty \<noteq> Some DIR \<and> T t = Some DIR then Some (IsDirectory (PathFor np nn))
      else if T t = Some DIR \<and> (\<exists>m. D (t, m) \<noteq> None) then Some (DirectoryNotEmpty (PathFor np nn))
      else None)"

definition rename_error :: "types \<Rightarrow> links \<Rightarrow> u64 \<Rightarrow> string \<Rightarrow> u64 \<Rightarrow> string \<Rightarrow> ErrorKind option" where
  "rename_error T D p n np nn =
     (case parent_error T p n of
        Some k \<Rightarrow> Some k
      | None \<Rightarrow>
     (case parent_error T np nn of
        Some k \<Rightarrow> Some k
      | None \<Rightarrow>
     (case D (p, n) of
        None \<Rightarrow> Some (NotFound (PathFor p n))
      | Some m \<Rightarrow>
          if T m = Some DIR \<and> lies_above D m np then Some InvalidArgument
          else (case D (np, nn) of
                  None \<Rightarrow> None
                | Some t \<Rightarrow> if t = m then None else replace_error T D np nn (T m) t))))"

text \<open>The name space after a rename: the target, if another node, disappears.\<close>

definition renamed_types :: "types \<Rightarrow> links \<Rightarrow> u64 \<Rightarrow> string \<Rightarrow> u64 \<Rightarrow> string \<Rightarrow> types" where
  "renamed_types T D p n np nn =
     (case D (np, nn) of None \<Rightarrow> T | Some t \<Rightarrow> if (p, n) = (np, nn) then T else T(t := None))"

definition renamed_links :: "links \<Rightarrow> u64 \<Rightarrow> string \<Rightarrow> u64 \<Rightarrow> string \<Rightarrow> links" where
  "renamed_links D p n np nn = D((p, n) := None, (np, nn) := D (p, n))"

text \<open>
  An operation meets an error specification when it fails exactly with the specified kind,
  changing nothing.
\<close>

definition meets :: "ErrorKind option \<Rightarrow> MetaState \<Rightarrow> InodeAttrs outcome \<times> MetaState \<Rightarrow> bool" where
  "meets k s r \<longleftrightarrow> (case k of
     Some k \<Rightarrow> \<exists>e. r = (Err e, s) \<and> kind e = k
   | None \<Rightarrow> \<exists>a s'. r = (Ok a, s'))"

section \<open>The checks\<close>

lemma valid_name_iff: "ValidateName n = Inr u \<longleftrightarrow> valid_name n"
  by (auto simp: ValidateName_def valid_name_def)

lemma parent_error_ValidateParent:
  "parent_error (itype s) p n =
     (case ValidateParent s p n of Inl e \<Rightarrow> Some (kind e) | Inr _ \<Rightarrow> None)"
  by (auto simp: parent_error_def ValidateParent_def valid_name_def itype_def MakeError_def
      ValidateName_def split: option.split)

lemma den_inodes:
  assumes "meta_wf s" and "den s (p, n) = Some i"
  obtains a where "omap_lookup (inodes s) i = Some a" "itype s i = Some (a_type a)"
  using ns_tree_child [OF wf_tree [OF assms(1)] assms(2)] by (auto simp: itype_def)

lemma CreateNode_meets:
  assumes "meta_wf s"
  shows "meets (create_error (itype s) (den s) p name) s (CreateNode p name type mode uid gid now s)"
proof (cases "ValidateParent s p name")
  case (Inr u)
  then obtain a where "omap_lookup (inodes s) p = Some a"
    by (auto simp: ValidateParent_Inr itype_def)
  with Inr show ?thesis
    by (auto simp: meets_def create_error_def parent_error_ValidateParent CreateNode_def den_def
        MakeError_def Let_def)
qed (simp add: meets_def create_error_def parent_error_ValidateParent CreateNode_def)

lemma Unlink_meets:
  assumes "meta_wf s"
  shows "meets (unlink_error (itype s) (den s) p name) s (Unlink p name now s)"
  using assms
proof (cases rule: Unlink_cases [where p = p and name = name and now = now])
  case (failed e)
  then show ?thesis
    using assms
    by (cases "ValidateParent s p name"; cases "den s (p, name)")
      (auto simp: meets_def unlink_error_def parent_error_ValidateParent Unlink_def den_def MakeError_def
        itype_def return_inode_def split: option.splits if_splits prod.splits outcome.splits)
next
  case (gone i inode parent s')
  then have "ValidateParent s p name = Inr ()"
    by (cases "ValidateParent s p name") (auto simp: Unlink_def)
  with gone show ?thesis
    by (simp add: meets_def unlink_error_def parent_error_ValidateParent itype_def)
qed

lemma Rmdir_meets:
  assumes "meta_wf s"
  shows "meets (rmdir_error (itype s) (den s) p name) s (Rmdir p name now s)"
  using assms
proof (cases rule: Rmdir_cases [where p = p and name = name and now = now])
  case (failed e)
  then show ?thesis
    using assms
    by (cases "ValidateParent s p name"; cases "den s (p, name)")
      (auto simp: meets_def rmdir_error_def parent_error_ValidateParent Rmdir_def den_def MakeError_def
        itype_def return_inode_def IsDirectoryEmpty_iff
        split: option.splits if_splits prod.splits outcome.splits)
next
  case (gone i inode parent s')
  then have "ValidateParent s p name = Inr ()"
    by (cases "ValidateParent s p name") (auto simp: Rmdir_def)
  with gone show ?thesis
    by (simp add: meets_def rmdir_error_def parent_error_ValidateParent itype_def)
qed

lemma replace_fails:
  assumes "replace_error (itype s) (den s) np nn (Some ty) t = Some k" and "omap_lookup (inodes s) t = Some a"
  shows "\<exists>e. rename_replace np nn ty t now s = (Err e, s) \<and> kind e = k"
  using assms
  by (auto simp: replace_error_def rename_replace_def itype_def IsDirectoryEmpty_iff MakeError_def
      split: if_splits)

lemma replace_removes:
  assumes "replace_error (itype s) (den s) np nn (Some ty) t = None" and "omap_lookup (inodes s) t = Some a"
  shows "rename_replace np nn ty t now s = RemoveNode np nn t now s"
  using assms
  by (auto simp: replace_error_def rename_replace_def itype_def IsDirectoryEmpty_iff split: if_splits)

lemma Rename_checked:
  assumes "meta_wf s" and "parent_error (itype s) p n = None" and "parent_error (itype s) np nn = None"
    and "den s (p, n) = Some m" and "omap_lookup (inodes s) m = Some a"
  shows "Rename p n np nn now0 now s =
    (if a_type a = DIR \<and> lies_above (den s) m np
     then (Err (MakeError InvalidArgument ''cannot move directory into itself or its descendant''), s)
     else case den s (np, nn) of
            None \<Rightarrow> rename_move p n np nn m (a_type a) now s
          | Some t \<Rightarrow>
              if t = m then (Ok a, s)
              else and_then (rename_replace np nn (a_type a) t now0 s)
                     (rename_move p n np nn m (a_type a) now))"
  using assms
  by (auto simp: Rename_def parent_error_ValidateParent den_def IsAncestor_above [OF wf_tree]
      split: sum.splits)

lemma Rename_fails:
  assumes wf: "meta_wf s" and k: "rename_error (itype s) (den s) p n np nn = Some k"
  shows "\<exists>e. Rename p n np nn now0 now s = (Err e, s) \<and> kind e = k"
proof (cases "parent_error (itype s) p n = None \<and> parent_error (itype s) np nn = None \<and> den s (p, n) \<noteq> None")
  case True
  then obtain m where v: "parent_error (itype s) p n = None" "parent_error (itype s) np nn = None"
    and m: "den s (p, n) = Some m"
    by auto
  obtain a where a: "omap_lookup (inodes s) m = Some a" "itype s m = Some (a_type a)"
    using den_inodes [OF wf m] .
  note checked = Rename_checked [OF wf v m a(1), of now0 now]
  show ?thesis
  proof (cases "a_type a = DIR \<and> lies_above (den s) m np")
    case True
    with k v m a show ?thesis
      by (simp add: checked rename_error_def MakeError_def)
  next
    case False
    with k v m a obtain t where t: "den s (np, nn) = Some t" "t \<noteq> m"
      "replace_error (itype s) (den s) np nn (Some (a_type a)) t = Some k"
      by (auto simp: rename_error_def split: option.splits if_splits)
    obtain b where "omap_lookup (inodes s) t = Some b"
      using den_inodes [OF wf t(1)] .
    then obtain e where "rename_replace np nn (a_type a) t now0 s = (Err e, s)" "kind e = k"
      using replace_fails [OF t(3)] by blast
    with False t show ?thesis
      by (auto simp: checked and_then_def)
  qed
next
  case False
  with k show ?thesis
    by (auto simp: rename_error_def Rename_def parent_error_ValidateParent den_def MakeError_def
        split: sum.splits option.splits)
qed

lemma Rename_no_err:
  assumes wf: "meta_wf s" and k: "rename_error (itype s) (den s) p n np nn = None"
  shows "no_err (Rename p n np nn now0 now s)"
proof -
  obtain m where v: "parent_error (itype s) p n = None" "parent_error (itype s) np nn = None"
    and m: "den s (p, n) = Some m"
    using k by (auto simp: rename_error_def split: option.splits)
  obtain a where a: "omap_lookup (inodes s) m = Some a" "itype s m = Some (a_type a)"
    using den_inodes [OF wf m] .
  note checked = Rename_checked [OF wf v m a(1), of now0 now]
  show ?thesis
  proof (cases "den s (np, nn)")
    case None
    with k v m a show ?thesis
      by (auto simp: checked rename_error_def no_err_rename_move)
  next
    case (Some t)
    obtain b where b: "omap_lookup (inodes s) t = Some b"
      using den_inodes [OF wf Some] .
    show ?thesis
    proof (cases "t = m")
      case False
      have na: "\<not> (a_type a = DIR \<and> lies_above (den s) m np)"
        and r: "replace_error (itype s) (den s) np nn (Some (a_type a)) t = None"
        using k v m a Some False by (auto simp: rename_error_def split: if_splits)
      have "Rename p n np nn now0 now s =
          and_then (RemoveNode np nn t now0 s) (rename_move p n np nn m (a_type a) now)"
        using na Some False by (auto simp: checked replace_removes [OF r b])
      then show ?thesis
        by (simp add: no_err_and_then no_err_RemoveNode no_err_rename_move)
    qed (use k v m a Some in \<open>auto simp: checked rename_error_def no_err_Ok\<close>)
  qed
qed

text \<open>A rename does what the specification says, on either branch.\<close>

lemma Rename_meets:
  assumes wf: "meta_wf s"
  shows "meets (rename_error (itype s) (den s) p n np nn) s (Rename p n np nn now0 now s)"
proof (cases "rename_error (itype s) (den s) p n np nn")
  case None
  note ne = Rename_no_err [OF wf None, of now0 now]
  from wf show ?thesis
    by (cases rule: Rename_cases [where p = p and name = n and np = np and nname = nn
          and ?now0.0 = now0 and now = now])
      (use None ne in \<open>simp_all add: meets_def no_err_def\<close>)
next
  case (Some k)
  with Rename_fails [OF wf Some] show ?thesis
    by (simp add: meets_def)
qed

lemma Rename_effect:
  assumes wf: "meta_wf s" and r: "Rename p n np nn now0 now s = (Ok a, s')"
  shows "itype s' = renamed_types (itype s) (den s) p n np nn \<and>
    den s' = renamed_links (den s) p n np nn \<and> den s (p, n) = Some (inode_id a) \<and>
    omap_lookup (inodes s') (inode_id a) = Some a"
  using wf
proof (cases rule: Rename_cases [where p = p and name = n and np = np and nname = nn
      and ?now0.0 = now0 and now = now])
  case (same moved)
  have "den s (p, n) = Some (inode_id a) \<and> omap_lookup (inodes s) (inode_id a) = Some a"
    using same r wf_inode [OF wf]
    by (auto simp: Lookup_def return_inode_def den_def inode_ok_def split: sum.splits option.splits)
  with same r show ?thesis
    by (auto simp: renamed_types_def renamed_links_def fun_eq_iff split: option.splits)
next
  case (moved m mv t)
  have "inode_id mv = m"
    using wf_inode [OF wf moved(3)] by (simp add: inode_ok_def)
  with moved r show ?thesis
    by (auto simp: renamed_types_def renamed_links_def split: option.split)
qed (use r in simp)

end
