(* ===== verification/Examples.thy ===== *)
theory Examples
  imports Namespace_Spec
begin

text \<open>
  A small reachable state, built by applying a log: a directory \<^verbatim>\<open>/d\<close> (2) with a file
  \<^verbatim>\<open>/d/f\<close> (3) that holds two extents and a file \<^verbatim>\<open>/g\<close> (4) written by an append.  The
  properties are applied to it.
\<close>

definition extent_at :: "u64 \<Rightarrow> u64 \<Rightarrow> string \<Rightarrow> FileExtent" where
  "extent_at off l key = \<lparr>offset = off, len = l, object_key = key, etag = [], checksum = [],
     object_size = l, object_offset = 0\<rparr>"

definition demo_log :: "(RaftCommand \<times> clock) list" where
  "demo_log = map (\<lambda>c. (c, \<lambda>_. 5))
     [MkdirCommand 1 ''d'' 448 7 8,
      CreateFileCommand 2 ''f'' 384 7 8,
      CreateFileCommand 1 ''g'' 384 7 8,
      CommitWriteCommand 3 1 [extent_at 0 8 ''k1'', extent_at 2 3 ''k2''],
      AppendWriteCommand 4 1 [extent_at 0 4 ''k3'']]"

definition demo :: MetaState where
  "demo = run_log apply_command demo_log (MetaState_init 4096 1)"

lemma demo_along: "along apply_command in_order demo_log (MetaState_init 4096 1)"
  by code_simp

lemma demo_ok: "machine_ok demo"
  unfolding demo_def by (rule machine.run_inv [OF machine_ok_init demo_along])

lemma demo_wf: "meta_wf demo"
  using demo_ok by (simp add: machine_ok_def)

lemma demo_lookups:
  "map_option a_type (omap_lookup (inodes demo) 1) = Some INODE_TYPE_DIRECTORY"
  "map_option a_type (omap_lookup (inodes demo) 2) = Some INODE_TYPE_DIRECTORY"
  "map_option a_type (omap_lookup (inodes demo) 3) = Some INODE_TYPE_FILE"
  "map_option a_type (omap_lookup (inodes demo) 4) = Some INODE_TYPE_FILE"
  "omap_lookup (dentries demo) (1, ''d'') = Some 2"
  "omap_lookup (dentries demo) (2, ''f'') = Some 3"
  "omap_lookup (dentries demo) (1, ''g'') = Some 4"
  by code_simp+

text \<open>An operation that succeeded, as a test that evaluates.\<close>

definition succeeds :: "'a outcome \<times> 's \<Rightarrow> bool" where
  "succeeds r \<longleftrightarrow> (case fst r of Ok _ \<Rightarrow> True | _ \<Rightarrow> False)"

lemma succeedsD: "succeeds r \<Longrightarrow> \<exists>a s'. r = (Ok a, s')"
  by (cases r) (auto simp: succeeds_def split: outcome.splits)

end
