(* ===== verification/Meta_Properties.thy ===== *)
theory Meta_Properties
  imports Examples
begin

text \<open>
  The properties of the metadata service: the invariant of its reachable states, the
  behaviour of the name space and data operations, snapshots and replication.  Each is
  applied to the state of \<^verbatim>\<open>Examples\<close>.
\<close>

section \<open>Reachable states\<close>




lemma length_responses: "length (responses step log s) = length log"
  by (induction step log s rule: responses.induct) simp_all

definition clumsy_log :: "(RaftCommand \<times> clock) list" where
  "clumsy_log = demo_log @ map (\<lambda>c. (c, \<lambda>_. 6))
     [RenameCommand 1 ''d'' 2 ''x'', RmdirCommand 1 ''d'', UnlinkCommand 9 ''g'', TruncateCommand 2 0,
      CommitWriteCommand 3 1 [extent_at (-1) 8 ''k4'', extent_at 0 0 ''k5''], COMMAND_NOT_SET]"


section \<open>The name space\<close>

text \<open>What \<^verbatim>\<open>Unlink\<close> and \<^verbatim>\<open>Rmdir\<close> leave behind.\<close>

definition gone_from :: "MetaState \<Rightarrow> u64 \<Rightarrow> string \<Rightarrow> InodeAttrs \<Rightarrow> MetaState \<Rightarrow> bool" where
  "gone_from s p n a s' \<longleftrightarrow>
     (\<exists>i. den s (p, n) = Some i \<and> itype s' = (itype s)(i := None) \<and>
        den s' = (den s)((p, n) := None) \<and> GetAttr p s' = Ok a \<and>
        (\<exists>e. Lookup p n s' = Err e \<and> kind e = NotFound (PathFor p n)) \<and>
        (\<exists>e. GetAttr i s' = Err e \<and> kind e = NotFound (to_string i)) \<and>
        (\<exists>e. GetLayout i s' = Err e \<and> kind e = NotFound (to_string i)) \<and>
        (\<forall>j. j \<noteq> p \<longrightarrow> j \<noteq> i \<longrightarrow> frame s s' j))"

lemma gone_from_removed:
  assumes "meta_wf s" and d: "den s (p, n) = Some i"
    and p: "omap_lookup (inodes s) p = Some parent" and s': "s' = removed p n i (removed_parent ty now parent) s"
    and abs: "itype s' = (itype s)(i := None)" "den s' = (den s)((p, n) := None)"
  shows "gone_from s p n (removed_parent ty now parent) s'"
proof -
  have ne: "i \<noteq> p"
    using ns_tree_no_cycle [OF wf_tree [OF assms(1)] d] by auto
  then have "itype s' p = Some DIR"
    using ns_tree_parent [OF wf_tree [OF assms(1)] d] by (simp add: abs)
  moreover have "ValidateName n = Inr ()"
    using wf_name [OF assms(1) d] .
  ultimately have "ValidateParent s' p n = Inr ()"
    by (simp add: ValidateParent_Inr)
  moreover have "omap_lookup (dentries s') (p, n) = None"
    using abs(2) by (simp add: den_def)
  moreover have "omap_lookup (inodes s') i = None" "GetAttr p s' = Ok (removed_parent ty now parent)"
    using ne by (simp_all add: s' GetAttr_def)
  moreover have "frame s s' j" if "j \<noteq> p" "j \<noteq> i" for j
    using that by (simp add: frame_def s')
  ultimately show ?thesis
    using d abs unfolding gone_from_def
    by (auto simp: Lookup_def GetAttr_def GetLayout_def ValidateRegularFile_def MakeError_def)
qed

text \<open>C2: a rename fails exactly with the error of the first check that fails, changing
  nothing, and otherwise moves the one entry, removes the node it replaces and nothing
  else from the name space, and returns the attributes the moved inode then has.\<close>

theorem rename_specified:
  assumes "meta_wf s"
  shows "meets (rename_error (itype s) (den s) p n np nn) s (Rename p n np nn now0 now s) \<and>
    (\<forall>a s'. Rename p n np nn now0 now s = (Ok a, s') \<longrightarrow>
      itype s' = renamed_types (itype s) (den s) p n np nn \<and>
      den s' = renamed_links (den s) p n np nn \<and>
      den s (p, n) = Some (inode_id a) \<and> GetAttr (inode_id a) s' = Ok a)"
  using Rename_meets [OF assms] Rename_effect [OF assms] by (simp add: GetAttr_def)

theorem rename_specified_witness:
  "\<exists>a s'. Rename 1 ''g'' 2 ''f'' 6 6 demo = (Ok a, s') \<and>
    itype s' = (itype demo)(3 := None) \<and> den s' = (den demo)((1, ''g'') := None, (2, ''f'') \<mapsto> 4)"
proof -
  have d: "den demo (2, ''f'') = Some 3" "den demo (1, ''g'') = Some 4"
    by (simp_all add: den_def demo_lookups)
  have "succeeds (Rename 1 ''g'' 2 ''f'' 6 6 demo)"
    by code_simp
  from succeedsD [OF this] show ?thesis
    using rename_specified [OF demo_wf, of 1 "''g''" 2 "''f''" 6 6] d
    by (auto simp: renamed_types_def renamed_links_def)
qed

text \<open>C12: creating a directory or a file fails exactly with the error of the first check that
  fails, changing nothing, and otherwise adds one entry for a fresh inode, which a lookup
  then finds with the requested mode and owner; no other inode but the parent changes.\<close>

theorem create_specified:
  assumes "meta_wf s"
  shows "meets (create_error (itype s) (den s) p n) s (Mkdir p n mode uid gid now s) \<and>
    meets (create_error (itype s) (den s) p n) s (CreateFile p n mode uid gid now s) \<and>
    (\<forall>ty \<in> {INODE_TYPE_DIRECTORY, INODE_TYPE_FILE}. \<forall>a s'.
      CreateNode p n ty mode uid gid now s = (Ok a, s') \<longrightarrow>
        a = new_attrs (next_inode_id s) ty mode uid gid now (default_chunk_size s) \<and>
        itype s (next_inode_id s) = None \<and>
        itype s' = (itype s)(next_inode_id s \<mapsto> ty) \<and>
        den s' = (den s)((p, n) \<mapsto> next_inode_id s) \<and> Lookup p n s' = Ok a \<and>
        (\<forall>j. j \<noteq> p \<longrightarrow> j \<noteq> next_inode_id s \<longrightarrow> frame s s' j))"
proof -
  have "a = new_attrs (next_inode_id s) ty mode uid gid now (default_chunk_size s) \<and>
        itype s (next_inode_id s) = None \<and>
        itype s' = (itype s)(next_inode_id s \<mapsto> ty) \<and>
        den s' = (den s)((p, n) \<mapsto> next_inode_id s) \<and> Lookup p n s' = Ok a \<and>
        (\<forall>j. j \<noteq> p \<longrightarrow> j \<noteq> next_inode_id s \<longrightarrow> frame s s' j)"
    if r: "CreateNode p n ty mode uid gid now s = (Ok a, s')" for ty a s'
    using assms
  proof (cases rule: CreateNode_cases [where p = p and name = n and type = ty and mode = mode
        and uid = uid and gid = gid and now = now])
    case (created parent inode)
    note abs = created_abs(1) [OF assms created(3), where name = n and type = ty
        and now = now and inode = inode]
      created_abs(2) [OF assms created(3), where name = n and type = ty
        and pa = "created_parent ty now parent" and inode = inode]
    have "p \<noteq> next_inode_id s"
      using created(3) wf_no_wrap [OF assms] by (auto simp: itype_def)
    then have "ValidateParent s' p n = Inr ()"
      using created r abs by (auto simp: ValidateParent_Inr itype_def)
    then show ?thesis
      using created r abs wf_no_wrap [OF assms]
      by (auto simp: Lookup_def frame_def den_def return_inode_def)
  qed (use r in simp)
  then show ?thesis
    using CreateNode_meets [OF assms] unfolding Mkdir_def CreateFile_def by blast
qed

theorem create_specified_witness:
  "\<exists>a s'. Mkdir 2 ''e'' 448 1 1 9 demo = (Ok a, s') \<and> Lookup 2 ''e'' s' = Ok a \<and>
     den s' = (den demo)((2, ''e'') \<mapsto> 5)"
proof -
  have "succeeds (CreateNode 2 ''e'' INODE_TYPE_DIRECTORY 448 1 1 9 demo)" "next_inode_id demo = 5"
    by code_simp+
  with succeedsD [OF this(1)] show ?thesis
    using create_specified [OF demo_wf, of 2 "''e''" 448 1 1 9] by (auto simp: Mkdir_def)
qed



text \<open>C14: removing a directory fails exactly with the error of the first check that fails,
  changing nothing, and otherwise removes one empty directory and nothing else.\<close>

theorem rmdir_specified:
  assumes "meta_wf s"
  shows "meets (rmdir_error (itype s) (den s) p n) s (Rmdir p n now s) \<and>
    (\<forall>a s'. Rmdir p n now s = (Ok a, s') \<longrightarrow> gone_from s p n a s')"
proof -
  have "gone_from s p n a s'" if r: "Rmdir p n now s = (Ok a, s')" for a s'
    using assms
  proof (cases rule: Rmdir_cases [where p = p and name = n and now = now])
    case (gone i inode parent t)
    with r show ?thesis
      using gone_from_removed [OF assms gone(1,5,8-10)] by auto
  qed (use r in simp)
  then show ?thesis
    using Rmdir_meets [OF assms] by blast
qed

theorem rmdir_specified_witness:
  "\<exists>e. Rmdir 1 ''d'' 9 demo = (Err e, demo) \<and> kind e = DirectoryNotEmpty (PathFor 1 ''d'')"
proof -
  have "den demo (2, ''f'') = Some 3" "den demo (1, ''d'') = Some 2" "itype demo 1 = Some DIR"
    "itype demo 2 = Some DIR" "valid_name ''d''"
    by (simp_all add: den_def itype_def demo_lookups valid_name_def)
  then have "rmdir_error (itype demo) (den demo) 1 ''d'' = Some (DirectoryNotEmpty (PathFor 1 ''d''))"
    by (auto simp: rmdir_error_def parent_error_def)
  then show ?thesis
    using rmdir_specified [OF demo_wf, of 1 "''d''" 9] by (simp add: meets_def)
qed

text \<open>C25: the walk of \<^verbatim>\<open>IsAncestor\<close> ends and decides whether one inode lies above another.\<close>

theorem is_ancestor_decides:
  assumes "meta_wf s"
  shows "IsAncestor s a x = Some (lies_above (den s) a x)"
  using wf_tree [OF assms] by (rule IsAncestor_above)

theorem is_ancestor_decides_witness:
  "lies_above (den demo) 2 3 \<and> \<not> lies_above (den demo) 2 4"
proof -
  have "IsAncestor demo 2 3 = Some True" "IsAncestor demo 2 4 = Some False"
    by code_simp+
  then show ?thesis
    using is_ancestor_decides [OF demo_wf] by auto
qed

text \<open>The entries of a directory, as \<^verbatim>\<open>ReadDir\<close> collects them when every child has an inode.\<close>

definition listed :: "MetaState \<Rightarrow> u64 \<Rightarrow> ((u64 \<times> string) \<times> u64) list \<Rightarrow> DirectoryEntry list" where
  "listed s i es = map (\<lambda>((p, n), c). \<lparr>de_name = n, de_attrs = the (omap_lookup (inodes s) c)\<rparr>)
     (filter (\<lambda>e. fst (fst e) = i) es)"

lemma readdir_loop_listed:
  assumes "\<And>p n c. ((p, n), c) \<in> set es \<Longrightarrow> omap_lookup (inodes s) c \<noteq> None"
  shows "readdir_loop s i es = Ok (listed s i es)"
  using assms
proof (induction es)
  case (Cons e es)
  obtain p n c where e: "e = ((p, n), c)"
    by (metis surj_pair)
  from Cons.prems [of p n c] obtain a where "omap_lookup (inodes s) c = Some a"
    by (auto simp: e)
  moreover have "readdir_loop s i es = Ok (listed s i es)"
    using Cons.prems by (intro Cons.IH) auto
  ultimately show ?case
    by (simp add: e listed_def)
qed (simp add: listed_def)

lemma listed_sorted: "sorted_wrt (<) (map de_name (listed s i (entries (dentries s))))"
proof -
  have "sorted_wrt (\<lambda>x y. fst x < fst y) (filter (\<lambda>e. fst (fst e) = i) (entries (dentries s)))"
    using skeys_entries [of "dentries s"] by (rule sorted_wrt_filter)
  then show ?thesis
    unfolding listed_def map_map sorted_wrt_map by (rule sorted_wrt_mono_rel [rotated]) (auto simp: less_prod_def)
qed

lemma in_listed:
  assumes "\<And>p n c. ((p, n), c) \<in> set (entries (dentries s)) \<Longrightarrow> omap_lookup (inodes s) c \<noteq> None"
  shows "\<lparr>de_name = n, de_attrs = a\<rparr> \<in> set (listed s i (entries (dentries s))) \<longleftrightarrow>
    (\<exists>c. den s (i, n) = Some c \<and> omap_lookup (inodes s) c = Some a)"
proof
  assume "\<lparr>de_name = n, de_attrs = a\<rparr> \<in> set (listed s i (entries (dentries s)))"
  then obtain c where "((i, n), c) \<in> set (entries (dentries s))" "a = the (omap_lookup (inodes s) c)"
    by (auto simp: listed_def)
  then show "\<exists>c. den s (i, n) = Some c \<and> omap_lookup (inodes s) c = Some a"
    using assms [of i n c] by (auto simp: in_entries_iff den_def)
next
  assume "\<exists>c. den s (i, n) = Some c \<and> omap_lookup (inodes s) c = Some a"
  then obtain c where "((i, n), c) \<in> set (filter (\<lambda>e. fst (fst e) = i) (entries (dentries s)))"
    "omap_lookup (inodes s) c = Some a"
    by (auto simp: in_entries_iff den_def)
  then show "\<lparr>de_name = n, de_attrs = a\<rparr> \<in> set (listed s i (entries (dentries s)))"
    unfolding listed_def set_map by (intro image_eqI [where x = "((i, n), c)"]) simp_all
qed

lemma Lookup_child:
  assumes "meta_wf s" and "itype s i = Some DIR"
  shows "Lookup i n s = Ok a \<longleftrightarrow> (\<exists>c. den s (i, n) = Some c \<and> omap_lookup (inodes s) c = Some a)"
proof (cases "den s (i, n)")
  case (Some c)
  then have "ValidateParent s i n = Inr ()"
    using wf_name [OF assms(1) Some] assms(2) by (simp add: ValidateParent_Inr)
  with Some show ?thesis
    by (auto simp: Lookup_def return_inode_def den_def split: option.splits)
qed (auto simp: Lookup_def den_def split: sum.splits)

text \<open>C26: listing a directory gives each of its entries once, in strictly increasing order of
  name, with the attributes that a lookup of the name returns; anything but a directory is
  refused.\<close>

theorem readdir_complete:
  assumes "meta_wf s"
  shows "case itype s i of
      None \<Rightarrow> \<exists>e. ReadDir i s = Err e \<and> kind e = NotFound (to_string i)
    | Some ty \<Rightarrow>
        if ty = INODE_TYPE_DIRECTORY
        then \<exists>ds. ReadDir i s = Ok ds \<and> sorted_wrt (<) (map de_name ds) \<and>
          (\<forall>n a. \<lparr>de_name = n, de_attrs = a\<rparr> \<in> set ds \<longleftrightarrow> Lookup i n s = Ok a)
        else \<exists>e. ReadDir i s = Err e \<and> kind e = NotDirectory (to_string i)"
proof (cases "itype s i = Some DIR")
  case True
  have known: "omap_lookup (inodes s) c \<noteq> None" if "((p, n), c) \<in> set (entries (dentries s))" for p n c
    using that ns_tree_child [OF wf_tree [OF assms], of p n c]
    by (auto simp: in_entries_iff den_def itype_def)
  have "ReadDir i s = Ok (listed s i (entries (dentries s)))"
    using True readdir_loop_listed [OF known] by (auto simp: ReadDir_def itype_def)
  then show ?thesis
    using True listed_sorted in_listed [OF known] Lookup_child [OF assms True] by auto
qed (auto simp: ReadDir_def itype_def MakeError_def split: option.split)

theorem readdir_complete_witness:
  "\<exists>ds. ReadDir 1 demo = Ok ds \<and> map de_name ds = [''d'', ''g''] \<and>
     (\<forall>n a. \<lparr>de_name = n, de_attrs = a\<rparr> \<in> set ds \<longleftrightarrow> Lookup 1 n demo = Ok a)"
proof -
  have "itype demo 1 = Some DIR"
    by (simp add: itype_def demo_lookups)
  moreover have "(case ReadDir 1 demo of Ok ds \<Rightarrow> map de_name ds | _ \<Rightarrow> []) = [''d'', ''g'']"
    by code_simp
  ultimately show ?thesis
    using readdir_complete [OF demo_wf, of 1] by auto
qed

end
