(* ===== verification/Data_Properties.thy ===== *)
theory Data_Properties
  imports Examples
begin

text \<open>
  The properties of file data: merging extents overwrites, and the operations that write,
  append and truncate do so on the contents of one file.
\<close>

section \<open>Extents\<close>



text \<open>The result does not depend on how the sort orders equal offsets: any list that is
  sorted by offset and has the pushed pieces as its elements is the result.\<close>

lemma merge_sort_independent:
  assumes "laid_out es" and "proper e"
    and "mset ys = mset (concat (map (merge_pieces e) es) @ [e])" and "sorted (map offset ys)"
  shows "ys = MergeExtent es e"
  using assms by (rule MergeExtent_any_sort)

lemma merge_sort_independent_example:
  "[extent_at 0 2 ''b'', extent_at 4 4 ''a''] = MergeExtent [extent_at 4 4 ''a''] (extent_at 0 2 ''b'')"
  by (rule merge_sort_independent)
    (simp_all add: laid_out_def proper_def ExtentEnd_def extent_at_def merge_pieces_def Overlaps_def)

section \<open>Writing\<close>

lemma CommitWrite_effect:
  assumes "machine_ok s" and "itype s i = Some INODE_TYPE_FILE" and "admissible 0 es"
  shows "\<exists>a s'. CommitWrite i base es now s = (Ok a, s') \<and> GetAttr i s' = Ok a \<and>
    file_content s' i = overwrite_all es (file_content s i) \<and>
    a_size a = Max (insert (file_size s i) (ExtentEnd ` set es)) \<and> file_size s' i = a_size a \<and>
    (\<forall>j. j \<noteq> i \<longrightarrow> file_view s' j = file_view s j) \<and> dentries s' = dentries s"
proof -
  have wf: "meta_wf s" "data_ok s"
    using assms(1) by (simp_all add: machine_ok_def)
  obtain a l where f: "omap_lookup (inodes s) i = Some a" "a_type a = INODE_TYPE_FILE"
    "omap_lookup (layouts s) i = Some l" "l_attrs l = a"
    and v: "laid_out (extents l)" "file_size s i = a_size a" "file_content s i = content (extents l)"
    using file_of [OF wf assms(2)] by metis
  let ?n = "commit_size (a_size a) es"
  have acc: "\<forall>e\<in>set es. accepted e"
    using assms(3) by (simp add: admissible_def)
  obtain s' where s': "CommitWrite i base es now s = (Ok (wrote ?n now a), s')" "dentries s' = dentries s"
    and w: "\<And>j. file_view s' j = (if j = i then Some (?n, fst (commit_loop (extents l) es)) else file_view s j)"
    using CommitWrite_view [OF f acc, where base = base and now = now] by metis
  have "GetAttr i s' = Ok (wrote ?n now a)"
    using CommitWrite_closed [OF f surjective_pairing, where es = es and base = base and now = now] s'(1) commit_loop_valid [of "extents l" es] acc
    by (auto simp: GetAttr_def)
  moreover have "file_view s' i = Some (?n, fst (commit_loop (extents l) es))"
    by (simp add: w)
  note file_view_SomeD [OF this]
  ultimately show ?thesis
    using s' w commit_loop_spec [OF v(1) assms(3)] v commit_size_Max [of "a_size a" es] by simp
qed



lemma AppendWrite_effect:
  assumes "machine_ok s" and "itype s i = Some INODE_TYPE_FILE" and "admissible (file_size s i) es"
  shows "\<exists>r s'. AppendWrite i base es now s = (Ok r, s') \<and> GetAttr i s' = Ok (ar_attrs r) \<and>
    append_start r = file_size s i \<and>
    committed_extents r = map (shift_extent (file_size s i)) es \<and>
    file_content s' i = overwrite_all (committed_extents r) (file_content s i) \<and>
    (\<forall>p < file_size s i. file_content s' i p = file_content s i p) \<and>
    a_size (ar_attrs r) = file_size s i + Max (insert 0 (ExtentEnd ` set es)) \<and>
    file_size s i \<le> a_size (ar_attrs r) \<and>
    (\<forall>j. j \<noteq> i \<longrightarrow> file_view s' j = file_view s j) \<and> dentries s' = dentries s"
proof -
  have wf: "meta_wf s" "data_ok s"
    using assms(1) by (simp_all add: machine_ok_def)
  obtain a l where f: "omap_lookup (inodes s) i = Some a" "a_type a = INODE_TYPE_FILE"
    "omap_lookup (layouts s) i = Some l" "l_attrs l = a"
    and v: "laid_out (extents l)" "file_size s i = a_size a" "file_content s i = content (extents l)"
    using file_of [OF wf assms(2)] by metis
  let ?new = "map (shift_extent (a_size a)) es"
  let ?n = "a_size a + append_length es"
  let ?r = "\<lparr>ar_attrs = wrote ?n now a, append_start = a_size a, committed_extents = ?new\<rparr>"
  have adm: "admissible (a_size a) es"
    using assms(3) v(2) by simp
  then have acc: "\<forall>e\<in>set es. accepted e"
    by (simp add: admissible_def)
  obtain s' where s': "AppendWrite i base es now s = (Ok ?r, s')" "dentries s' = dentries s"
    and w: "\<And>j. file_view s' j = (if j = i then Some (?n, fst (commit_loop (extents l) ?new)) else file_view s j)"
    and g: "GetAttr i s' = Ok (wrote ?n now a)"
    using AppendWrite_view [OF f acc, where base = base and now = now] by metis
  have "file_view s' i = Some (?n, fst (commit_loop (extents l) ?new))"
    by (simp add: w)
  note view = file_view_SomeD [OF this]
  have c: "file_content s' i = overwrite_all ?new (file_content s i)"
    using view(2) commit_loop_spec [OF v(1) admissible_shift [OF adm]] v(3) by simp
  have "file_content s' i p = file_content s i p" if p: "p < a_size a" for p
    unfolding c
  proof (rule overwrite_all_outside)
    fix e
    assume "e \<in> set ?new"
    then obtain x where x: "x \<in> set es" "e = shift_extent (a_size a) x"
      by auto
    have "a_size a \<le> offset e"
      using fits_unat(1) [of "a_size a" x] adm x by (simp add: word_le_nat_alt admissible_def del: shift_extent_sel)
    with p show "\<not> covers e p"
      by (auto simp: covers_def)
  qed
  moreover have "append_length es = Max (insert 0 (ExtentEnd ` set es))"
    using commit_size_Max [of 0 es] by (simp add: append_length_def commit_size_fold)
  ultimately show ?thesis
    using s' w c g v(2) append_end(1) [OF adm] by simp
qed



text \<open>C17: a truncation of a file succeeds, makes it as long as asked, keeps its bytes below
  that length and drops the rest, and changes no other file and no name.\<close>

theorem truncate_cuts:
  assumes "machine_ok s" and "itype s i = Some INODE_TYPE_FILE"
  shows "\<exists>a s'. Truncate i sz now s = (Ok a, s') \<and> a_size a = sz \<and> file_size s' i = sz \<and>
    (\<forall>p. file_content s' i p = (if p < sz then file_content s i p else None)) \<and>
    (\<forall>j. j \<noteq> i \<longrightarrow> file_view s' j = file_view s j) \<and> dentries s' = dentries s"
proof -
  have wf: "meta_wf s" "data_ok s"
    using assms(1) by (simp_all add: machine_ok_def)
  obtain a l where f: "omap_lookup (inodes s) i = Some a" "a_type a = INODE_TYPE_FILE"
    "omap_lookup (layouts s) i = Some l" "l_attrs l = a"
    and v: "laid_out (extents l)" "file_content s i = content (extents l)"
    using file_of [OF wf assms(2)] by metis
  obtain s' where s': "Truncate i sz now s = (Ok (wrote sz now a), s')" "dentries s' = dentries s"
    and w: "\<And>j. file_view s' j = (if j = i then Some (sz, truncate_extents sz (extents l)) else file_view s j)"
    using Truncate_view [OF f, where sz = sz and now = now] by metis
  have "file_view s' i = Some (sz, truncate_extents sz (extents l))"
    by (simp add: w)
  note view = file_view_SomeD [OF this]
  show ?thesis
    using s' w view v truncate_extents_content [OF v(1)] by simp
qed

theorem truncate_cuts_witness:
  "\<exists>a s'. Truncate 3 3 9 demo = (Ok a, s') \<and> a_size a = 3 \<and>
     (\<forall>p. file_content s' 3 p = (if p < 3 then file_content demo 3 p else None))"
proof -
  have "itype demo 3 = Some INODE_TYPE_FILE"
    by (simp add: itype_def demo_lookups)
  from truncate_cuts [OF demo_ok this, of 3 9] show ?thesis
    by (elim exE conjE) (intro exI conjI, assumption+)
qed

section \<open>What the checks of a write leave open\<close>

text \<open>C37: a write is not atomic: when an extent is refused, the error is reported, but the
  extents before it have been merged and stay, while size and version are those of before.\<close>

theorem commit_write_not_atomic:
  assumes "machine_ok s" and "itype s i = Some INODE_TYPE_FILE"
    and "admissible 0 es" and "\<not> accepted bad"
  shows "\<exists>e s'. CommitWrite i base (es @ bad # rest) now s = (Err e, s') \<and> kind e = InvalidArgument \<and>
    file_content s' i = overwrite_all es (file_content s i) \<and> file_size s' i = file_size s i \<and>
    GetAttr i s' = GetAttr i s"
proof -
  have wf: "meta_wf s" "data_ok s"
    using assms(1) by (simp_all add: machine_ok_def)
  obtain a l where f: "omap_lookup (inodes s) i = Some a" "a_type a = INODE_TYPE_FILE"
    "omap_lookup (layouts s) i = Some l" "l_attrs l = a"
    and v: "laid_out (extents l)" "file_content s i = content (extents l)"
    using file_of [OF wf assms(2)] by metis
  have "commit_loop old (es @ bad # rest) = (fst (commit_loop old es), False)" for old
    using assms(3,4) by (induction es arbitrary: old) (auto simp: accepted_def)
  note CommitWrite_closed [OF f this, where base = base and now = now]
  moreover have "content (fst (commit_loop (extents l) es)) = overwrite_all es (content (extents l))"
    using commit_loop_spec [OF v(1) assms(3)] by simp
  ultimately show ?thesis
    using f(1) v(2) by (simp add: MakeError_def file_content_def file_size_def GetAttr_def)
qed

theorem commit_write_not_atomic_witness:
  "\<exists>e s'. CommitWrite 3 1 [extent_at 0 4 ''k9'', extent_at 4 0 ''k9''] 9 demo = (Err e, s') \<and>
     file_content s' 3 = overwrite (extent_at 0 4 ''k9'') (file_content demo 3)"
proof -
  have "itype demo 3 = Some INODE_TYPE_FILE" "\<not> accepted (extent_at 4 0 ''k9'')"
    by (simp_all add: itype_def demo_lookups accepted_def extent_at_def)
  moreover have "admissible 0 [extent_at 0 4 ''k9'']"
    by code_simp
  ultimately show ?thesis
    using commit_write_not_atomic [OF demo_ok, of 3 "[extent_at 0 4 ''k9'']" "extent_at 4 0 ''k9''" 1 "[]" 9]
    by auto
qed

text \<open>C38: an extent whose end does not fit in 64 bits is accepted, and the write is
  acknowledged without a byte of it becoming part of the file.\<close>

theorem wrapping_write_lost:
  assumes "machine_ok s" and "itype s i = Some INODE_TYPE_FILE"
    and "accepted e" and "\<not> fits 0 e"
  shows "\<exists>a s'. CommitWrite i base [e] now s = (Ok a, s') \<and> file_content s' i = file_content s i"
proof -
  have wf: "meta_wf s" "data_ok s"
    using assms(1) by (simp_all add: machine_ok_def)
  obtain a l where f: "omap_lookup (inodes s) i = Some a" "a_type a = INODE_TYPE_FILE"
    "omap_lookup (layouts s) i = Some l" "l_attrs l = a"
    and v: "laid_out (extents l)" "file_content s i = content (extents l)"
    using file_of [OF wf assms(2)] by metis
  have "commit_loop (extents l) [e] = (MergeExtent (extents l) e, True)"
    using assms(3) by (simp add: accepted_def)
  note CommitWrite_closed [OF f this, where base = base and now = now]
  moreover have "\<not> proper e"
    using assms(4) by (simp add: proper_iff fits_def)
  ultimately show ?thesis
    using v(2) MergeExtent_improper [OF v(1)] by (simp add: file_content_def)
qed

theorem wrapping_write_lost_witness:
  "\<exists>a s'. CommitWrite 3 1 [extent_at (-4) 8 ''k9''] 9 demo = (Ok a, s') \<and>
     file_content s' 3 = file_content demo 3"
proof (rule wrapping_write_lost [OF demo_ok])
  show "itype demo 3 = Some INODE_TYPE_FILE"
    by (simp add: itype_def demo_lookups)
  show "accepted (extent_at (-4) 8 ''k9'')"
    by (simp add: accepted_def extent_at_def)
  show "\<not> fits 0 (extent_at (-4) 8 ''k9'')"
    by code_simp
qed

section \<open>Live objects\<close>

lemma sorted_remdups_adj_strict:
  fixes xs :: "'a::linorder list"
  shows "sorted xs \<Longrightarrow> sorted_wrt (<) (remdups_adj xs)"
proof (induction xs rule: remdups_adj.induct)
  case (3 x y xs)
  then show ?case
    by (auto simp: order.strict_iff_order)
qed simp_all

lemma in_ListLiveObjects:
  "k \<in> set (ListLiveObjects s) \<longleftrightarrow>
     (\<exists>i l e. omap_lookup (layouts s) i = Some l \<and> e \<in> set (extents l) \<and> object_key e = k \<and> k \<noteq> [])"
proof -
  have "k \<in> set (ListLiveObjects s) \<longleftrightarrow>
      (\<exists>e\<in>set (entries (layouts s)). k \<noteq> [] \<and> k \<in> object_key ` set (extents (snd e)))"
    by (auto simp: ListLiveObjects_def split_beta)
  also have "\<dots> \<longleftrightarrow> (\<exists>i l. (i, l) \<in> set (entries (layouts s)) \<and> k \<noteq> [] \<and> k \<in> object_key ` set (extents l))"
    by force
  finally show ?thesis
    unfolding in_entries_iff by blast
qed

lemma live_objects_exact_iff:
  assumes "machine_ok s"
  shows "k \<in> set (ListLiveObjects s) \<longleftrightarrow> (\<exists>i p off. file_content s i p = Some (k, off))"
proof -
  have ok: "data_ok s" and wf: "meta_wf s"
    using assms by (simp_all add: machine_ok_def)
  have "k \<in> set (ListLiveObjects s) \<longleftrightarrow>
      (\<exists>i l e. omap_lookup (layouts s) i = Some l \<and> e \<in> set (extents l) \<and> object_key e = k \<and> k \<noteq> [])"
    by (rule in_ListLiveObjects)
  also have "\<dots> \<longleftrightarrow> (\<exists>i p off. file_content s i p = Some (k, off))"
  proof
    assume "\<exists>i l e. omap_lookup (layouts s) i = Some l \<and> e \<in> set (extents l) \<and> object_key e = k \<and> k \<noteq> []"
    then obtain i l e where e: "omap_lookup (layouts s) i = Some l" "e \<in> set (extents l)" "object_key e = k"
      by auto
    have "laid_out (extents l)"
      using ok e(1) by (simp add: data_ok_def)
    then have "content (extents l) (offset e) = Some (source_of e (offset e))"
      using e(2) by (auto simp: content_Some_iff [OF laid_out_disjoint] laid_out_def intro: covers_offset)
    with e(1,3) have "file_content s i (offset e) = Some (k, object_offset e)"
      by (simp add: file_content_def source_of_def)
    then show "\<exists>i p off. file_content s i p = Some (k, off)"
      by blast
  next
    assume "\<exists>i p off. file_content s i p = Some (k, off)"
    then obtain i p off l where l: "omap_lookup (layouts s) i = Some l" "content (extents l) p = Some (k, off)"
      by (auto simp: file_content_def split: option.splits)
    have "laid_out (extents l)" "[] \<notin> object_key ` set (extents l)"
      using ok l(1) by (simp_all add: data_ok_def)
    with l show "\<exists>i l e. omap_lookup (layouts s) i = Some l \<and> e \<in> set (extents l) \<and> object_key e = k \<and> k \<noteq> []"
      by (auto simp: content_Some_iff [OF laid_out_disjoint] source_of_def) (metis image_eqI)
  qed
  finally show "k \<in> set (ListLiveObjects s) \<longleftrightarrow> (\<exists>i p off. file_content s i p = Some (k, off))" .
qed



end
