(* ===== verification/Meta_Rpc.thy ===== *)
theory Meta_Rpc
  imports Meta_Service
begin

text \<open>
  The RPC handlers of \<^verbatim>\<open>src/meta_service.cc\<close> and its snapshot hooks.  The Raft library
  and the generated message code are parameters.  The handlers run on a world \<open>'w\<close> that
  holds the whole cluster; the record \<open>raft_node\<close> gives the two calls to \<^verbatim>\<open>Raftor\<close>, the
  metadata state of this node in a world, and the wire functions of the messages.  A
  handler returns the status it sends, with the reply when the status is OK.
\<close>

section \<open>The Raft library and the wire\<close>

record 'w raft_node =
  ProposeSync :: "string \<Rightarrow> 'w \<Rightarrow> (raft_error + string) \<times> 'w"
  ReadIndexSync :: "string \<Rightarrow> 'w \<Rightarrow> (raft_error + unit) \<times> 'w"
  node_state :: "'w \<Rightarrow> MetaState"
  SerializeCommand :: "RaftCommand \<Rightarrow> string"
  ParseResponse :: "string \<Rightarrow> RaftCommandResponse option"

text \<open>\<^verbatim>\<open>raftor_\<close> is a pointer that is null before \<^verbatim>\<open>SetRaftor\<close>.\<close>

record 'w MetaService =
  raftor :: bool
  node :: "'w raft_node"

definition raftor_missing :: Error where
  "raftor_missing = MakeError Internal ''raftor is not initialized''"

section \<open>Proposing and reading\<close>

definition LinearizableRead :: "'w MetaService \<Rightarrow> string \<Rightarrow> 'w \<Rightarrow> unit Result \<times> 'w" where
  "LinearizableRead svc ctxt w =
     (if \<not> raftor svc then (Inl raftor_missing, w)
      else case ReadIndexSync (node svc) ctxt w of
             (Inl e, w) \<Rightarrow> (Inl (FromRaftError e), w)
           | (Inr _, w) \<Rightarrow> (Inr (), w))"

definition ProposeInodeCommand :: "'w MetaService \<Rightarrow> RaftCommand \<Rightarrow> 'w \<Rightarrow> InodeAttrs Result \<times> 'w" where
  "ProposeInodeCommand svc command w =
     (if \<not> raftor svc then (Inl raftor_missing, w)
      else case ProposeSync (node svc) (SerializeCommand (node svc) command) w of
             (Inl e, w) \<Rightarrow> (Inl (FromRaftError e), w)
           | (Inr bytes, w) \<Rightarrow>
               ((case ParseResponse (node svc) bytes of
                   None \<Rightarrow> Inl (MakeError Internal ''failed to parse raft command response'')
                 | Some (ErrorResponseOf e) \<Rightarrow> Inl (ErrorFromResponse e)
                 | Some (AttrsResponse a) \<Rightarrow> Inr a
                 | Some _ \<Rightarrow> Inl (MakeError Internal ''raft command returned no inode attrs'')), w))"

definition ProposeAppendWriteCommand ::
  "'w MetaService \<Rightarrow> RaftCommand \<Rightarrow> 'w \<Rightarrow> AppendWriteReply Result \<times> 'w" where
  "ProposeAppendWriteCommand svc command w =
     (if \<not> raftor svc then (Inl raftor_missing, w)
      else case ProposeSync (node svc) (SerializeCommand (node svc) command) w of
             (Inl e, w) \<Rightarrow> (Inl (FromRaftError e), w)
           | (Inr bytes, w) \<Rightarrow>
               ((case ParseResponse (node svc) bytes of
                   None \<Rightarrow> Inl (MakeError Internal ''failed to parse raft command response'')
                 | Some (ErrorResponseOf e) \<Rightarrow> Inl (ErrorFromResponse e)
                 | Some (AppendWriteResponse r) \<Rightarrow> Inr r
                 | Some _ \<Rightarrow> Inl (MakeError Internal ''raft command returned no append write result'')), w))"

section \<open>Handlers\<close>

text \<open>What every handler ends with: the status of an error, or OK with the reply.\<close>

fun reply_of :: "'a Result \<Rightarrow> Status + 'a" where
  "reply_of (Inl e) = Inl (ToGrpcStatus e)"
| "reply_of (Inr a) = Inr a"

text \<open>
  A read handler: a linearizable read, then a query of the state under the shared lock.  A
  query that throws leaves the handler by the exception, here \<open>None\<close>.
\<close>

definition read_handler ::
  "'w MetaService \<Rightarrow> string \<Rightarrow> (MetaState \<Rightarrow> 'a outcome) \<Rightarrow> 'w \<Rightarrow> (Status + 'a) option \<times> 'w" where
  "read_handler svc ctxt query w =
     (case LinearizableRead svc ctxt w of
        (Inl e, w) \<Rightarrow> (Some (Inl (ToGrpcStatus e)), w)
      | (Inr _, w) \<Rightarrow>
          ((case query (node_state (node svc) w) of
              Ok a \<Rightarrow> Some (Inr a)
            | Err e \<Rightarrow> Some (Inl (ToGrpcStatus e))
            | _ \<Rightarrow> None), w))"

definition MkdirRpc where
  "MkdirRpc svc p name mode uid gid w =
     map_prod reply_of id (ProposeInodeCommand svc (MkdirCommand p name mode uid gid) w)"

definition CreateFileRpc where
  "CreateFileRpc svc p name mode uid gid w =
     map_prod reply_of id (ProposeInodeCommand svc (CreateFileCommand p name mode uid gid) w)"

definition SetAttrRpc where
  "SetAttrRpc svc request w =
     map_prod reply_of id (ProposeInodeCommand svc (SetAttrCommandOf request) w)"

definition UnlinkRpc where
  "UnlinkRpc svc p name w = map_prod reply_of id (ProposeInodeCommand svc (UnlinkCommand p name) w)"

definition RmdirRpc where
  "RmdirRpc svc p name w = map_prod reply_of id (ProposeInodeCommand svc (RmdirCommand p name) w)"

definition RenameRpc where
  "RenameRpc svc p name np nname w =
     map_prod reply_of id (ProposeInodeCommand svc (RenameCommand p name np nname) w)"

definition CommitWriteRpc where
  "CommitWriteRpc svc i base es w =
     map_prod reply_of id (ProposeInodeCommand svc (CommitWriteCommand i base es) w)"

definition TruncateRpc where
  "TruncateRpc svc i sz w = map_prod reply_of id (ProposeInodeCommand svc (TruncateCommand i sz) w)"

definition AppendWriteRpc where
  "AppendWriteRpc svc i base es w =
     map_prod reply_of id (ProposeAppendWriteCommand svc (AppendWriteCommand i base es) w)"

definition LookupRpc where
  "LookupRpc svc p name = read_handler svc ''lookup'' (Lookup p name)"

definition GetAttrRpc where
  "GetAttrRpc svc i = read_handler svc ''getattr'' (GetAttr i)"

definition ReadDirRpc where
  "ReadDirRpc svc i = read_handler svc ''readdir'' (ReadDir i)"

definition GetLayoutRpc where
  "GetLayoutRpc svc i = read_handler svc ''getlayout'' (GetLayout i)"

definition ListLiveObjectsRpc where
  "ListLiveObjectsRpc svc = read_handler svc ''list-live-objects'' (\<lambda>s. Ok (ListLiveObjects s))"

section \<open>Snapshots\<close>

text \<open>
  The metadata of a snapshot as the code fills it in, and the writer and reader of the
  Raft library as functions on their own state.  A read yields at most as many bytes as the
  4096-byte buffer holds, none at the end.
\<close>

record 'c SnapshotMetadata =
  snapshot_index :: u64
  snapshot_term :: u64
  conf_state :: 'c

definition TakeSnapshot ::
  "(MetaSnapshot \<Rightarrow> string) \<Rightarrow> (string \<Rightarrow> 'f \<Rightarrow> (raft_error + unit) \<times> 'f)
     \<Rightarrow> u64 \<Rightarrow> u64 \<Rightarrow> 'c \<Rightarrow> MetaState \<Rightarrow> 'f \<Rightarrow> (raft_error + 'c SnapshotMetadata) \<times> 'f" where
  "TakeSnapshot serialize write applied_index applied_term conf s f =
     (case write (SerializeSnapshot serialize s) f of
        (Inl e, f) \<Rightarrow> (Inl e, f)
      | (Inr _, f) \<Rightarrow>
          (Inr \<lparr>snapshot_index = applied_index, snapshot_term = applied_term, conf_state = conf\<rparr>, f))"

text \<open>The loop that collects the chunks; \<open>None\<close> is a reader that never comes to its end.\<close>

partial_function (option) read_chunks ::
  "('f \<Rightarrow> (raft_error + string) \<times> 'f) \<Rightarrow> string \<Rightarrow> 'f \<Rightarrow> (raft_error + string) option" where
  "read_chunks read snapshot f =
     (case read f of
        (Inl e, _) \<Rightarrow> Some (Inl e)
      | (Inr chunk, f) \<Rightarrow>
          if chunk = [] then Some (Inr snapshot) else read_chunks read (snapshot @ chunk) f)"

datatype restore_result = RestoreOk | ReaderFailed raft_error | StorageErrorOther string | ReaderHung

definition SnapshotError :: "Error \<Rightarrow> restore_result" where
  "SnapshotError e = StorageErrorOther (ErrorToString e)"

definition RestoreFromReader ::
  "(string \<Rightarrow> MetaSnapshot option) \<Rightarrow> ('f \<Rightarrow> (raft_error + string) \<times> 'f) \<Rightarrow> 'f \<Rightarrow> MetaState
     \<Rightarrow> restore_result \<times> MetaState" where
  "RestoreFromReader parse read f s =
     (case read_chunks read [] f of
        None \<Rightarrow> (ReaderHung, s)
      | Some (Inl e) \<Rightarrow> (ReaderFailed e, s)
      | Some (Inr snapshot) \<Rightarrow>
          (case RestoreSnapshot parse snapshot s of
             (Inl e, s) \<Rightarrow> (SnapshotError e, s)
           | (Inr _, s) \<Rightarrow> (RestoreOk, s)))"

text \<open>A reader of stored bytes in chunks of any positive size comes to its end and gives them all.\<close>

definition chunk_reader :: "('f \<Rightarrow> (raft_error + string) \<times> 'f) \<Rightarrow> ('f \<Rightarrow> string) \<Rightarrow> bool" where
  "chunk_reader read remaining \<longleftrightarrow> (\<forall>f. \<exists>chunk f'. read f = (Inr chunk, f') \<and>
     remaining f = chunk @ remaining f' \<and> (chunk = [] \<longrightarrow> remaining f = []))"

lemma read_chunks_all:
  assumes "chunk_reader read remaining"
  shows "read_chunks read acc f = Some (Inr (acc @ remaining f))"
proof (induction "length (remaining f)" arbitrary: acc f rule: less_induct)
  case less
  obtain chunk f' where r: "read f = (Inr chunk, f')" "remaining f = chunk @ remaining f'"
    "chunk = [] \<longrightarrow> remaining f = []"
    using assms unfolding chunk_reader_def by metis
  show ?case
  proof (cases "chunk = []")
    case False
    then have "read_chunks read (acc @ chunk) f' = Some (Inr ((acc @ chunk) @ remaining f'))"
      using r(2) by (intro less) simp
    with r False show ?thesis
      by (simp add: read_chunks.simps)
  qed (use r in \<open>simp add: read_chunks.simps\<close>)
qed

end
