(* ===== verification/Service_Properties.thy ===== *)
theory Service_Properties
  imports Examples Meta_Rpc
begin

text \<open>
  The properties of the service around the state machine: snapshots, replication, and what
  an RPC's answer says about the replicated state.
\<close>

section \<open>Snapshots\<close>

text \<open>C23: a snapshot taken of a well-formed state and read back in chunks, on any replica,
  restores exactly that state.\<close>

theorem snapshot_restores_state:
  assumes "meta_wf s" and "parse (serialize (to_snapshot s)) = Some (to_snapshot s)"
    and "writer (SerializeSnapshot serialize s) f = (Inr (), f')"
    and "chunk_reader read remaining" and "remaining f' = SerializeSnapshot serialize s"
  shows "TakeSnapshot serialize writer index trm conf s f =
      (Inr \<lparr>snapshot_index = index, snapshot_term = trm, conf_state = conf\<rparr>, f') \<and>
    RestoreFromReader parse read f' s0 = (RestoreOk, s)"
  using assms(3,5) read_chunks_all [OF assms(4), of "[]" f'] restore_serialized [where ?s0.0 = s0 and s = s and parse = parse and serialize = serialize, OF assms(1,2)]
  by (simp add: TakeSnapshot_def RestoreFromReader_def)

definition read_4096 :: "string \<Rightarrow> (raft_error + string) \<times> string" where
  "read_4096 f = (Inr (take 4096 f), drop 4096 f)"

lemma read_4096_chunks: "chunk_reader read_4096 id"
  by (auto simp: chunk_reader_def read_4096_def)

theorem snapshot_restores_state_witness:
  "RestoreFromReader (\<lambda>_. Some (to_snapshot demo)) read_4096 (replicate 5000 CHR ''x'') (MetaState_init 1 1)
     = (RestoreOk, demo)"
  by (rule snapshot_restores_state [OF demo_wf, where serialize = "\<lambda>_. replicate 5000 CHR ''x''"
        and writer = "\<lambda>data f. (Inr (), data)" and f = "[]" and remaining = "id"
        and index = "1" and trm = "1" and conf = "()", THEN conjunct2])
    (simp_all add: read_4096_chunks SerializeSnapshot_def)

text \<open>A restore that succeeds leaves a state with a root and without dangling entries or
  layouts; a restore that fails, or that never gets its data, leaves the state it found.\<close>

lemma restore_is_guarded:
  "case RestoreFromReader parse read f s of
     (RestoreOk, s') \<Rightarrow> no_dangling s'
   | (_, s') \<Rightarrow> s' = s"
proof (cases "read_chunks read [] f")
  case (Some r)
  show ?thesis
  proof (cases r)
    case (Inr bytes)
    with Some show ?thesis
      using restore_closed [where parse = parse and s = s and data = bytes]
      by (auto simp: RestoreFromReader_def SnapshotError_def split: prod.splits sum.splits)
  qed (use Some in \<open>simp add: RestoreFromReader_def\<close>)
qed (simp add: RestoreFromReader_def)

text \<open>A walk to the root that is caught in a set of inodes does not end.\<close>

lemma IsAncestor_caught:
  assumes "\<And>y. y \<in> C \<Longrightarrow> ParentOf s y \<in> C \<and> ParentOf s y \<noteq> y" and "kRootInodeId \<notin> C" and "a \<notin> C"
    and "x \<in> C"
  shows "IsAncestor s a x = None"
proof -
  have "t = s \<longrightarrow> b = a \<longrightarrow> x \<notin> C" if "IsAncestor t b x = Some r" for t b x r
  proof (rule IsAncestor.raw_induct [where P = "\<lambda>t b x r. t = s \<longrightarrow> b = a \<longrightarrow> x \<notin> C", OF _ that])
    fix walk t b x r
    assume IH: "\<And>t b x r. walk t b x = Some r \<Longrightarrow> t = s \<longrightarrow> b = a \<longrightarrow> x \<notin> C"
      and step: "(if x = kRootInodeId then Some (b = kRootInodeId) else if x = b then Some True
        else if ParentOf t x = x then Some False else walk t b (ParentOf t x)) = Some r"
    show "t = s \<longrightarrow> b = a \<longrightarrow> x \<notin> C"
      using step IH [of t b "ParentOf t x" r] assms(1) [of x] assms(2,3) by (auto split: if_splits)
  qed
  with assms(4) show ?thesis
    by (cases "IsAncestor s a x") auto
qed

definition dir_attrs :: "u64 \<Rightarrow> InodeAttrs" where
  "dir_attrs i = new_attrs i INODE_TYPE_DIRECTORY 448 0 0 0 0"

text \<open>Two directories that contain each other, and a third under the root.\<close>

definition cyclic_snapshot :: MetaSnapshot where
  "cyclic_snapshot = \<lparr>sn_next_inode_id = 5, sn_default_chunk_size = 4096,
     sn_inodes = map dir_attrs [1, 2, 3, 4],
     sn_dentries =
       [\<lparr>sd_parent_inode_id = 2, sd_name = ''a'', sd_child_inode_id = 3\<rparr>,
        \<lparr>sd_parent_inode_id = 3, sd_name = ''b'', sd_child_inode_id = 2\<rparr>,
        \<lparr>sd_parent_inode_id = 1, sd_name = ''c'', sd_child_inode_id = 4\<rparr>],
     sn_layouts = []\<rparr>"

text \<open>C40: the checks of a restore do not exclude directories that contain each other: such a
  snapshot is accepted, and a rename into one of them then never returns.\<close>

theorem restore_accepts_cycle:
  "\<exists>s'. RestoreSnapshot (\<lambda>_. Some cyclic_snapshot) data s = (Inr (), s') \<and>
     fst (Rename 1 ''c'' 2 ''d'' now0 now s') = NoReturn"
proof -
  define s' where "s' = snd (RestoreSnapshot (\<lambda>_. Some cyclic_snapshot) data s)"
  let ?d = "omap_emplace (1, ''c'') 4 (omap_emplace (3, ''b'') 2 (omap_emplace (2, ''a'') 3 omap_empty))
    :: (u64 \<times> string, u64) omap"
  let ?i = "restore_inodes (map dir_attrs [1, 2, 3, 4])"
  have ino: "omap_lookup ?i 1 = Some (dir_attrs 1)" "omap_lookup ?i 2 = Some (dir_attrs 2)"
    "omap_lookup ?i 3 = Some (dir_attrs 3)" "omap_lookup ?i 4 = Some (dir_attrs 4)"
    by (simp_all add: restore_inodes_def dir_attrs_def)
  have r: "RestoreSnapshot (\<lambda>_. Some cyclic_snapshot) data s = (Inr (), s')"
    "dentries s' = ?d" "inodes s' = ?i"
    using ino by (simp_all add: s'_def RestoreSnapshot_def cyclic_snapshot_def kRootInodeId_def)
  have e: "entries ?d = [((1, ''c''), 4), ((2, ''a''), 3), ((3, ''b''), 2)]"
    by code_simp
  have parents: "ParentOf s' 2 = 3" "ParentOf s' 3 = 2"
    by (simp_all add: ParentOf_def r(2) e kRootInodeId_def)
  have walk: "IsAncestor s' 4 2 = None"
    by (rule IsAncestor_caught [where C = "{2, 3}"]) (auto simp: parents kRootInodeId_def)
  have "ValidateParent s' 1 ''c'' = Inr ()" "ValidateParent s' 2 ''d'' = Inr ()"
    unfolding ValidateParent_def ValidateName_def r(3) ino by (simp_all add: dir_attrs_def)
  moreover have "omap_lookup (dentries s') (1, ''c'') = Some 4" "a_type (dir_attrs 4) = DIR"
    by (simp_all add: r(2) dir_attrs_def)
  ultimately have "fst (Rename 1 ''c'' 2 ''d'' now0 now s') = NoReturn"
    using ino(4) walk by (simp add: Rename_def r(3))
  with r(1) show ?thesis
    by blast
qed

section \<open>Replication\<close>

text \<open>C24: replicas that apply the same commands from the same state agree on everything but
  the time stamps, in the state and in every response, whatever their clocks read.\<close>

theorem replicas_agree_modulo_times:
  assumes "map fst log = map fst log'"
  shows "sview (run_log apply_command log s) = sview (run_log apply_command log' s) \<and>
    map (view_outcome strip_response) (responses apply_command log s) =
      map (view_outcome strip_response) (responses apply_command log' s)"
  using assms refl by (rule replicas.replicas_agree)

theorem replicas_agree_modulo_times_witness:
  "sview (run_log apply_command demo_log (MetaState_init 4096 1)) =
   sview (run_log apply_command (map (\<lambda>(c, _). (c, \<lambda>n. 70 + of_nat n)) demo_log) (MetaState_init 4096 1))"
  by (rule replicas_agree_modulo_times [THEN conjunct1]) (simp add: demo_log_def)

text \<open>The clock of the replica that applies a command becomes part of its state: two
  replicas that create the same directory at different times differ afterwards.\<close>

lemma clock_enters_state:
  assumes "meta_wf s" and "create_error (itype s) (den s) p n = None" and "clk 0 \<noteq> clk' 0"
  shows "snd (apply_command (MkdirCommand p n mode uid gid) clk s) \<noteq>
    snd (apply_command (MkdirCommand p n mode uid gid) clk' s)"
proof -
  have t: "\<exists>a. omap_lookup (inodes (snd (Mkdir p n mode uid gid now s))) (next_inode_id s) = Some a \<and>
      mtime_ns a = now" for now
    using assms(1)
  proof (cases rule: CreateNode_cases [where p = p and name = n and type = DIR and mode = mode
        and uid = uid and gid = gid and now = now])
    case (failed e)
    then show ?thesis
      using CreateNode_meets [OF assms(1), of p n DIR mode uid gid now] assms(2) by (simp add: meets_def)
  qed (simp add: Mkdir_def new_attrs_def)
  show ?thesis
    using t [of "clk 0"] t [of "clk' 0"] assms(3) by auto
qed

lemma clock_enters_state_example:
  "snd (apply_command (MkdirCommand 1 ''x'' 448 0 0) (\<lambda>_. 3) demo) \<noteq>
   snd (apply_command (MkdirCommand 1 ''x'' 448 0 0) (\<lambda>_. 4) demo)"
proof (rule clock_enters_state [OF demo_wf])
  have "succeeds (CreateNode 1 ''x'' INODE_TYPE_DIRECTORY 448 0 0 3 demo)"
    by code_simp
  with CreateNode_meets [OF demo_wf, of 1 "''x''" DIR 448 0 0 3]
  show "create_error (itype demo) (den demo) 1 ''x'' = None"
    by (auto simp: meets_def succeeds_def split: option.splits)
qed simp

end
