(* ===== verification/Object_Store.thy ===== *)
theory Object_Store
  imports Ordered_Map Errors
begin

text \<open>
  \<^verbatim>\<open>src/object/object_store.h\<close>: the interface of an object store, as a locale, with the
  contract its clients rely on: a store holds byte strings under keys of buckets, a ranged
  read inside an object gives those bytes, and a write replaces one object.  The
  interface is interpreted on the in-memory store of \<^verbatim>\<open>tests/fuse_file_io_test.cc\<close>.
\<close>

section \<open>Requests and results\<close>

type_synonym bytes = "u8 list"

record PutObjectRequest =
  put_bucket :: string
  put_key :: string
  put_body :: bytes
  content_type :: string

record PutObjectResult =
  put_etag :: string
  put_size :: u64

record GetObjectRequest =
  get_bucket :: string
  get_key :: string
  get_offset :: "u64 option"
  get_length :: "u64 option"

record GetObjectResult =
  get_body :: bytes
  get_etag :: string
  content_length :: u64

record DeleteObjectRequest =
  delete_bucket :: string
  delete_key :: string

record ObjectInfo =
  info_key :: string
  info_size :: u64
  last_modified_ms :: i64

record ListObjectsRequest =
  list_bucket :: string
  list_prefix :: string
  continuation_token :: string

record ListObjectsResult =
  objects :: "ObjectInfo list"
  next_continuation_token :: string

text \<open>A request for one object as a whole, and for a byte range of it.\<close>

definition range_request :: "string \<Rightarrow> string \<Rightarrow> u64 \<Rightarrow> u64 \<Rightarrow> GetObjectRequest" where
  "range_request bucket key off l =
     \<lparr>get_bucket = bucket, get_key = key, get_offset = Some off, get_length = Some l\<rparr>"

section \<open>The contract\<close>

text \<open>
  A store state \<open>'w\<close> holds objects (\<open>holds\<close>).  Reading does not change it.
\<close>

locale object_store =
  fixes GetObject :: "GetObjectRequest \<Rightarrow> 'w \<Rightarrow> GetObjectResult Result"
    and PutObject :: "PutObjectRequest \<Rightarrow> 'w \<Rightarrow> PutObjectResult Result \<times> 'w"
    and DeleteObject :: "DeleteObjectRequest \<Rightarrow> 'w \<Rightarrow> unit Result \<times> 'w"
    and holds :: "'w \<Rightarrow> string \<Rightarrow> string \<Rightarrow> bytes option"
  assumes get_range:
      "holds w bucket key = Some body \<Longrightarrow> unat off + unat l \<le> length body \<Longrightarrow>
        length body < 2 ^ 64 \<Longrightarrow> l \<noteq> 0 \<Longrightarrow>
        \<exists>r. GetObject (range_request bucket key off l) w = Inr r \<and>
          get_body r = take (unat l) (drop (unat off) body)"
    and put_holds:
      "PutObject req w = (Inr r, w') \<Longrightarrow>
        holds w' b k = (if b = put_bucket req \<and> k = put_key req then Some (put_body req) else holds w b k)"
    and delete_holds:
      "DeleteObject dreq w = (Inr (), w') \<Longrightarrow>
        holds w' b k = (if b = delete_bucket dreq \<and> k = delete_key dreq then None else holds w b k)"
begin

text \<open>What was written is read back, whole or in part, until the key is written or deleted.\<close>

lemma get_after_put:
  assumes "PutObject req w = (Inr r, w')" and "unat off + unat l \<le> length (put_body req)"
    and "length (put_body req) < 2 ^ 64" and "l \<noteq> 0"
  shows "\<exists>g. GetObject (range_request (put_bucket req) (put_key req) off l) w' = Inr g \<and>
    get_body g = take (unat l) (drop (unat off) (put_body req))"
  using assms(2-4) by (intro get_range) (simp_all add: put_holds [OF assms(1)])

end

section \<open>The store of the tests\<close>

type_synonym FakeObjectStore = "(string \<times> string, bytes) omap"

definition Fake_PutObject ::
  "PutObjectRequest \<Rightarrow> FakeObjectStore \<Rightarrow> PutObjectResult Result \<times> FakeObjectStore" where
  "Fake_PutObject req m =
     (Inr \<lparr>put_etag = ''fake'', put_size = of_nat (length (put_body req))\<rparr>,
      omap_put (put_bucket req, put_key req) (put_body req) m)"

definition Fake_GetObject :: "GetObjectRequest \<Rightarrow> FakeObjectStore \<Rightarrow> GetObjectResult Result" where
  "Fake_GetObject req m =
     (case omap_lookup m (get_bucket req, get_key req) of
        None \<Rightarrow> Inl (MakeError (NotFound (get_key req)) ''object not found'')
      | Some body \<Rightarrow>
          let sz = of_nat (length body);
              off = (case get_offset req of None \<Rightarrow> 0 | Some off \<Rightarrow> off);
              l = (case get_length req of None \<Rightarrow> sz - off | Some l \<Rightarrow> l)
          in if off > sz then Inr \<lparr>get_body = [], get_etag = [], content_length = 0\<rparr>
             else let last = min (off + l) sz;
                      result = take (unat last - unat off) (drop (unat off) body)
                  in Inr \<lparr>get_body = result, get_etag = [], content_length = of_nat (length result)\<rparr>)"

definition Fake_DeleteObject ::
  "DeleteObjectRequest \<Rightarrow> FakeObjectStore \<Rightarrow> unit Result \<times> FakeObjectStore" where
  "Fake_DeleteObject req m = (Inr (), omap_erase (delete_bucket req, delete_key req) m)"

definition Fake_ListObjects ::
  "ListObjectsRequest \<Rightarrow> FakeObjectStore \<Rightarrow> ListObjectsResult Result" where
  "Fake_ListObjects req m =
     Inr \<lparr>objects = map (\<lambda>((_, key), body).
            \<lparr>info_key = key, info_size = of_nat (length body), last_modified_ms = 0\<rparr>)
          (filter (\<lambda>((bucket, key), _). bucket = list_bucket req \<and>
             take (length (list_prefix req)) key = list_prefix req) (entries m)),
        next_continuation_token = []\<rparr>"

definition fake_holds :: "FakeObjectStore \<Rightarrow> string \<Rightarrow> string \<Rightarrow> bytes option" where
  "fake_holds m bucket key = omap_lookup m (bucket, key)"

lemma fake_get_range:
  assumes "fake_holds m bucket key = Some body" and "unat off + unat l \<le> length body"
    and "length body < 2 ^ 64"
  shows "\<exists>r. Fake_GetObject (range_request bucket key off l) m = Inr r \<and>
    get_body r = take (unat l) (drop (unat off) body)"
proof -
  have sz: "unat (of_nat (length body) :: u64) = length body"
    using assms(3) by (simp add: unat_of_nat)
  have "unat off + unat l < 2 ^ LENGTH(64)"
    using assms(2,3) by simp
  then have sum: "unat (off + l) = unat off + unat l"
    by (simp add: unat_word_ariths)
  have "\<not> off > of_nat (length body)" "off + l \<le> of_nat (length body)"
    using assms(2) sz sum by (simp_all add: word_less_nat_alt word_le_nat_alt)
  with assms(1) show ?thesis
    by (simp add: Fake_GetObject_def fake_holds_def range_request_def Let_def sum min_def)
qed

interpretation fake: object_store Fake_GetObject Fake_PutObject Fake_DeleteObject fake_holds
proof unfold_locales
  show "fake_holds w' b k =
      (if b = put_bucket req \<and> k = put_key req then Some (put_body req) else fake_holds w b k)"
    if "Fake_PutObject req w = (Inr r, w')" for req w r w' b k
    using that by (auto simp: Fake_PutObject_def fake_holds_def)
  show "fake_holds w' b k =
      (if b = delete_bucket dreq \<and> k = delete_key dreq then None else fake_holds w b k)"
    if "Fake_DeleteObject dreq w = (Inr (), w')" for dreq w w' b k
    using that by (auto simp: Fake_DeleteObject_def fake_holds_def)
qed (rule fake_get_range)

end
