(* ===== verification/File_IO.thy ===== *)
theory File_IO
  imports Object_Store Extents
begin

text \<open>
  \<^verbatim>\<open>src/fuse/file_io.h\<close> and \<^verbatim>\<open>src/fuse/file_io.cc\<close>: open files, the names of new
  objects, and reading a file whose writes are not yet committed.  The object store is a
  parameter; the lemmas about reading hold for every store that meets the contract.
\<close>

section \<open>Open files\<close>

record FuseFileHandle =
  h_inode_id :: u64
  writable :: bool
  append_mode :: bool
  layout :: FileLayout
  pending_extents :: "FileExtent list"
  pending_append_extents :: "FileExtent list"
  pending_append_length :: u64

definition FuseFileHandle_init :: FuseFileHandle where
  "FuseFileHandle_init = \<lparr>h_inode_id = 0, writable = False, append_mode = False,
     layout = default_layout, pending_extents = [], pending_append_extents = [],
     pending_append_length = 0\<rparr>"

section \<open>Object names\<close>

record ObjectKeyGenerator =
  writer_id :: string
  next_sequence :: u64

text \<open>
  A fixed-width hexadecimal rendering, most significant digit first, as
  \<^verbatim>\<open>std::setw(16)\<close> with fill \<^verbatim>\<open>'0'\<close> gives for a 64-bit number.
\<close>

definition hex_digit :: "u64 \<Rightarrow> char" where
  "hex_digit d = ''0123456789abcdef'' ! unat (and d 15)"

definition hex16 :: "u64 \<Rightarrow> string" where
  "hex16 w = map (\<lambda>i. hex_digit (drop_bit (4 * (15 - i)) w)) [0..<16]"

text \<open>The four draws of the random device and the clock are arguments.\<close>

definition MakeWriterId :: "u32 \<Rightarrow> u32 \<Rightarrow> u32 \<Rightarrow> u32 \<Rightarrow> u64 \<Rightarrow> string" where
  "MakeWriterId r1 r2 r3 r4 now =
     (let random_hi = xor (push_bit 32 (ucast r1)) (ucast r2);
          random_lo = xor (push_bit 32 (ucast r3)) (ucast r4)
      in hex16 random_hi @ hex16 (xor random_lo now))"

definition ObjectKeyGenerator_init :: "string \<Rightarrow> ObjectKeyGenerator" where
  "ObjectKeyGenerator_init w = \<lparr>writer_id = w, next_sequence = 1\<rparr>"

definition MakeObjectKey ::
  "string \<Rightarrow> u64 \<Rightarrow> u64 \<Rightarrow> ObjectKeyGenerator \<Rightarrow> string \<times> ObjectKeyGenerator" where
  "MakeObjectKey object_prefix i off g =
     ((if object_prefix = [] then [] else object_prefix @ ''/'') @
        ''chunks/'' @ to_string i @ ''/'' @ writer_id g @ ''/'' @
        to_string (next_sequence g) @ ''/'' @ to_string off,
      g\<lparr>next_sequence := next_sequence g + 1\<rparr>)"

section \<open>Reading\<close>

text \<open>\<^verbatim>\<open>std::copy_n\<close> of bytes to a position of a buffer.\<close>

definition splice_at :: "nat \<Rightarrow> bytes \<Rightarrow> bytes \<Rightarrow> bytes" where
  "splice_at at bs out = take at out @ bs @ drop (at + length bs) out"

definition vec_resize :: "nat \<Rightarrow> bytes \<Rightarrow> bytes" where
  "vec_resize n xs = take n xs @ replicate (n - length xs) 0"

fun ReadExtentsIntoBuffer ::
  "(GetObjectRequest \<Rightarrow> 'w \<Rightarrow> GetObjectResult Result) \<Rightarrow> 'w \<Rightarrow> string \<Rightarrow> FileExtent list
     \<Rightarrow> u64 \<Rightarrow> u64 \<Rightarrow> bytes \<Rightarrow> bytes Result" where
  "ReadExtentsIntoBuffer get w bucket [] read_begin read_end out = Inr out"
| "ReadExtentsIntoBuffer get w bucket (e # es) read_begin read_end out =
     (let extent_begin = offset e;
          overlap_begin = max read_begin extent_begin;
          overlap_end = min read_end (ExtentEnd e)
      in if overlap_begin \<ge> overlap_end
         then ReadExtentsIntoBuffer get w bucket es read_begin read_end out
         else case get (range_request bucket (object_key e)
                      (object_offset e + (overlap_begin - extent_begin))
                      (overlap_end - overlap_begin)) w of
                Inl err \<Rightarrow> Inl err
              | Inr r \<Rightarrow>
                  ReadExtentsIntoBuffer get w bucket es read_begin read_end
                    (splice_at (unat (overlap_begin - read_begin))
                       (take (min (length (get_body r)) (unat (overlap_end - overlap_begin))) (get_body r))
                       out))"

text \<open>The appended extents as they will lie behind the end of the file.\<close>

definition visible_appends :: "FuseFileHandle \<Rightarrow> FileExtent list" where
  "visible_appends h =
     map (\<lambda>e. e\<lparr>offset := a_size (l_attrs (layout h)) + offset e\<rparr>) (pending_append_extents h)"

definition visible_size :: "FuseFileHandle \<Rightarrow> u64" where
  "visible_size h =
     foldl (\<lambda>n e. max n (ExtentEnd e))
       (foldl (\<lambda>n e. max n (ExtentEnd e)) (a_size (l_attrs (layout h))) (pending_extents h))
       (visible_appends h)"

definition ReadFromHandle ::
  "(GetObjectRequest \<Rightarrow> 'w \<Rightarrow> GetObjectResult Result) \<Rightarrow> 'w \<Rightarrow> string \<Rightarrow> FuseFileHandle
     \<Rightarrow> u64 \<Rightarrow> i64 \<Rightarrow> bytes Result" where
  "ReadFromHandle get w bucket h sz off =
     (let out = replicate (unat sz) 0
      in if sz = 0 then Inr out
         else if sint off < 0 then Inl (MakeError InvalidArgument ''negative read offset'')
         else if off \<ge> visible_size h then Inr []
         else
           let read_begin = off;
               read_end = min (read_begin + sz) (visible_size h);
               out = vec_resize (unat (read_end - read_begin)) out
           in case ReadExtentsIntoBuffer get w bucket (extents (layout h)) read_begin read_end out of
                Inl e \<Rightarrow> Inl e
              | Inr out \<Rightarrow>
                  (case ReadExtentsIntoBuffer get w bucket (pending_extents h) read_begin read_end out of
                     Inl e \<Rightarrow> Inl e
                   | Inr out \<Rightarrow>
                       ReadExtentsIntoBuffer get w bucket (visible_appends h) read_begin read_end out))"

section \<open>Object names do not repeat\<close>

text \<open>Splitting at the last slash of a name whose tail has none.\<close>

lemma last_slash:
  assumes "CHR ''/'' \<notin> set x" and "CHR ''/'' \<notin> set y"
  shows "a @ ''/'' @ x = b @ ''/'' @ y \<longleftrightarrow> a = b \<and> x = y"
proof
  assume "a @ ''/'' @ x = b @ ''/'' @ y"
  then have "rev x @ CHR ''/'' # rev a = rev y @ CHR ''/'' # rev b"
    by (metis append.assoc append_Cons append_Nil rev.simps(2) rev_append rev_singleton_conv)
  moreover have "takeWhile (\<lambda>c. c \<noteq> CHR ''/'') (rev x @ CHR ''/'' # rev a) = rev x"
    "takeWhile (\<lambda>c. c \<noteq> CHR ''/'') (rev y @ CHR ''/'' # rev b) = rev y"
    using assms by (subst takeWhile_append2; force)+
  ultimately show "a = b \<and> x = y"
    by (metis append_same_eq list.inject rev_rev_ident same_append_eq)
qed simp

text \<open>The writer and the number of a name can be read off it, from the right.\<close>

lemma key_inject:
  assumes "CHR ''/'' \<notin> set (writer_id g)" and "CHR ''/'' \<notin> set (writer_id g')"
    and "fst (MakeObjectKey p i off g) = fst (MakeObjectKey p' i' off' g')"
  shows "writer_id g = writer_id g' \<and> next_sequence g = next_sequence g' \<and> i = i' \<and> off = off'"
proof -
  let ?pre = "\<lambda>p i. (if p = [] then [] else p @ ''/'') @ ''chunks'' @ ''/'' @ to_string i"
  have split: "fst (MakeObjectKey p i off g) = (((?pre p i @ ''/'' @ writer_id g) @ ''/'' @
      to_string (next_sequence g)) @ ''/'' @ to_string off)" for p i off g
    by (simp add: MakeObjectKey_def)
  from assms(3) have 1: "(?pre p i @ ''/'' @ writer_id g) @ ''/'' @ to_string (next_sequence g) =
      (?pre p' i' @ ''/'' @ writer_id g') @ ''/'' @ to_string (next_sequence g')" "off = off'"
    unfolding split by (simp_all only: last_slash separators_not_in_to_string not_False_eq_True to_string_inject)
  then have 2: "?pre p i @ ''/'' @ writer_id g = ?pre p' i' @ ''/'' @ writer_id g'"
    "next_sequence g = next_sequence g'"
    by (simp_all only: last_slash separators_not_in_to_string not_False_eq_True to_string_inject)
  then have 3: "?pre p i = ?pre p' i'" "writer_id g = writer_id g'"
    using assms(1,2) by (simp_all only: last_slash not_False_eq_True)
  have "((if p = [] then [] else p @ ''/'') @ ''chunks'') @ ''/'' @ to_string i =
      ((if p' = [] then [] else p' @ ''/'') @ ''chunks'') @ ''/'' @ to_string i'"
    using 3(1) by simp
  then have "i = i'"
    by (simp only: last_slash separators_not_in_to_string not_False_eq_True to_string_inject)
  with 1(2) 2(2) 3(2) show ?thesis
    by simp
qed

text \<open>The names a generator gives to a sequence of requests, each an inode and an offset.\<close>

fun make_keys :: "string \<Rightarrow> (u64 \<times> u64) list \<Rightarrow> ObjectKeyGenerator \<Rightarrow> string list" where
  "make_keys p [] g = []"
| "make_keys p ((i, off) # rs) g =
     (case MakeObjectKey p i off g of (k, g) \<Rightarrow> k # make_keys p rs g)"

lemma MakeObjectKey_next [simp]:
  "snd (MakeObjectKey p i off g) = g\<lparr>next_sequence := next_sequence g + 1\<rparr>"
  by (simp add: MakeObjectKey_def)

lemma make_keys_nth:
  "n < length rs \<Longrightarrow> make_keys p rs g ! n = fst (MakeObjectKey p (fst (rs ! n)) (snd (rs ! n))
     (g\<lparr>next_sequence := next_sequence g + of_nat n\<rparr>))"
proof (induction rs arbitrary: g n)
  case (Cons r rs)
  obtain i off where r: "r = (i, off)"
    by (cases r)
  show ?case
  proof (cases n)
    case (Suc m)
    with Cons.prems have "m < length rs"
      by simp
    from Cons.IH [OF this, of "g\<lparr>next_sequence := next_sequence g + 1\<rparr>"] show ?thesis
      by (simp add: r Suc split_beta ac_simps)
  qed (simp add: r split_beta)
qed simp

lemma length_make_keys [simp]: "length (make_keys p rs g) = length rs"
  by (induction rs arbitrary: g) (auto simp: split_beta)

lemma make_keys_distinct:
  assumes "CHR ''/'' \<notin> set (writer_id g)" and "length rs \<le> 2 ^ 64"
  shows "distinct (make_keys p rs g)"
proof (unfold distinct_conv_nth, intro allI impI)
  fix m n
  assume m: "m < length (make_keys p rs g)" and n: "n < length (make_keys p rs g)" and "m \<noteq> n"
  have "(of_nat m :: u64) \<noteq> of_nat n"
  proof
    assume "(of_nat m :: u64) = of_nat n"
    then have "unat (of_nat m :: u64) = unat (of_nat n :: u64)"
      by simp
    with m n assms(2) \<open>m \<noteq> n\<close> show False
      by (simp add: unat_of_nat)
  qed
  then have "fst (MakeObjectKey p (fst (rs ! m)) (snd (rs ! m))
        (g\<lparr>next_sequence := next_sequence g + of_nat m\<rparr>)) \<noteq>
      fst (MakeObjectKey p (fst (rs ! n)) (snd (rs ! n))
        (g\<lparr>next_sequence := next_sequence g + of_nat n\<rparr>))"
    using assms(1) by (auto dest!: key_inject [rotated 2])
  then show "make_keys p rs g ! m \<noteq> make_keys p rs g ! n"
    using m n by (simp add: make_keys_nth)
qed

lemma make_keys_writers:
  assumes "CHR ''/'' \<notin> set (writer_id g)" and "CHR ''/'' \<notin> set (writer_id g')"
    and "writer_id g \<noteq> writer_id g'"
  shows "set (make_keys p rs g) \<inter> set (make_keys p' rs' g') = {}"
proof (intro equals0I, elim IntE)
  fix k
  assume "k \<in> set (make_keys p rs g)" and "k \<in> set (make_keys p' rs' g')"
  then obtain m n where "m < length rs" "k = make_keys p rs g ! m" "n < length rs'" "k = make_keys p' rs' g' ! n"
    by (auto simp: in_set_conv_nth)
  then have "fst (MakeObjectKey p (fst (rs ! m)) (snd (rs ! m))
        (g\<lparr>next_sequence := next_sequence g + of_nat m\<rparr>)) =
      fst (MakeObjectKey p' (fst (rs' ! n)) (snd (rs' ! n))
        (g'\<lparr>next_sequence := next_sequence g' + of_nat n\<rparr>))"
    by (simp add: make_keys_nth)
  from key_inject [OF _ _ this] assms show False
    by simp
qed

text \<open>The identifiers the code makes are 32 hexadecimal digits.\<close>

lemma hex16_no_slash: "CHR ''/'' \<notin> set (hex16 w)"
proof -
  have "unat (and d 15) < 16" for d :: u64
  proof -
    have "and d 15 = take_bit 4 d"
      by (simp add: take_bit_eq_mask mask_eq_exp_minus_1)
    then show ?thesis
      using take_bit_nat_less_exp [of 4 "unat d"] by (simp add: unsigned_take_bit_eq)
  qed
  moreover have "length ''0123456789abcdef'' = 16"
    by simp
  ultimately have d: "hex_digit d \<in> set ''0123456789abcdef''" for d
    unfolding hex_digit_def by (intro nth_mem) (simp only:)
  have "CHR ''/'' \<noteq> hex_digit d" for d
    using d [of d] by auto
  then show ?thesis
    unfolding hex16_def by (simp only: set_map image_iff) blast
qed

lemma MakeWriterId_no_slash: "CHR ''/'' \<notin> set (MakeWriterId r1 r2 r3 r4 now)"
  by (simp add: MakeWriterId_def Let_def hex16_no_slash)

end
