(* ===== verification/Read_Back.thy ===== *)
theory Read_Back
  imports File_IO
begin

text \<open>
  Reading through an open file, for every store that meets the contract: the bytes read
  are those that the committed extents, the pending writes and the pending appends, laid
  over each other in this order, name.
\<close>

section \<open>Bytes of a content\<close>

text \<open>The byte at a position: that of the object the content names, zero in a hole.\<close>

definition byte_of :: "(string \<Rightarrow> bytes option) \<Rightarrow> content \<Rightarrow> u64 \<Rightarrow> u8" where
  "byte_of obj c p =
     (case c p of
        None \<Rightarrow> 0
      | Some (k, at) \<Rightarrow> (case obj k of None \<Rightarrow> 0 | Some body \<Rightarrow> body ! unat at))"

text \<open>An extent whose range does not wrap and lies in a stored object.\<close>

definition backed :: "(string \<Rightarrow> bytes option) \<Rightarrow> FileExtent \<Rightarrow> bool" where
  "backed obj e \<longleftrightarrow> proper e \<and>
     (case obj (object_key e) of
        None \<Rightarrow> False
      | Some body \<Rightarrow> unat (object_offset e) + unat (len e) \<le> length body \<and> length body < 2 ^ 64)"

definition displays :: "(string \<Rightarrow> bytes option) \<Rightarrow> content \<Rightarrow> u64 \<Rightarrow> u64 \<Rightarrow> bytes \<Rightarrow> bool" where
  "displays obj c b e out \<longleftrightarrow> length out = unat (e - b) \<and>
     (\<forall>p. b \<le> p \<longrightarrow> p < e \<longrightarrow> out ! unat (p - b) = byte_of obj c p)"

lemma displays_zeros:
  assumes "b \<le> e"
  shows "displays obj (\<lambda>_. None) b e (replicate (unat (e - b)) 0)"
proof -
  have "unat (p - b) < unat (e - b)" if "b \<le> p" "p < e" for p
    using that assms unat_sub [OF that(1)] unat_sub [OF assms] unfolding word_le_nat_alt word_less_nat_alt by linarith
  then show ?thesis
    by (simp add: displays_def byte_of_def)
qed

lemma displays_map:
  assumes "displays obj c b e out" and "b \<le> e"
  shows "out = map (\<lambda>i. byte_of obj c (b + of_nat i)) [0..<unat (e - b)]"
proof (rule nth_equalityI)
  show "length out = length (map (\<lambda>i. byte_of obj c (b + of_nat i)) [0..<unat (e - b)])"
    using assms(1) by (simp add: displays_def)
  fix i
  assume "i < length out"
  then have i: "i < unat (e - b)"
    using assms(1) by (simp add: displays_def)
  then have "i < 2 ^ LENGTH(64)"
    by (rule less_trans) (rule unsigned_less)
  then have u: "unat (of_nat i :: u64) = i"
    by (simp add: unat_of_nat)
  have e: "unat b + i < unat e"
    using i unfolding unat_sub [OF assms(2)] by linarith
  then have s: "unat (b + of_nat i) = unat b + i"
    using less_trans [OF e unsigned_less] by (simp add: unat_word_ariths u)
  have "b \<le> b + of_nat i" "b + of_nat i < e"
    using s e by (simp_all add: word_le_nat_alt word_less_nat_alt)
  then have "out ! unat (b + of_nat i - b) = byte_of obj c (b + of_nat i)"
    using assms(1) unfolding displays_def by blast
  with i u show "out ! i = map (\<lambda>i. byte_of obj c (b + of_nat i)) [0..<unat (e - b)] ! i"
    by simp
qed

lemma splice_nth:
  assumes "at + length bs \<le> length out"
  shows "length (splice_at at bs out) = length out"
    and "i < length out \<Longrightarrow>
      splice_at at bs out ! i = (if at \<le> i \<and> i < at + length bs then bs ! (i - at) else out ! i)"
  using assms by (auto simp: splice_at_def nth_append)

text \<open>The part of an extent that falls into the read, in natural numbers.\<close>

lemma overlap_nat:
  fixes b e :: u64
  assumes "proper x" and "max b (offset x) < min e (ExtentEnd x)"
  defines "ob \<equiv> max b (offset x)" and "oe \<equiv> min e (ExtentEnd x)"
  shows "unat (ob - b) + unat (oe - ob) \<le> unat (e - b)"
    and "unat (ob - offset x) + unat (oe - ob) \<le> unat (len x)"
    and "oe - ob \<noteq> 0"
    and "b \<le> p \<Longrightarrow> p < e \<Longrightarrow> covers x p \<longleftrightarrow>
      unat (ob - b) \<le> unat (p - b) \<and> unat (p - b) < unat (ob - b) + unat (oe - ob)"
    and "b \<le> p \<Longrightarrow> p < e \<Longrightarrow> covers x p \<Longrightarrow>
      unat (ob - offset x) + (unat (p - b) - unat (ob - b)) = unat (p - offset x)"
proof -
  have o: "b \<le> ob" "offset x \<le> ob" "ob < oe" "oe \<le> e" "oe \<le> ExtentEnd x"
    using assms(2) by (simp_all add: ob_def oe_def)
  have n: "unat (ExtentEnd x) = unat (offset x) + unat (len x)"
    using assms(1) by (simp add: proper_iff ExtentEnd_def unat_word_ariths)
  have d: "unat (ob - b) = unat ob - unat b" "unat (oe - ob) = unat oe - unat ob"
    "unat (e - b) = unat e - unat b" "unat (ob - offset x) = unat ob - unat (offset x)"
    using o by (simp_all add: unat_sub)
  have u: "unat b \<le> unat ob" "unat (offset x) \<le> unat ob" "unat ob < unat oe" "unat oe \<le> unat e"
    "unat oe \<le> unat (ExtentEnd x)"
    using o by (simp_all add: word_le_nat_alt word_less_nat_alt)
  show "unat (ob - b) + unat (oe - ob) \<le> unat (e - b)"
    "unat (ob - offset x) + unat (oe - ob) \<le> unat (len x)"
    unfolding d using u n by linarith+
  show "oe - ob \<noteq> 0"
    using o(3) by auto
  assume p: "b \<le> p" "p < e"
  have "covers x p \<longleftrightarrow> ob \<le> p \<and> p < oe"
    using p by (auto simp: covers_def ob_def oe_def)
  also have "\<dots> \<longleftrightarrow> unat ob \<le> unat p \<and> unat p < unat oe"
    by (simp add: word_le_nat_alt word_less_nat_alt)
  finally have c: "covers x p \<longleftrightarrow> unat ob \<le> unat p \<and> unat p < unat oe" .
  have dp: "unat (p - b) = unat p - unat b" "unat b \<le> unat p"
    using p by (simp_all add: unat_sub word_le_nat_alt)
  show "covers x p \<longleftrightarrow> unat (ob - b) \<le> unat (p - b) \<and> unat (p - b) < unat (ob - b) + unat (oe - ob)"
    unfolding c d dp using u dp by linarith
  assume "covers x p"
  then have "unat ob \<le> unat p" "offset x \<le> p"
    using c by (auto simp: covers_def)
  then show "unat (ob - offset x) + (unat (p - b) - unat (ob - b)) = unat (p - offset x)"
    unfolding d dp using u dp by (simp add: unat_sub word_le_nat_alt)
qed

lemma covers_overlap:
  assumes "b \<le> p" and "p < e" and "covers x p"
  shows "max b (offset x) < min e (ExtentEnd x)"
  using assms by (auto simp: covers_def intro: le_less_trans)

section \<open>Reading extents\<close>

text \<open>The content an open file shows: committed, then pending, then appended extents.\<close>

definition handle_content :: "FuseFileHandle \<Rightarrow> content" where
  "handle_content h = overwrite_all (visible_appends h)
     (overwrite_all (pending_extents h) (overwrite_all (extents (layout h)) (\<lambda>_. None)))"

context object_store begin

lemma read_extent:
  assumes "backed (holds w bucket) x" and "max b (offset x) < min e (ExtentEnd x)"
    and "displays (holds w bucket) c b e out"
  defines "ob \<equiv> max b (offset x)" and "oe \<equiv> min e (ExtentEnd x)"
  obtains r where "GetObject (range_request bucket (object_key x) (object_offset x + (ob - offset x)) (oe - ob)) w = Inr r"
    "displays (holds w bucket) (overwrite x c) b e
       (splice_at (unat (ob - b)) (take (min (length (get_body r)) (unat (oe - ob))) (get_body r)) out)"
proof -
  obtain body where body: "proper x" "holds w bucket (object_key x) = Some body"
    "unat (object_offset x) + unat (len x) \<le> length body" "length body < 2 ^ 64"
    using assms(1) by (auto simp: backed_def split: option.splits)
  note nat = overlap_nat [OF body(1) assms(2), folded ob_def oe_def]
  let ?off = "object_offset x + (ob - offset x)"
  have "unat (object_offset x) + unat (ob - offset x) < 2 ^ LENGTH(64)"
    using nat(2) body(3,4) by simp
  then have off: "unat ?off = unat (object_offset x) + unat (ob - offset x)"
    by (simp add: unat_word_ariths)
  then have fit: "unat ?off + unat (oe - ob) \<le> length body"
    using nat(2) body(3) by linarith
  obtain r where r: "GetObject (range_request bucket (object_key x) ?off (oe - ob)) w = Inr r"
    "get_body r = take (unat (oe - ob)) (drop (unat ?off) body)"
    using get_range [OF body(2) fit body(4) nat(3)] by blast
  let ?bs = "get_body r"
  have len: "length ?bs = unat (oe - ob)"
    using r(2) fit by simp
  have out: "length out = unat (e - b)"
    "\<And>p. b \<le> p \<Longrightarrow> p < e \<Longrightarrow> out ! unat (p - b) = byte_of (holds w bucket) c p"
    using assms(3) by (simp_all add: displays_def)
  have at: "unat (ob - b) + length ?bs \<le> length out"
    using nat(1) len out(1) by simp
  have "splice_at (unat (ob - b)) ?bs out ! unat (p - b) = byte_of (holds w bucket) (overwrite x c) p"
    if p: "b \<le> p" "p < e" for p
  proof -
    have i: "unat (p - b) < length out"
      using p out(1) by (simp add: unat_sub word_le_nat_alt word_less_nat_alt diff_less_mono)
    show ?thesis
    proof (cases "covers x p")
      case True
      let ?i = "unat (p - b) - unat (ob - b)"
      have "?i < unat (oe - ob)"
        using nat(4) [OF p] True by linarith
      then have "splice_at (unat (ob - b)) ?bs out ! unat (p - b) = body ! (unat ?off + ?i)"
        using splice_nth(2) [OF at i] nat(4) [OF p] True len r(2) fit by simp
      also have "unat ?off + ?i = unat (object_offset x) + unat (p - offset x)"
        using off nat(5) [OF p True] by simp
      also have "\<dots> = unat (object_offset x + (p - offset x))"
      proof -
        have "?i < unat (oe - ob)"
          using nat(4) [OF p] True by linarith
        then have "unat (object_offset x) + unat (p - offset x) < 2 ^ LENGTH(64)"
          using nat(5) [OF p True] nat(2) body(3,4) by simp
        then show ?thesis
          by (simp add: unat_word_ariths)
      qed
      finally show ?thesis
        using True body(2) by (simp add: byte_of_def overwrite_def source_of_def)
    next
      case False
      then have "splice_at (unat (ob - b)) ?bs out ! unat (p - b) = out ! unat (p - b)"
        using splice_nth(2) [OF at i] nat(4) [OF p] len by auto
      with False out(2) [OF p] show ?thesis
        by (simp add: byte_of_def overwrite_def)
    qed
  qed
  then have "displays (holds w bucket) (overwrite x c) b e (splice_at (unat (ob - b)) ?bs out)"
    using splice_nth(1) [OF at] out(1) by (simp add: displays_def)
  with r(1) show thesis
    using that [of r] len by simp
qed

lemma read_extents:
  assumes "\<forall>x\<in>set es. backed (holds w bucket) x" and "displays (holds w bucket) c b e out"
  shows "\<exists>out'. ReadExtentsIntoBuffer GetObject w bucket es b e out = Inr out' \<and>
    displays (holds w bucket) (overwrite_all es c) b e out'"
  using assms
proof (induction es arbitrary: c out)
  case (Cons x es)
  show ?case
  proof (cases "max b (offset x) < min e (ExtentEnd x)")
    case True
    have "backed (holds w bucket) x"
      using Cons.prems(1) by simp
    from read_extent [OF this True Cons.prems(2)]
    obtain r where r: "GetObject (range_request bucket (object_key x)
          (object_offset x + (max b (offset x) - offset x)) (min e (ExtentEnd x) - max b (offset x))) w = Inr r"
      and s: "displays (holds w bucket) (overwrite x c) b e
        (splice_at (unat (max b (offset x) - b)) (take (min (length (get_body r))
           (unat (min e (ExtentEnd x) - max b (offset x)))) (get_body r)) out)"
      .
    have le: "\<not> min e (ExtentEnd x) \<le> max b (offset x)"
      using True by (simp only: not_le)
    show ?thesis
      unfolding ReadExtentsIntoBuffer.simps Let_def if_not_P [OF le] r sum.case overwrite_all_Cons
      by (rule Cons.IH [OF _ s]) (use Cons.prems(1) in simp)
  next
    case False
    have "displays (holds w bucket) (overwrite x c) b e out"
      using Cons.prems(2) covers_overlap [of b _ e x] False
      by (auto simp: displays_def byte_of_def overwrite_def)
    note d = this
    have le: "min e (ExtentEnd x) \<le> max b (offset x)"
      using False by (simp only: not_less)
    show ?thesis
      unfolding ReadExtentsIntoBuffer.simps Let_def if_P [OF le] overwrite_all_Cons
      by (rule Cons.IH [OF _ d]) (use Cons.prems(1) in simp)
  qed
qed simp

lemma read_handle:
  assumes b: "\<forall>x\<in>set (extents (layout h)) \<union> set (pending_extents h) \<union> set (visible_appends h).
      backed (holds w bucket) x"
    and off: "0 \<le> sint off" and nowrap: "unat off + unat sz < 2 ^ 64"
  shows "ReadFromHandle GetObject w bucket h sz off =
    Inr (map (\<lambda>i. byte_of (holds w bucket) (handle_content h) (off + of_nat i))
      [0..<min (unat sz) (unat (visible_size h) - unat off)])"
proof -
  let ?n = "min (unat sz) (unat (visible_size h) - unat off)"
  consider "sz = 0" | "sz \<noteq> 0" "visible_size h \<le> off" | "sz \<noteq> 0" "off < visible_size h"
    by fastforce
  then show ?thesis
  proof cases
    case 3
    let ?e = "min (off + sz) (visible_size h)"
    have sum: "unat (off + sz) = unat off + unat sz"
      using nowrap by (simp add: unat_word_ariths)
    have "off \<le> off + sz" "off \<le> visible_size h"
      using 3 sum by (simp_all add: word_le_nat_alt word_less_nat_alt)
    then have "off \<le> ?e"
      by (simp only: min_def split: if_split) simp
    have ue: "unat ?e = min (unat off + unat sz) (unat (visible_size h))"
      using sum by (simp add: min_def word_le_nat_alt)
    then have n: "unat (?e - off) = ?n"
      unfolding unat_sub [OF \<open>off \<le> ?e\<close>] by linarith
    have "vec_resize (unat (?e - off)) (replicate (unat sz) 0) = replicate (unat (?e - off)) 0"
      unfolding n by (simp add: vec_resize_def)
    with displays_zeros [OF \<open>off \<le> ?e\<close>, of "holds w bucket"]
    have "displays (holds w bucket) (\<lambda>_. None) off ?e (vec_resize (unat (?e - off)) (replicate (unat sz) 0))"
      by simp
    from read_extents [OF _ this, of "extents (layout h)"] b obtain o1 where
      1: "ReadExtentsIntoBuffer GetObject w bucket (extents (layout h)) off ?e
        (vec_resize (unat (?e - off)) (replicate (unat sz) 0)) = Inr o1"
      and "displays (holds w bucket) (overwrite_all (extents (layout h)) (\<lambda>_. None)) off ?e o1"
      by auto
    from read_extents [OF _ this(2), of "pending_extents h"] b obtain o2 where
      2: "ReadExtentsIntoBuffer GetObject w bucket (pending_extents h) off ?e o1 = Inr o2"
      and "displays (holds w bucket) (overwrite_all (pending_extents h)
        (overwrite_all (extents (layout h)) (\<lambda>_. None))) off ?e o2"
      by auto
    from read_extents [OF _ this(2), of "visible_appends h"] b obtain o3 where
      r3: "ReadExtentsIntoBuffer GetObject w bucket (visible_appends h) off ?e o2 = Inr o3"
      and d: "displays (holds w bucket) (handle_content h) off ?e o3"
      by (auto simp: handle_content_def)
    have inside: "\<not> visible_size h \<le> off"
      using 3(2) by (simp only: not_le)
    have "ReadFromHandle GetObject w bucket h sz off = Inr o3"
      using 3(1) off 1 2 r3 by (simp add: ReadFromHandle_def Let_def inside)
    moreover note displays_map [OF d \<open>off \<le> ?e\<close>]
    ultimately show ?thesis
      by (simp only: n)
  qed (use off in \<open>simp_all add: ReadFromHandle_def word_le_nat_alt not_le not_less\<close>)
qed

end

end
