(* ===== verification/Meta_Client.thy ===== *)
theory Meta_Client
  imports Messages Errors "HOL-Library.Sublist"
begin

text \<open>
  \<^verbatim>\<open>src/fuse/meta_client.h\<close> and \<^verbatim>\<open>src/fuse/meta_client.cc\<close>: the client side of the
  metadata RPCs.  The generated gRPC stub is a parameter: the record \<open>stub\<close> has a call per
  RPC, which takes the fields of the request and gives a status and the reply.
\<close>

section \<open>Statuses as errors\<close>

definition FromGrpcStatus :: "Status \<Rightarrow> Error" where
  "FromGrpcStatus st =
     (let msg = error_message st
      in if prefix ''NotDirectory:'' msg then MakeError (NotDirectory []) msg
         else if prefix ''IsDirectory:'' msg then MakeError (IsDirectory []) msg
         else if prefix ''DirectoryNotEmpty:'' msg then MakeError (DirectoryNotEmpty []) msg
         else case error_code st of
                INVALID_ARGUMENT \<Rightarrow> MakeError InvalidArgument msg
              | NOT_FOUND \<Rightarrow> MakeError (NotFound []) msg
              | ALREADY_EXISTS \<Rightarrow> MakeError (AlreadyExists []) msg
              | FAILED_PRECONDITION \<Rightarrow> MakeError InvalidArgument msg
              | UNAVAILABLE \<Rightarrow> MakeError Unavailable msg
              | DEADLINE_EXCEEDED \<Rightarrow> MakeError (Timeout ''metadata rpc'') msg
              | _ \<Rightarrow> MakeError Internal msg)"

text \<open>How each call ends: an error status becomes an error, otherwise the reply is used.\<close>

definition finish :: "('a \<Rightarrow> 'b) \<Rightarrow> (Status \<times> 'a) \<times> 'w \<Rightarrow> 'b Result \<times> 'w" where
  "finish f r = (case r of ((st, reply), w) \<Rightarrow>
     ((if \<not> status_ok st then Inl (FromGrpcStatus st) else Inr (f reply)), w))"

section \<open>The calls\<close>

type_synonym ('a, 'w) rpc = "'w \<Rightarrow> (Status \<times> 'a) \<times> 'w"

record 'w stub =
  stub_Mkdir :: "u64 \<Rightarrow> string \<Rightarrow> u32 \<Rightarrow> u32 \<Rightarrow> u32 \<Rightarrow> (InodeAttrs, 'w) rpc"
  stub_CreateFile :: "u64 \<Rightarrow> string \<Rightarrow> u32 \<Rightarrow> u32 \<Rightarrow> u32 \<Rightarrow> (InodeAttrs, 'w) rpc"
  stub_Lookup :: "u64 \<Rightarrow> string \<Rightarrow> (InodeAttrs, 'w) rpc"
  stub_GetAttr :: "u64 \<Rightarrow> (InodeAttrs, 'w) rpc"
  stub_SetAttr :: "SetAttrCommand \<Rightarrow> (InodeAttrs, 'w) rpc"
  stub_ReadDir :: "u64 \<Rightarrow> (DirectoryEntry list, 'w) rpc"
  stub_Unlink :: "u64 \<Rightarrow> string \<Rightarrow> (InodeAttrs, 'w) rpc"
  stub_Rmdir :: "u64 \<Rightarrow> string \<Rightarrow> (InodeAttrs, 'w) rpc"
  stub_Rename :: "u64 \<Rightarrow> string \<Rightarrow> u64 \<Rightarrow> string \<Rightarrow> (InodeAttrs, 'w) rpc"
  stub_GetLayout :: "u64 \<Rightarrow> (FileLayout, 'w) rpc"
  stub_ListLiveObjects :: "(string list, 'w) rpc"
  stub_CommitWrite :: "u64 \<Rightarrow> u64 \<Rightarrow> FileExtent list \<Rightarrow> (InodeAttrs, 'w) rpc"
  stub_AppendWrite :: "u64 \<Rightarrow> u64 \<Rightarrow> FileExtent list \<Rightarrow> (AppendWriteReply, 'w) rpc"
  stub_Truncate :: "u64 \<Rightarrow> u64 \<Rightarrow> (InodeAttrs, 'w) rpc"

definition Client_Mkdir where
  "Client_Mkdir c p name mode uid gid w = finish id (stub_Mkdir c p name mode uid gid w)"

definition Client_CreateFile where
  "Client_CreateFile c p name mode uid gid w = finish id (stub_CreateFile c p name mode uid gid w)"

definition Client_Lookup where
  "Client_Lookup c p name w = finish id (stub_Lookup c p name w)"

definition Client_GetAttr where
  "Client_GetAttr c i w = finish id (stub_GetAttr c i w)"

definition Client_SetAttr where
  "Client_SetAttr c request w = finish id (stub_SetAttr c request w)"

definition Client_ReadDir where
  "Client_ReadDir c i w = finish id (stub_ReadDir c i w)"

definition Client_Unlink where
  "Client_Unlink c p name w = finish (\<lambda>_. ()) (stub_Unlink c p name w)"

definition Client_Rmdir where
  "Client_Rmdir c p name w = finish (\<lambda>_. ()) (stub_Rmdir c p name w)"

definition Client_Rename where
  "Client_Rename c p name np nname w = finish (\<lambda>_. ()) (stub_Rename c p name np nname w)"

definition Client_GetLayout where
  "Client_GetLayout c i w = finish id (stub_GetLayout c i w)"

definition Client_ListLiveObjects where
  "Client_ListLiveObjects c w = finish id (stub_ListLiveObjects c w)"

definition Client_CommitWrite where
  "Client_CommitWrite c i base es w = finish id (stub_CommitWrite c i base es w)"

definition Client_AppendWrite where
  "Client_AppendWrite c i base es w = finish id (stub_AppendWrite c i base es w)"

definition Client_Truncate where
  "Client_Truncate c i sz w = finish id (stub_Truncate c i sz w)"

section \<open>What survives the trip\<close>

text \<open>
  The kind of an error after it went through a status: paths and operations are lost, and
  so is the difference between some kinds.  The message gains the name of the kind.
\<close>

fun relayed_kind :: "ErrorKind \<Rightarrow> ErrorKind" where
  "relayed_kind InvalidArgument = InvalidArgument"
| "relayed_kind (NotFound _) = NotFound []"
| "relayed_kind (AlreadyExists _) = AlreadyExists []"
| "relayed_kind (NotDirectory _) = NotDirectory []"
| "relayed_kind (IsDirectory _) = IsDirectory []"
| "relayed_kind (DirectoryNotEmpty _) = DirectoryNotEmpty []"
| "relayed_kind (NotLeader _) = InvalidArgument"
| "relayed_kind Unavailable = Unavailable"
| "relayed_kind (Timeout _) = Timeout ''metadata rpc''"
| "relayed_kind Internal = Internal"
| "relayed_kind RaftFailure = Unavailable"

lemma FromGrpcStatus_ToGrpcStatus:
  assumes "message e \<noteq> []"
  shows "FromGrpcStatus (ToGrpcStatus e) = MakeError (relayed_kind (kind e)) (ErrorToString e)"
  using assms
  by (cases "kind e") (simp_all add: FromGrpcStatus_def ToGrpcStatus_def ErrorToString_def Let_def)

lemma finish_ok: "finish f ((Status_OK, a), w) = (Inr (f a), w)"
  by (simp add: finish_def)

lemma finish_error: "finish f ((ToGrpcStatus e, a), w) = (Inl (FromGrpcStatus (ToGrpcStatus e)), w)"
  by (simp add: finish_def)

end
