(* ===== verification/Fuse_Server.thy ===== *)
theory Fuse_Server
  imports File_IO Meta_Client "HOL-Library.Signed_Division"
begin

text \<open>
  \<^verbatim>\<open>src/fuse/fuse_server.h\<close> and \<^verbatim>\<open>src/fuse/fuse_server.cc\<close>: the file system
  operations.  A handler takes the server's state and the world behind the metadata stub and
  the object store, and gives the reply it sends with the new state and world.  libfuse is a
  parameter where the code calls it for data (the encoding of directory entries); its
  replies are the datatype \<open>reply\<close>.  Open files are reached through shared pointers in the
  code; as each handler runs to its end here, the table entry is updated instead.
\<close>

section \<open>Constants of the system headers\<close>

definition O_ACCMODE :: u32 where "O_ACCMODE = 3"
definition O_WRONLY :: u32 where "O_WRONLY = 1"
definition O_RDWR :: u32 where "O_RDWR = 2"
definition O_TRUNC :: u32 where "O_TRUNC = 512"
definition O_APPEND :: u32 where "O_APPEND = 1024"
definition S_IFDIR :: u32 where "S_IFDIR = 16384"
definition S_IFREG :: u32 where "S_IFREG = 32768"
definition FUSE_SET_ATTR_MODE :: u32 where "FUSE_SET_ATTR_MODE = 1"
definition FUSE_SET_ATTR_UID :: u32 where "FUSE_SET_ATTR_UID = 2"
definition FUSE_SET_ATTR_GID :: u32 where "FUSE_SET_ATTR_GID = 4"
definition FUSE_SET_ATTR_SIZE :: u32 where "FUSE_SET_ATTR_SIZE = 8"
definition FUSE_SET_ATTR_ATIME :: u32 where "FUSE_SET_ATTR_ATIME = 16"
definition FUSE_SET_ATTR_MTIME :: u32 where "FUSE_SET_ATTR_MTIME = 32"

lemmas flag_defs = O_ACCMODE_def O_WRONLY_def O_RDWR_def O_TRUNC_def O_APPEND_def

datatype errno = EINVAL | ENOENT | EEXIST | ENOTDIR | EISDIR | ENOTEMPTY | ETIMEDOUT | EAGAIN
  | EIO | EBADF | EOPNOTSUPP

section \<open>Rendering\<close>

definition kModeMask :: u32 where
  "kModeMask = 4095"

fun kind_errno :: "ErrorKind \<Rightarrow> errno" where
  "kind_errno InvalidArgument = EINVAL"
| "kind_errno (NotFound _) = ENOENT"
| "kind_errno (AlreadyExists _) = EEXIST"
| "kind_errno (NotDirectory _) = ENOTDIR"
| "kind_errno (IsDirectory _) = EISDIR"
| "kind_errno (DirectoryNotEmpty _) = ENOTEMPTY"
| "kind_errno (Timeout _) = ETIMEDOUT"
| "kind_errno Unavailable = EAGAIN"
| "kind_errno (NotLeader _) = EAGAIN"
| "kind_errno Internal = EIO"
| "kind_errno RaftFailure = EIO"

definition ToErrno :: "Error \<Rightarrow> errno" where
  "ToErrno e = kind_errno (kind e)"

fun FileTypeMode :: "InodeType \<Rightarrow> u32" where
  "FileTypeMode INODE_TYPE_DIRECTORY = S_IFDIR"
| "FileTypeMode INODE_TYPE_FILE = S_IFREG"
| "FileTypeMode INODE_TYPE_UNSPECIFIED = 0"

record timespec =
  tv_sec :: i64
  tv_nsec :: i64

text \<open>Division of signed integers truncates towards zero.\<close>

definition TimespecFromNs :: "i64 \<Rightarrow> timespec" where
  "TimespecFromNs ns = \<lparr>tv_sec = of_int (sint ns sdiv 1000000000),
     tv_nsec = of_int (sint ns smod 1000000000)\<rparr>"

text \<open>The computation of \<^verbatim>\<open>PulpfsSetAttr\<close> in the other direction.\<close>

definition NsFromTimespec :: "timespec \<Rightarrow> i64" where
  "NsFromTimespec ts = tv_sec ts * 1000000000 + tv_nsec ts"

record stat =
  st_ino :: u64
  st_mode :: u32
  st_nlink :: u64
  st_uid :: u32
  st_gid :: u32
  st_size :: i64
  st_blksize :: i64
  st_blocks :: i64
  st_atim :: timespec
  st_mtim :: timespec
  st_ctim :: timespec

definition StatFromAttrs :: "InodeAttrs \<Rightarrow> stat" where
  "StatFromAttrs a = \<lparr>st_ino = inode_id a,
     st_mode = or (FileTypeMode (a_type a)) (and (a_mode a) kModeMask),
     st_nlink = nlink a, st_uid = a_uid a, st_gid = a_gid a, st_size = a_size a,
     st_blksize = 4096, st_blocks = (a_size a + 511) div 512,
     st_atim = TimespecFromNs (atime_ns a), st_mtim = TimespecFromNs (mtime_ns a),
     st_ctim = TimespecFromNs (ctime_ns a)\<rparr>"

record fuse_entry_param =
  ep_ino :: u64
  ep_attr :: stat
  ep_attr_timeout :: nat
  ep_entry_timeout :: nat

definition EntryFromAttrs :: "InodeAttrs \<Rightarrow> fuse_entry_param" where
  "EntryFromAttrs a = \<lparr>ep_ino = inode_id a, ep_attr = StatFromAttrs a, ep_attr_timeout = 0,
     ep_entry_timeout = 0\<rparr>"

definition IsWritable :: "u32 \<Rightarrow> bool" where
  "IsWritable flags \<longleftrightarrow> (let access_mode = and flags O_ACCMODE
     in access_mode = O_WRONLY \<or> access_mode = O_RDWR)"

section \<open>State\<close>

record FuseServerConfig =
  mountpoint :: string
  fs_meta_address :: string
  fs_bucket :: string
  fs_object_prefix :: string
  fs_s3_endpoint :: string
  fs_s3_region :: string
  fs_s3_use_https :: bool
  fs_s3_verify_ssl :: bool
  foreground :: bool

text \<open>
  \<open>has_object_store\<close> says that the pointer to the store is not null: the constructor makes
  a store when an endpoint is configured.  The writer id of this run is an argument.
\<close>

record FuseServer =
  fs_config :: FuseServerConfig
  has_object_store :: bool
  object_key_generator :: ObjectKeyGenerator
  parents :: "u64 \<Rightarrow> u64 option"
  next_handle_id :: u64
  handles :: "u64 \<Rightarrow> FuseFileHandle option"

definition FuseServer_init :: "FuseServerConfig \<Rightarrow> string \<Rightarrow> FuseServer" where
  "FuseServer_init cfg wid = \<lparr>fs_config = cfg, has_object_store = (fs_s3_endpoint cfg \<noteq> []),
     object_key_generator = ObjectKeyGenerator_init wid, parents = [1 \<mapsto> 1],
     next_handle_id = 1, handles = Map.empty\<rparr>"

definition fs_MakeObjectKey :: "u64 \<Rightarrow> u64 \<Rightarrow> FuseServer \<Rightarrow> string \<times> FuseServer" where
  "fs_MakeObjectKey i off srv =
     (case MakeObjectKey (fs_object_prefix (fs_config srv)) i off (object_key_generator srv) of
        (key, g) \<Rightarrow> (key, srv\<lparr>object_key_generator := g\<rparr>))"

definition fs_ParentOf :: "u64 \<Rightarrow> FuseServer \<Rightarrow> u64" where
  "fs_ParentOf i srv = (case parents srv i of None \<Rightarrow> i | Some p \<Rightarrow> p)"

definition RememberParent :: "u64 \<Rightarrow> u64 \<Rightarrow> FuseServer \<Rightarrow> FuseServer" where
  "RememberParent i p srv = srv\<lparr>parents := (parents srv)(i \<mapsto> p)\<rparr>"

definition AllocateFileHandle :: "FuseFileHandle \<Rightarrow> FuseServer \<Rightarrow> u64 \<times> FuseServer" where
  "AllocateFileHandle h srv =
     (let handle_id = next_handle_id srv
      in (handle_id, srv\<lparr>next_handle_id := handle_id + 1, handles := (handles srv)(handle_id \<mapsto> h)\<rparr>))"

definition GetFileHandle :: "u64 \<Rightarrow> FuseServer \<Rightarrow> FuseFileHandle option" where
  "GetFileHandle handle_id srv = handles srv handle_id"

definition ReleaseFileHandle :: "u64 \<Rightarrow> FuseServer \<Rightarrow> FuseServer" where
  "ReleaseFileHandle handle_id srv = srv\<lparr>handles := (handles srv)(handle_id := None)\<rparr>"

section \<open>The world and the replies\<close>

record 'w env =
  meta_client :: "'w stub"
  store_get :: "GetObjectRequest \<Rightarrow> 'w \<Rightarrow> GetObjectResult Result"
  store_put :: "PutObjectRequest \<Rightarrow> 'w \<Rightarrow> PutObjectResult Result \<times> 'w"
  add_direntry :: "string \<Rightarrow> stat \<Rightarrow> u64 \<Rightarrow> bytes"

record fuse_file_info =
  fi_flags :: u32
  fh :: u64
  direct_io :: bool

record statvfs =
  f_bsize :: u64
  f_frsize :: u64
  f_blocks :: u64
  f_bfree :: u64
  f_bavail :: u64
  f_files :: u64
  f_ffree :: u64
  f_favail :: u64
  f_namemax :: u64

datatype reply =
    reply_err errno
  | reply_done
  | reply_entry fuse_entry_param
  | reply_attr stat nat
  | reply_buf bytes
  | reply_write u64
  | reply_create fuse_entry_param fuse_file_info
  | reply_open fuse_file_info
  | reply_none
  | reply_statfs statvfs

text \<open>User and group of a request: zero when libfuse gives no context.\<close>

type_synonym fuse_ctx = "(u32 \<times> u32) option"

definition RequestUid :: "fuse_ctx \<Rightarrow> u32" where
  "RequestUid ctx = (case ctx of None \<Rightarrow> 0 | Some (uid, _) \<Rightarrow> uid)"

definition RequestGid :: "fuse_ctx \<Rightarrow> u32" where
  "RequestGid ctx = (case ctx of None \<Rightarrow> 0 | Some (_, gid) \<Rightarrow> gid)"

text \<open>The reply of an operation that only succeeds or fails.\<close>

definition reply_result :: "'a Result \<Rightarrow> reply" where
  "reply_result r = (case r of Inl e \<Rightarrow> reply_err (ToErrno e) | Inr _ \<Rightarrow> reply_done)"

section \<open>Committing an open file\<close>

definition refresh_layout :: "'w env \<Rightarrow> FuseFileHandle \<Rightarrow> 'w \<Rightarrow> FuseFileHandle \<times> 'w" where
  "refresh_layout env h w =
     (case Client_GetLayout (meta_client env) (h_inode_id h) w of
        (Inl _, w) \<Rightarrow> (h, w)
      | (Inr l, w) \<Rightarrow> (h\<lparr>layout := l\<rparr>, w))"

definition commit_pending :: "'w env \<Rightarrow> FuseFileHandle \<Rightarrow> 'w \<Rightarrow> unit Result \<times> FuseFileHandle \<times> 'w" where
  "commit_pending env h w =
     (if pending_extents h = [] then (Inr (), h, w)
      else case Client_CommitWrite (meta_client env) (h_inode_id h) (version (l_attrs (layout h)))
                  (pending_extents h) w of
             (Inl e, w) \<Rightarrow> (Inl e, h, w)
           | (Inr _, w) \<Rightarrow> (Inr (), refresh_layout env (h\<lparr>pending_extents := []\<rparr>) w))"

definition commit_appends :: "'w env \<Rightarrow> FuseFileHandle \<Rightarrow> 'w \<Rightarrow> unit Result \<times> FuseFileHandle \<times> 'w" where
  "commit_appends env h w =
     (if pending_append_extents h = [] then (Inr (), h, w)
      else case Client_AppendWrite (meta_client env) (h_inode_id h) (version (l_attrs (layout h)))
                  (pending_append_extents h) w of
             (Inl e, w) \<Rightarrow> (Inl e, h, w)
           | (Inr _, w) \<Rightarrow>
               (Inr (), refresh_layout env (h\<lparr>pending_append_extents := [], pending_append_length := 0\<rparr>) w))"

definition CommitHandle :: "'w env \<Rightarrow> FuseFileHandle \<Rightarrow> 'w \<Rightarrow> unit Result \<times> FuseFileHandle \<times> 'w" where
  "CommitHandle env h w =
     (case commit_pending env h w of
        (Inl e, h, w) \<Rightarrow> (Inl e, h, w)
      | (Inr _, h, w) \<Rightarrow> commit_appends env h w)"

text \<open>On a handle number; a null pointer commits nothing.\<close>

definition commit_fh :: "'w env \<Rightarrow> u64 \<Rightarrow> FuseServer \<Rightarrow> 'w \<Rightarrow> unit Result \<times> FuseServer \<times> 'w" where
  "commit_fh env handle_id srv w =
     (case GetFileHandle handle_id srv of
        None \<Rightarrow> (Inr (), srv, w)
      | Some h \<Rightarrow>
          (case CommitHandle env h w of
             (r, h, w) \<Rightarrow> (r, srv\<lparr>handles := (handles srv)(handle_id \<mapsto> h)\<rparr>, w)))"

section \<open>Names and attributes\<close>

definition PulpfsLookup :: "'w env \<Rightarrow> u64 \<Rightarrow> string \<Rightarrow> FuseServer \<Rightarrow> 'w \<Rightarrow> reply \<times> FuseServer \<times> 'w" where
  "PulpfsLookup env parent name srv w =
     (case Client_Lookup (meta_client env) parent name w of
        (Inl e, w) \<Rightarrow> (reply_err (ToErrno e), srv, w)
      | (Inr a, w) \<Rightarrow> (reply_entry (EntryFromAttrs a), RememberParent (inode_id a) parent srv, w))"

definition PulpfsGetAttr :: "'w env \<Rightarrow> u64 \<Rightarrow> FuseServer \<Rightarrow> 'w \<Rightarrow> reply \<times> FuseServer \<times> 'w" where
  "PulpfsGetAttr env ino srv w =
     (case Client_GetAttr (meta_client env) ino w of
        (Inl e, w) \<Rightarrow> (reply_err (ToErrno e), srv, w)
      | (Inr a, w) \<Rightarrow> (reply_attr (StatFromAttrs a) 0, srv, w))"

definition supported_set_attr :: u32 where
  "supported_set_attr = or FUSE_SET_ATTR_MODE (or FUSE_SET_ATTR_UID (or FUSE_SET_ATTR_GID
     (or FUSE_SET_ATTR_SIZE (or FUSE_SET_ATTR_ATIME FUSE_SET_ATTR_MTIME))))"

definition setattr_request :: "u64 \<Rightarrow> stat \<Rightarrow> u32 \<Rightarrow> SetAttrCommand" where
  "setattr_request ino attr to_set =
     (let has = (\<lambda>flag. and to_set flag \<noteq> 0)
      in \<lparr>sa_inode_id = ino,
          set_mode = has FUSE_SET_ATTR_MODE,
          sa_mode = (if has FUSE_SET_ATTR_MODE then and (st_mode attr) kModeMask else 0),
          set_uid = has FUSE_SET_ATTR_UID,
          sa_uid = (if has FUSE_SET_ATTR_UID then st_uid attr else 0),
          set_gid = has FUSE_SET_ATTR_GID,
          sa_gid = (if has FUSE_SET_ATTR_GID then st_gid attr else 0),
          set_atime = has FUSE_SET_ATTR_ATIME,
          sa_atime_ns = (if has FUSE_SET_ATTR_ATIME then NsFromTimespec (st_atim attr) else 0),
          set_mtime = has FUSE_SET_ATTR_MTIME,
          sa_mtime_ns = (if has FUSE_SET_ATTR_MTIME then NsFromTimespec (st_mtim attr) else 0)\<rparr>)"

definition PulpfsSetAttr ::
  "'w env \<Rightarrow> u64 \<Rightarrow> stat \<Rightarrow> u32 \<Rightarrow> FuseServer \<Rightarrow> 'w \<Rightarrow> reply \<times> FuseServer \<times> 'w" where
  "PulpfsSetAttr env ino attr to_set srv w =
     (if and to_set (not supported_set_attr) \<noteq> 0 then (reply_err EOPNOTSUPP, srv, w)
      else
        case Client_GetAttr (meta_client env) ino w of (result, w) \<Rightarrow>
        case (if and to_set FUSE_SET_ATTR_SIZE \<noteq> 0
              then Client_Truncate (meta_client env) ino (st_size attr) w else (result, w)) of
          (result, w) \<Rightarrow>
        case (if \<not> isl result \<and> and to_set (not FUSE_SET_ATTR_SIZE) \<noteq> 0
              then Client_SetAttr (meta_client env) (setattr_request ino attr to_set) w
              else (result, w)) of
          (result, w) \<Rightarrow>
        (case result of
           Inl e \<Rightarrow> (reply_err (ToErrno e), srv, w)
         | Inr a \<Rightarrow> (reply_attr (StatFromAttrs a) 0, srv, w)))"

text \<open>
  \<^verbatim>\<open>AddDirEntry\<close> puts the encoding of one entry behind the buffer.  The loop takes the entries
  from the offset on, each with the offset of the next one.
\<close>

definition AddDirEntry :: "'w env \<Rightarrow> bytes \<Rightarrow> string \<Rightarrow> InodeAttrs \<Rightarrow> u64 \<Rightarrow> bytes" where
  "AddDirEntry env buffer name a next_offset = buffer @ add_direntry env name (StatFromAttrs a) next_offset"

definition dir_buffer :: "'w env \<Rightarrow> (string \<times> InodeAttrs) list \<Rightarrow> i64 \<Rightarrow> bytes" where
  "dir_buffer env es off =
     (let start = (if sint off < 0 then 0 else unat off)
      in foldl (\<lambda>buffer index. case es ! index of (name, a) \<Rightarrow>
                  AddDirEntry env buffer name a (of_nat index + 1))
           [] [start..<length es])"

definition PulpfsReadDir ::
  "'w env \<Rightarrow> u64 \<Rightarrow> u64 \<Rightarrow> i64 \<Rightarrow> FuseServer \<Rightarrow> 'w \<Rightarrow> reply \<times> FuseServer \<times> 'w" where
  "PulpfsReadDir env ino sz off srv w =
     (case Client_GetAttr (meta_client env) ino w of
        (Inl e, w) \<Rightarrow> (reply_err (ToErrno e), srv, w)
      | (Inr dir, w) \<Rightarrow>
          if a_type dir \<noteq> INODE_TYPE_DIRECTORY then (reply_err ENOTDIR, srv, w)
          else
     (case Client_ReadDir (meta_client env) ino w of
        (Inl e, w) \<Rightarrow> (reply_err (ToErrno e), srv, w)
      | (Inr es, w) \<Rightarrow>
     (case Client_GetAttr (meta_client env) (fs_ParentOf ino srv) w of
        (parent_result, w) \<Rightarrow>
          let parent = (case parent_result of Inl _ \<Rightarrow> dir | Inr a \<Rightarrow> a);
              all = (''.'', dir) # (''..'', parent) # map (\<lambda>e. (de_name e, de_attrs e)) es;
              srv = fold (\<lambda>e. RememberParent (inode_id (de_attrs e)) ino) es srv
          in (reply_buf (take (unat sz) (dir_buffer env all off)), srv, w))))"

definition PulpfsMkdir ::
  "'w env \<Rightarrow> fuse_ctx \<Rightarrow> u64 \<Rightarrow> string \<Rightarrow> u32 \<Rightarrow> FuseServer \<Rightarrow> 'w \<Rightarrow> reply \<times> FuseServer \<times> 'w" where
  "PulpfsMkdir env ctx parent name mode srv w =
     (case Client_Mkdir (meta_client env) parent name (and mode kModeMask) (RequestUid ctx)
             (RequestGid ctx) w of
        (Inl e, w) \<Rightarrow> (reply_err (ToErrno e), srv, w)
      | (Inr a, w) \<Rightarrow> (reply_entry (EntryFromAttrs a), RememberParent (inode_id a) parent srv, w))"

definition PulpfsUnlink :: "'w env \<Rightarrow> u64 \<Rightarrow> string \<Rightarrow> FuseServer \<Rightarrow> 'w \<Rightarrow> reply \<times> FuseServer \<times> 'w" where
  "PulpfsUnlink env parent name srv w =
     (case Client_Unlink (meta_client env) parent name w of (r, w) \<Rightarrow> (reply_result r, srv, w))"

definition PulpfsRmdir :: "'w env \<Rightarrow> u64 \<Rightarrow> string \<Rightarrow> FuseServer \<Rightarrow> 'w \<Rightarrow> reply \<times> FuseServer \<times> 'w" where
  "PulpfsRmdir env parent name srv w =
     (case Client_Rmdir (meta_client env) parent name w of (r, w) \<Rightarrow> (reply_result r, srv, w))"

definition PulpfsRename ::
  "'w env \<Rightarrow> u64 \<Rightarrow> string \<Rightarrow> u64 \<Rightarrow> string \<Rightarrow> u32 \<Rightarrow> FuseServer \<Rightarrow> 'w \<Rightarrow> reply \<times> FuseServer \<times> 'w" where
  "PulpfsRename env old_parent old_name new_parent new_name flags srv w =
     (if flags \<noteq> 0 then (reply_err EINVAL, srv, w)
      else case Client_Rename (meta_client env) old_parent old_name new_parent new_name w of
             (r, w) \<Rightarrow> (reply_result r, srv, w))"

section \<open>Open files\<close>

definition new_handle :: "u64 \<Rightarrow> u32 \<Rightarrow> FuseFileHandle" where
  "new_handle i flags = FuseFileHandle_init\<lparr>h_inode_id := i, writable := IsWritable flags,
     append_mode := (and flags O_APPEND \<noteq> 0)\<rparr>"

definition PulpfsCreate ::
  "'w env \<Rightarrow> fuse_ctx \<Rightarrow> u64 \<Rightarrow> string \<Rightarrow> u32 \<Rightarrow> fuse_file_info \<Rightarrow> FuseServer \<Rightarrow> 'w
     \<Rightarrow> reply \<times> FuseServer \<times> 'w" where
  "PulpfsCreate env ctx parent name mode fi srv w =
     (case Client_CreateFile (meta_client env) parent name (and mode kModeMask) (RequestUid ctx)
             (RequestGid ctx) w of
        (Inl e, w) \<Rightarrow> (reply_err (ToErrno e), srv, w)
      | (Inr a, w) \<Rightarrow>
          let srv = RememberParent (inode_id a) parent srv
          in case Client_GetLayout (meta_client env) (inode_id a) w of (layout_result, w) \<Rightarrow>
             let h = new_handle (inode_id a) (fi_flags fi);
                 h = (case layout_result of Inl _ \<Rightarrow> h | Inr l \<Rightarrow> h\<lparr>layout := l\<rparr>)
             in case AllocateFileHandle h srv of (handle_id, srv) \<Rightarrow>
                (reply_create (EntryFromAttrs a) (fi\<lparr>fh := handle_id, direct_io := True\<rparr>), srv, w))"

definition PulpfsOpen ::
  "'w env \<Rightarrow> u64 \<Rightarrow> fuse_file_info \<Rightarrow> FuseServer \<Rightarrow> 'w \<Rightarrow> reply \<times> FuseServer \<times> 'w" where
  "PulpfsOpen env ino fi srv w =
     (case Client_GetLayout (meta_client env) ino w of
        (Inl e, w) \<Rightarrow> (reply_err (ToErrno e), srv, w)
      | (Inr l, w) \<Rightarrow>
          if a_type (l_attrs l) \<noteq> INODE_TYPE_FILE then (reply_err EISDIR, srv, w)
          else
     (case (if IsWritable (fi_flags fi) \<and> and (fi_flags fi) O_TRUNC \<noteq> 0
            then (case Client_Truncate (meta_client env) ino 0 w of
                    (Inl e, w) \<Rightarrow> (Inl e, w)
                  | (Inr _, w) \<Rightarrow> Client_GetLayout (meta_client env) ino w)
            else (Inr l, w)) of
        (Inl e, w) \<Rightarrow> (reply_err (ToErrno e), srv, w)
      | (Inr l, w) \<Rightarrow>
          (case AllocateFileHandle ((new_handle ino (fi_flags fi))\<lparr>layout := l\<rparr>) srv of
             (handle_id, srv) \<Rightarrow> (reply_open (fi\<lparr>fh := handle_id, direct_io := True\<rparr>), srv, w))))"

definition PulpfsOpenDir ::
  "'w env \<Rightarrow> u64 \<Rightarrow> fuse_file_info \<Rightarrow> FuseServer \<Rightarrow> 'w \<Rightarrow> reply \<times> FuseServer \<times> 'w" where
  "PulpfsOpenDir env ino fi srv w =
     (case Client_GetAttr (meta_client env) ino w of
        (Inl e, w) \<Rightarrow> (reply_err (ToErrno e), srv, w)
      | (Inr a, w) \<Rightarrow>
          if a_type a \<noteq> INODE_TYPE_DIRECTORY then (reply_err ENOTDIR, srv, w)
          else (reply_open (fi\<lparr>fh := ino\<rparr>), srv, w))"

definition PulpfsRead ::
  "'w env \<Rightarrow> u64 \<Rightarrow> u64 \<Rightarrow> i64 \<Rightarrow> fuse_file_info \<Rightarrow> FuseServer \<Rightarrow> 'w \<Rightarrow> reply \<times> FuseServer \<times> 'w" where
  "PulpfsRead env ino sz off fi srv w =
     (case GetFileHandle (fh fi) srv of
        None \<Rightarrow> (reply_err EBADF, srv, w)
      | Some h \<Rightarrow>
          if \<not> has_object_store srv then (reply_err EIO, srv, w)
          else case ReadFromHandle (store_get env) w (fs_bucket (fs_config srv)) h sz off of
                 Inl e \<Rightarrow> (reply_err (ToErrno e), srv, w)
               | Inr out \<Rightarrow> (reply_buf out, srv, w))"

text \<open>The extent of a write that was stored under a key.\<close>

definition written_extent :: "u64 \<Rightarrow> u64 \<Rightarrow> string \<Rightarrow> PutObjectResult \<Rightarrow> FileExtent" where
  "written_extent off sz key r = \<lparr>offset = off, len = sz, object_key = key, etag = put_etag r,
     checksum = [], object_size = put_size r, object_offset = 0\<rparr>"

definition note_write :: "FileExtent \<Rightarrow> u64 \<Rightarrow> FuseFileHandle \<Rightarrow> FuseFileHandle" where
  "note_write extent sz h =
     (if append_mode h
      then h\<lparr>pending_append_length := pending_append_length h + sz,
             pending_append_extents := pending_append_extents h @ [extent]\<rparr>
      else h\<lparr>pending_extents := pending_extents h @ [extent]\<rparr>)"

definition PulpfsWrite ::
  "'w env \<Rightarrow> u64 \<Rightarrow> bytes \<Rightarrow> i64 \<Rightarrow> fuse_file_info \<Rightarrow> FuseServer \<Rightarrow> 'w \<Rightarrow> reply \<times> FuseServer \<times> 'w" where
  "PulpfsWrite env ino buf off fi srv w =
     (case GetFileHandle (fh fi) srv of
        None \<Rightarrow> (reply_err EBADF, srv, w)
      | Some h \<Rightarrow>
          if \<not> writable h then (reply_err EBADF, srv, w)
          else if \<not> has_object_store srv \<or> fs_bucket (fs_config srv) = []
          then (reply_err EIO, srv, w)
          else
            let sz = of_nat (length buf);
                write_offset = (if append_mode h then pending_append_length h else off)
            in case fs_MakeObjectKey ino write_offset srv of (key, srv) \<Rightarrow>
            (case store_put env \<lparr>put_bucket = fs_bucket (fs_config srv), put_key = key,
                    put_body = buf, content_type = ''application/octet-stream''\<rparr> w of
               (Inl e, w) \<Rightarrow> (reply_err (ToErrno e), srv, w)
             | (Inr r, w) \<Rightarrow>
                 (reply_write sz,
                  srv\<lparr>handles := (handles srv)(fh fi \<mapsto>
                        note_write (written_extent write_offset sz key r) sz h)\<rparr>, w)))"

definition PulpfsFlush ::
  "'w env \<Rightarrow> u64 \<Rightarrow> fuse_file_info \<Rightarrow> FuseServer \<Rightarrow> 'w \<Rightarrow> reply \<times> FuseServer \<times> 'w" where
  "PulpfsFlush env ino fi srv w =
     (case commit_fh env (fh fi) srv w of (r, srv, w) \<Rightarrow> (reply_result r, srv, w))"

definition PulpfsFsync ::
  "'w env \<Rightarrow> u64 \<Rightarrow> bool \<Rightarrow> fuse_file_info \<Rightarrow> FuseServer \<Rightarrow> 'w \<Rightarrow> reply \<times> FuseServer \<times> 'w" where
  "PulpfsFsync env ino datasync fi srv w =
     (case commit_fh env (fh fi) srv w of (r, srv, w) \<Rightarrow> (reply_result r, srv, w))"

definition PulpfsRelease ::
  "'w env \<Rightarrow> u64 \<Rightarrow> fuse_file_info \<Rightarrow> FuseServer \<Rightarrow> 'w \<Rightarrow> reply \<times> FuseServer \<times> 'w" where
  "PulpfsRelease env ino fi srv w =
     (case commit_fh env (fh fi) srv w of (r, srv, w) \<Rightarrow>
        (reply_result r, ReleaseFileHandle (fh fi) srv, w))"

definition PulpfsForget :: "u64 \<Rightarrow> u64 \<Rightarrow> FuseServer \<Rightarrow> 'w \<Rightarrow> reply \<times> FuseServer \<times> 'w" where
  "PulpfsForget ino nlookup srv w = (reply_none, srv, w)"

definition PulpfsStatFs :: "u64 \<Rightarrow> FuseServer \<Rightarrow> 'w \<Rightarrow> reply \<times> FuseServer \<times> 'w" where
  "PulpfsStatFs ino srv w =
     (reply_statfs \<lparr>f_bsize = 4096, f_frsize = 4096, f_blocks = push_bit 40 1,
        f_bfree = push_bit 40 1, f_bavail = push_bit 40 1, f_files = push_bit 32 1,
        f_ffree = push_bit 32 1, f_favail = push_bit 32 1, f_namemax = 255\<rparr>, srv, w)"

section \<open>The table of operations\<close>

datatype request =
    FuseLookup u64 string
  | FuseGetAttr u64
  | FuseSetAttr u64 stat u32
  | FuseReadDir u64 u64 i64
  | FuseMkdir fuse_ctx u64 string u32
  | FuseUnlink u64 string
  | FuseRmdir u64 string
  | FuseRename u64 string u64 string u32
  | FuseCreate fuse_ctx u64 string u32 fuse_file_info
  | FuseOpen u64 fuse_file_info
  | FuseOpenDir u64 fuse_file_info
  | FuseRead u64 u64 i64 fuse_file_info
  | FuseWrite u64 bytes i64 fuse_file_info
  | FuseFlush u64 fuse_file_info
  | FuseFsync u64 bool fuse_file_info
  | FuseRelease u64 fuse_file_info
  | FuseReleaseDir u64 fuse_file_info
  | FuseForget u64 u64
  | FuseStatFs u64

fun serve :: "'w env \<Rightarrow> request \<Rightarrow> FuseServer \<Rightarrow> 'w \<Rightarrow> reply \<times> FuseServer \<times> 'w" where
  "serve env (FuseLookup parent name) = PulpfsLookup env parent name"
| "serve env (FuseGetAttr ino) = PulpfsGetAttr env ino"
| "serve env (FuseSetAttr ino attr to_set) = PulpfsSetAttr env ino attr to_set"
| "serve env (FuseReadDir ino sz off) = PulpfsReadDir env ino sz off"
| "serve env (FuseMkdir ctx parent name mode) = PulpfsMkdir env ctx parent name mode"
| "serve env (FuseUnlink parent name) = PulpfsUnlink env parent name"
| "serve env (FuseRmdir parent name) = PulpfsRmdir env parent name"
| "serve env (FuseRename p n np nn flags) = PulpfsRename env p n np nn flags"
| "serve env (FuseCreate ctx parent name mode fi) = PulpfsCreate env ctx parent name mode fi"
| "serve env (FuseOpen ino fi) = PulpfsOpen env ino fi"
| "serve env (FuseOpenDir ino fi) = PulpfsOpenDir env ino fi"
| "serve env (FuseRead ino sz off fi) = PulpfsRead env ino sz off fi"
| "serve env (FuseWrite ino buf off fi) = PulpfsWrite env ino buf off fi"
| "serve env (FuseFlush ino fi) = PulpfsFlush env ino fi"
| "serve env (FuseFsync ino datasync fi) = PulpfsFsync env ino datasync fi"
| "serve env (FuseRelease ino fi) = PulpfsRelease env ino fi"
| "serve env (FuseReleaseDir ino fi) = PulpfsRelease env ino fi"
| "serve env (FuseForget ino nlookup) = PulpfsForget ino nlookup"
| "serve env (FuseStatFs ino) = PulpfsStatFs ino"

end
