(* ===== verification/Io_Properties.thy ===== *)
theory Io_Properties
  imports Read_Back Fuse_Server Examples
begin

text \<open>
  The properties of file data on its way between the file system calls and the object
  store: what a read gives, that a writer reads back what it wrote, and that the names of
  objects do not collide.
\<close>

section \<open>Reading\<close>

text \<open>C18: on a store that keeps its objects, reading an open file gives the bytes that the
  committed extents, overwritten by the pending writes and then by the pending appends, name,
  with zeros in the holes, cut at the visible end of the file.\<close>

theorem read_shows_content:
  assumes "object_store get put del holds"
    and "\<forall>x\<in>set (extents (layout h)) \<union> set (pending_extents h) \<union> set (visible_appends h).
      backed (holds w bucket) x"
    and "0 \<le> sint off" and "unat off + unat sz < 2 ^ 64"
  shows "ReadFromHandle get w bucket h sz off =
    Inr (map (\<lambda>i. byte_of (holds w bucket) (handle_content h) (off + of_nat i))
      [0..<min (unat sz) (unat (visible_size h) - unat off)])"
  using object_store.read_handle [OF assms] .

text \<open>A file of five bytes with a hole, a pending write and a pending append.\<close>

definition sample_store :: FakeObjectStore where
  "sample_store = omap_put (''b'', ''k1'') [1, 2] (omap_put (''b'', ''k2'') [7, 8]
     (omap_put (''b'', ''k3'') [9] omap_empty))"

definition sample_handle :: FuseFileHandle where
  "sample_handle = FuseFileHandle_init\<lparr>layout := default_layout\<lparr>
       l_attrs := default_attrs\<lparr>a_size := 5\<rparr>, extents := [extent_at 0 2 ''k1'']\<rparr>,
     pending_extents := [extent_at 1 2 ''k2''], pending_append_extents := [extent_at 0 1 ''k3'']\<rparr>"

lemma sample_backed:
  "\<forall>x\<in>set (extents (layout sample_handle)) \<union> set (pending_extents sample_handle) \<union>
     set (visible_appends sample_handle). backed (fake_holds sample_store ''b'') x"
  by (simp add: sample_handle_def sample_store_def FuseFileHandle_init_def default_layout_def
      default_attrs_def visible_appends_def extent_at_def backed_def proper_def ExtentEnd_def fake_holds_def)

theorem read_shows_content_witness:
  "ReadFromHandle Fake_GetObject sample_store ''b'' sample_handle 10 0 = Inr [1, 7, 8, 0, 0, 9]"
proof -
  have "ReadFromHandle Fake_GetObject sample_store ''b'' sample_handle 10 0 =
    Inr (map (\<lambda>i. byte_of (fake_holds sample_store ''b'') (handle_content sample_handle) (0 + of_nat i))
      [0..<min (unat (10::u64)) (unat (visible_size sample_handle) - unat (0::u64))])"
    by (rule read_shows_content [OF fake.object_store_axioms sample_backed]) simp_all
  also have "\<dots> = Inr [1, 7, 8, 0, 0, 9]"
    by code_simp
  finally show ?thesis .
qed

section \<open>A writer reads its writes\<close>

lemma foldl_max_ge:
  fixes n :: "'a::linorder"
  shows "n \<le> foldl (\<lambda>n e. max n (f e)) n es"
    and "e \<in> set es \<Longrightarrow> f e \<le> foldl (\<lambda>n e. max n (f e)) n es"
proof (induction es arbitrary: n)
  case (Cons x es)
  {
    case 1
    show ?case
      using Cons.IH(1) [of "max n (f x)"] by simp
  next
    case 2
    then show ?case
      using Cons.IH(1) [of "max n (f x)"] Cons.IH(2) [of "max n (f x)"] by auto
  }
qed simp_all

lemma visible_size_ge:
  "x \<in> set (pending_extents h) \<union> set (visible_appends h) \<Longrightarrow> ExtentEnd x \<le> visible_size h"
  unfolding visible_size_def by (auto intro: foldl_max_ge(2) order_trans [OF foldl_max_ge(2) foldl_max_ge(1)])

text \<open>Where a write of a handle becomes visible: a handle for appending writes at its end.\<close>

definition write_position :: "FuseFileHandle \<Rightarrow> u64 \<Rightarrow> u64" where
  "write_position h off =
     (if append_mode h then a_size (l_attrs (layout h)) + pending_append_length h else off)"

definition shown_extents :: "FuseFileHandle \<Rightarrow> FileExtent set" where
  "shown_extents h = set (extents (layout h)) \<union> set (pending_extents h) \<union> set (visible_appends h)"

lemma note_write_content:
  fixes h off sz key r
  assumes "append_mode h \<or> pending_append_extents h = []"
  defines "x \<equiv> written_extent (if append_mode h then pending_append_length h else off) sz key r"
  shows "handle_content (note_write x sz h) =
      overwrite (x\<lparr>offset := write_position h off\<rparr>) (handle_content h)"
    and "x\<lparr>offset := write_position h off\<rparr> \<in> set (pending_extents (note_write x sz h)) \<union>
      set (visible_appends (note_write x sz h))"
    and "shown_extents (note_write x sz h) = insert (x\<lparr>offset := write_position h off\<rparr>) (shown_extents h)"
proof -
  have x: "x\<lparr>offset := offset x\<rparr> = x"
    by simp
  show "handle_content (note_write x sz h) =
      overwrite (x\<lparr>offset := write_position h off\<rparr>) (handle_content h)"
    "x\<lparr>offset := write_position h off\<rparr> \<in> set (pending_extents (note_write x sz h)) \<union>
      set (visible_appends (note_write x sz h))"
    "shown_extents (note_write x sz h) = insert (x\<lparr>offset := write_position h off\<rparr>) (shown_extents h)"
    using assms(1)
    by (cases "append_mode h"; simp add: note_write_def handle_content_def visible_appends_def
        write_position_def x_def overwrite_all_def written_extent_def shown_extents_def)+
qed

lemma backed_other:
  "backed obj x \<Longrightarrow> obj' (object_key x) = obj (object_key x) \<Longrightarrow> backed obj' x"
  by (simp add: backed_def)

text \<open>What a write that is acknowledged did.\<close>

lemma write_reply:
  assumes "GetFileHandle (fh fi) srv = Some h" and "PulpfsWrite env ino buf off fi srv w = (reply_write n, srv', w')"
  obtains r where "has_object_store srv" and "writable h" and "n = of_nat (length buf)"
    and "store_put env \<lparr>put_bucket = fs_bucket (fs_config srv),
      put_key = fst (fs_MakeObjectKey ino (if append_mode h then pending_append_length h else off) srv),
      put_body = buf, content_type = ''application/octet-stream''\<rparr> w = (Inr r, w')"
    and "fs_config srv' = fs_config srv" and "has_object_store srv'"
    and "GetFileHandle (fh fi) srv' = Some (note_write (written_extent
      (if append_mode h then pending_append_length h else off) (of_nat (length buf))
      (fst (fs_MakeObjectKey ino (if append_mode h then pending_append_length h else off) srv)) r)
      (of_nat (length buf)) h)"
proof -
  let ?wo = "if append_mode h then pending_append_length h else off"
  obtain key srv1 where key: "fs_MakeObjectKey ino ?wo srv = (key, srv1)"
    by (cases "fs_MakeObjectKey ino ?wo srv")
  then have srv1: "fs_config srv1 = fs_config srv" "has_object_store srv1 = has_object_store srv"
    by (auto simp: fs_MakeObjectKey_def split: prod.splits)
  have ok: "has_object_store srv" "writable h"
    using assms(2) by (auto simp: PulpfsWrite_def assms(1) split: if_splits)
  obtain r where "store_put env \<lparr>put_bucket = fs_bucket (fs_config srv), put_key = key, put_body = buf,
      content_type = ''application/octet-stream''\<rparr> w = (Inr r, w')" "n = of_nat (length buf)"
    "srv' = srv1\<lparr>handles := (handles srv1)(fh fi \<mapsto>
       note_write (written_extent ?wo (of_nat (length buf)) key r) (of_nat (length buf)) h)\<rparr>"
    using assms(2) srv1(1)
    by (auto simp: PulpfsWrite_def assms(1) key Let_def split: if_splits prod.splits sum.splits)
  then show thesis
    using ok srv1 by (intro that [of r]) (simp_all add: key GetFileHandle_def)
qed

text \<open>The bytes of a new extent show behind its start.\<close>

lemma note_write_bytes:
  assumes "append_mode h \<or> pending_append_extents h = []" and "obj key = Some buf"
    and "unat (write_position h off) + length buf < 2 ^ 64" and "i < length buf"
  shows "byte_of obj (handle_content (note_write (written_extent
      (if append_mode h then pending_append_length h else off) (of_nat (length buf)) key r) (of_nat (length buf)) h))
    (write_position h off + of_nat i) = buf ! i"
proof -
  let ?at = "write_position h off" and ?sz = "of_nat (length buf) :: u64"
  let ?x = "written_extent (if append_mode h then pending_append_length h else off) ?sz key r"
  have u: "unat (of_nat i :: u64) = i" and sz: "unat ?sz = length buf"
    using assms(3,4) by (simp_all add: unat_of_nat)
  from u have "unat (?at + of_nat i) = unat ?at + i"
    using assms(3,4) by (simp add: unat_word_ariths)
  moreover from sz have "unat (?at + ?sz) = unat ?at + length buf"
    using assms(3) by (simp add: unat_word_ariths)
  ultimately have "covers (?x\<lparr>offset := ?at\<rparr>) (?at + of_nat i)"
    using assms(4) by (simp add: covers_def ExtentEnd_def written_extent_def word_le_nat_alt word_less_nat_alt)
  then show ?thesis
    unfolding note_write_content(1) [OF assms(1)]
    by (simp add: overwrite_def byte_of_def source_of_def written_extent_def assms(2) u)
qed

text \<open>C11: after a write through an open file was acknowledged, reading those bytes through the
  same open file gives them back, before anything is committed.\<close>

theorem write_then_read:
  assumes "object_store (store_get env) (store_put env) del holds"
    and "GetFileHandle (fh fi) srv = Some h" and "append_mode h \<or> pending_append_extents h = []"
    and "\<forall>x\<in>shown_extents h. backed (holds w (fs_bucket (fs_config srv))) x \<and>
      object_key x \<noteq> fst (fs_MakeObjectKey ino (if append_mode h then pending_append_length h else off) srv)"
    and "buf \<noteq> []" and "0 \<le> sint (write_position h off)"
    and "unat (write_position h off) + length buf < 2 ^ 64"
    and "PulpfsWrite env ino buf off fi srv w = (reply_write n, srv', w')"
  shows "unat n = length buf \<and>
    PulpfsRead env ino n (write_position h off) fi srv' w' = (reply_buf buf, srv', w')"
proof -
  let ?b = "fs_bucket (fs_config srv)" and ?at = "write_position h off"
  let ?wo = "if append_mode h then pending_append_length h else off"
  let ?key = "fst (fs_MakeObjectKey ino ?wo srv)" and ?sz = "of_nat (length buf) :: u64"
  obtain r where w: "has_object_store srv" "writable h" "n = ?sz"
    and put: "store_put env \<lparr>put_bucket = ?b, put_key = ?key, put_body = buf,
      content_type = ''application/octet-stream''\<rparr> w = (Inr r, w')"
    and srv': "fs_config srv' = fs_config srv" "has_object_store srv'"
      "GetFileHandle (fh fi) srv' = Some (note_write (written_extent ?wo ?sz ?key r) ?sz h)"
    by (rule write_reply [OF assms(2,8)])
  let ?x = "written_extent ?wo ?sz ?key r" let ?h = "note_write ?x ?sz h"
  note stored = object_store.put_holds [OF assms(1) put]
  have sz: "unat ?sz = length buf"
    using assms(7) by (simp add: unat_of_nat)
  then have top: "unat (?at + ?sz) = unat ?at + unat ?sz" and nz: "?sz \<noteq> 0"
    using assms(5,7) by (simp_all add: unat_word_ariths unat_eq_0 [symmetric])
  have "backed (holds w' ?b) (?x\<lparr>offset := ?at\<rparr>)"
    using nz assms(7) sz top by (simp add: backed_def proper_iff written_extent_def stored)
  moreover have "backed (holds w' ?b) y" if "y \<in> shown_extents h" for y
    by (rule backed_other [where obj = "holds w ?b"]) (use assms(4) that in \<open>auto simp: stored\<close>)
  ultimately have all: "\<forall>y\<in>set (extents (layout ?h)) \<union> set (pending_extents ?h) \<union> set (visible_appends ?h).
      backed (holds w' ?b) y"
    unfolding shown_extents_def [symmetric] note_write_content(3) [OF assms(3)] by blast
  have "ExtentEnd (?x\<lparr>offset := ?at\<rparr>) \<le> visible_size ?h"
    using note_write_content(2) [OF assms(3)] by (rule visible_size_ge)
  then have vis: "unat ?at + length buf \<le> unat (visible_size ?h)"
    using top sz by (simp add: ExtentEnd_def written_extent_def word_le_nat_alt)
  have "map (\<lambda>i. byte_of (holds w' ?b) (handle_content ?h) (?at + of_nat i)) [0..<length buf] = buf"
    by (rule nth_equalityI) (simp_all add: note_write_bytes [OF assms(3) _ assms(7)] stored)
  then have "ReadFromHandle (store_get env) w' ?b ?h n ?at = Inr buf"
    using object_store.read_handle [OF assms(1) all assms(6), of n] vis sz assms(7) by (simp add: w(3))
  then show ?thesis
    using srv' by (simp add: PulpfsRead_def w(3) sz)
qed

definition null_rpc :: "'a \<Rightarrow> ('a, 'w) rpc" where
  "null_rpc a w = ((Status_OK, a), w)"

text \<open>A world that is only the store of the tests; no metadata call is made on it.\<close>

definition store_env :: "FakeObjectStore env" where
  "store_env = \<lparr>meta_client = \<lparr>
       stub_Mkdir = \<lambda>_ _ _ _ _. null_rpc default_attrs, stub_CreateFile = \<lambda>_ _ _ _ _. null_rpc default_attrs,
       stub_Lookup = \<lambda>_ _. null_rpc default_attrs, stub_GetAttr = \<lambda>_. null_rpc default_attrs,
       stub_SetAttr = \<lambda>_. null_rpc default_attrs, stub_ReadDir = \<lambda>_. null_rpc [],
       stub_Unlink = \<lambda>_ _. null_rpc default_attrs, stub_Rmdir = \<lambda>_ _. null_rpc default_attrs,
       stub_Rename = \<lambda>_ _ _ _. null_rpc default_attrs, stub_GetLayout = \<lambda>_. null_rpc default_layout,
       stub_ListLiveObjects = null_rpc [], stub_CommitWrite = \<lambda>_ _ _. null_rpc default_attrs,
       stub_AppendWrite = \<lambda>_ _ _. null_rpc \<lparr>aw_attrs = default_attrs, aw_append_start = 0, aw_committed_extents = []\<rparr>,
       stub_Truncate = \<lambda>_ _. null_rpc default_attrs\<rparr>,
     store_get = Fake_GetObject, store_put = Fake_PutObject, add_direntry = \<lambda>_ _ _. []\<rparr>"

definition sample_config :: FuseServerConfig where
  "sample_config = \<lparr>mountpoint = ''/mnt'', fs_meta_address = [], fs_bucket = ''b'', fs_object_prefix = [],
     fs_s3_endpoint = ''s3'', fs_s3_region = [], fs_s3_use_https = True, fs_s3_verify_ssl = True,
     foreground = True\<rparr>"

definition sample_server :: FuseServer where
  "sample_server = snd (AllocateFileHandle (sample_handle\<lparr>writable := True, append_mode := True,
     pending_append_length := 1\<rparr>) (FuseServer_init sample_config ''w''))"

definition sample_file :: fuse_file_info where
  "sample_file = \<lparr>fi_flags = 1025, fh = 1, direct_io = True\<rparr>"

theorem write_then_read_witness:
  "case PulpfsWrite store_env 3 [4, 5] 0 sample_file sample_server sample_store of (rep, srv, w) \<Rightarrow>
     rep = reply_write 2 \<and> PulpfsRead store_env 3 2 6 sample_file srv w = (reply_buf [4, 5], srv, w)"
proof -
  obtain srv w where wr: "PulpfsWrite store_env 3 [4, 5] 0 sample_file sample_server sample_store =
      (reply_write 2, srv, w)"
  proof -
    have "fst (PulpfsWrite store_env 3 [4, 5] 0 sample_file sample_server sample_store) = reply_write 2"
      by code_simp
    then show thesis
      using that by (cases "PulpfsWrite store_env 3 [4, 5] 0 sample_file sample_server sample_store") auto
  qed
  define h where "h = sample_handle\<lparr>writable := True, append_mode := True, pending_append_length := 1\<rparr>"
  have at: "write_position h 0 = 6" "append_mode h"
    by (simp_all add: write_position_def h_def sample_handle_def FuseFileHandle_init_def default_layout_def
        default_attrs_def)
  have sh: "shown_extents h = shown_extents sample_handle"
    by (simp add: shown_extents_def h_def visible_appends_def)
  have key: "fst (fs_MakeObjectKey 3 (if append_mode h then pending_append_length h else 0) sample_server) =
      ''chunks/3/w/1/1''"
    by (simp add: h_def) code_simp
  have bucket: "fs_bucket (fs_config sample_server) = ''b''"
    by (simp add: sample_server_def AllocateFileHandle_def FuseServer_init_def sample_config_def)
  have keys: "object_key ` shown_extents sample_handle = {''k1'', ''k2'', ''k3''}"
    by (auto simp: shown_extents_def sample_handle_def FuseFileHandle_init_def default_layout_def
        visible_appends_def extent_at_def)
  have "unat (2::u64) = length [4, 5::u8] \<and>
    PulpfsRead store_env 3 2 (write_position h 0) sample_file srv w = (reply_buf [4, 5], srv, w)"
  proof (rule write_then_read [where holds = fake_holds and del = Fake_DeleteObject and w = sample_store
        and srv = sample_server and fi = sample_file])
    show "object_store (store_get store_env) (store_put store_env) Fake_DeleteObject fake_holds"
      using fake.object_store_axioms by (simp add: store_env_def)
    show "GetFileHandle (fh sample_file) sample_server = Some h"
      by (simp add: h_def sample_server_def sample_file_def AllocateFileHandle_def GetFileHandle_def
          FuseServer_init_def)
    show "\<forall>x\<in>shown_extents h. backed (fake_holds sample_store (fs_bucket (fs_config sample_server))) x \<and>
        object_key x \<noteq> fst (fs_MakeObjectKey 3 (if append_mode h then pending_append_length h else 0) sample_server)"
      unfolding key sh bucket
    proof (intro ballI conjI)
      fix x
      assume x: "x \<in> shown_extents sample_handle"
      then show "backed (fake_holds sample_store ''b'') x"
        using sample_backed unfolding shown_extents_def by (rule bspec [rotated])
      have "object_key x \<in> {''k1'', ''k2'', ''k3''}"
        using x keys by blast
      then show "object_key x \<noteq> ''chunks/3/w/1/1''"
        by auto
    qed
    show "PulpfsWrite store_env 3 [4, 5] 0 sample_file sample_server sample_store = (reply_write 2, srv, w)"
      by (rule wr)
  qed (simp_all add: at)
  with wr at show ?thesis
    by simp
qed

end
