(* ===== verification/S3_Store.thy ===== *)
theory S3_Store
  imports Object_Store
begin

text \<open>
  \<^verbatim>\<open>src/object/s3_store.cc\<close>: the object store on S3.  The AWS SDK is a parameter: the
  record \<open>s3_client\<close> holds the four calls on a world \<open>'w\<close>, each with the request fields
  the code sets.  The reference count around the start and stop of the SDK is a machine of
  its own.
\<close>

section \<open>The SDK\<close>

record s3_failure =
  exception_name :: string
  failure_message :: string
  response_code :: nat

record s3_get_result =
  s3_body :: bytes
  s3_etag :: string
  s3_content_length :: i64

record s3_object =
  s3_key :: string
  s3_size :: i64
  s3_modified_ms :: i64

record s3_list_result =
  s3_contents :: "s3_object list"
  s3_next_token :: string

text \<open>
  \<open>s3_get\<close> and \<open>s3_list\<close> have optional arguments for the range header and the
  continuation token, which the code only sets when there is one.
\<close>

record 'w s3_client =
  s3_put :: "string \<Rightarrow> string \<Rightarrow> string \<Rightarrow> i64 \<Rightarrow> bytes \<Rightarrow> 'w \<Rightarrow> (s3_failure + string) \<times> 'w"
  s3_get :: "string \<Rightarrow> string \<Rightarrow> string option \<Rightarrow> 'w \<Rightarrow> s3_failure + s3_get_result"
  s3_delete :: "string \<Rightarrow> string \<Rightarrow> 'w \<Rightarrow> (s3_failure + unit) \<times> 'w"
  s3_list :: "string \<Rightarrow> string \<Rightarrow> nat \<Rightarrow> string option \<Rightarrow> 'w \<Rightarrow> s3_failure + s3_list_result"

section \<open>The configuration\<close>

text \<open>
  \<open>s3_client_settings\<close> has what the constructor hands to the SDK: the fields of the client
  configuration it sets, the signing policy and the kind of addressing.
\<close>

record S3StoreConfig =
  endpoint :: string
  region :: string
  use_https :: bool
  verify_ssl :: bool
  path_style :: bool
  max_connections :: "32 word"
  connect_timeout_ms :: i64
  request_timeout_ms :: i64

definition default_S3StoreConfig :: S3StoreConfig where
  "default_S3StoreConfig = \<lparr>endpoint = [], region = ''us-east-1'', use_https = True, verify_ssl = True,
     path_style = True, max_connections = 128, connect_timeout_ms = 3000, request_timeout_ms = 30000\<rparr>"

datatype http_scheme = HTTP | HTTPS

datatype signing_policy = RequestDependent | Always | Never

record s3_client_settings =
  endpointOverride :: string
  client_region :: string
  scheme :: http_scheme
  verifySSL :: bool
  maxConnections :: "32 word"
  connectTimeoutMs :: i64
  requestTimeoutMs :: i64
  signPayloads :: signing_policy
  useVirtualAddressing :: bool

definition S3Store_init :: "S3StoreConfig \<Rightarrow> s3_client_settings" where
  "S3Store_init cfg = \<lparr>endpointOverride = endpoint cfg, client_region = region cfg,
     scheme = (if use_https cfg then HTTPS else HTTP), verifySSL = verify_ssl cfg,
     maxConnections = max_connections cfg, connectTimeoutMs = connect_timeout_ms cfg,
     requestTimeoutMs = request_timeout_ms cfg, signPayloads = Never,
     useVirtualAddressing = (\<not> path_style cfg)\<rparr>"

section \<open>The store\<close>

definition ErrorFromS3Failure :: "string \<Rightarrow> string \<Rightarrow> s3_failure \<Rightarrow> Error" where
  "ErrorFromS3Failure operation key e =
     (let msg = operation @ '' failed for object '' @ key @ '': '' @ exception_name e @ '': '' @
            failure_message e
      in if response_code e = 404 then MakeError (NotFound key) msg else MakeError Unavailable msg)"

definition RangeHeader :: "GetObjectRequest \<Rightarrow> string" where
  "RangeHeader req =
     (case get_offset req of
        None \<Rightarrow> []
      | Some off \<Rightarrow>
          ''bytes='' @ to_string off @ ''-'' @
          (case get_length req of
             None \<Rightarrow> []
           | Some l \<Rightarrow> if l > 0 then to_string (off + l - 1) else []))"

definition S3_PutObject ::
  "'w s3_client \<Rightarrow> PutObjectRequest \<Rightarrow> 'w \<Rightarrow> PutObjectResult Result \<times> 'w" where
  "S3_PutObject c req w =
     (case s3_put c (put_bucket req) (put_key req) (content_type req)
             (of_nat (length (put_body req))) (put_body req) w of
        (Inl e, w) \<Rightarrow> (Inl (ErrorFromS3Failure ''put object'' (put_key req) e), w)
      | (Inr tag, w) \<Rightarrow> (Inr \<lparr>put_etag = tag, put_size = of_nat (length (put_body req))\<rparr>, w))"

definition S3_GetObject :: "'w s3_client \<Rightarrow> GetObjectRequest \<Rightarrow> 'w \<Rightarrow> GetObjectResult Result" where
  "S3_GetObject c req w =
     (if get_length req \<noteq> None \<and> get_offset req = None
      then Inl (MakeError InvalidArgument ''object range length requires offset'')
      else
        let range = RangeHeader req
        in case s3_get c (get_bucket req) (get_key req) (if range = [] then None else Some range) w of
             Inl e \<Rightarrow> Inl (ErrorFromS3Failure ''get object'' (get_key req) e)
           | Inr r \<Rightarrow>
               Inr \<lparr>get_body = s3_body r, get_etag = s3_etag r,
                 content_length = (if sint (s3_content_length r) < 0 then 0 else s3_content_length r)\<rparr>)"

definition S3_DeleteObject :: "'w s3_client \<Rightarrow> DeleteObjectRequest \<Rightarrow> 'w \<Rightarrow> unit Result \<times> 'w" where
  "S3_DeleteObject c req w =
     (case s3_delete c (delete_bucket req) (delete_key req) w of
        (Inl e, w) \<Rightarrow> (Inl (ErrorFromS3Failure ''delete object'' (delete_key req) e), w)
      | (Inr _, w) \<Rightarrow> (Inr (), w))"

definition info_of :: "s3_object \<Rightarrow> ObjectInfo" where
  "info_of obj = \<lparr>info_key = s3_key obj,
     info_size = (if sint (s3_size obj) < 0 then 0 else s3_size obj),
     last_modified_ms = s3_modified_ms obj\<rparr>"

definition S3_ListObjects :: "'w s3_client \<Rightarrow> ListObjectsRequest \<Rightarrow> 'w \<Rightarrow> ListObjectsResult Result" where
  "S3_ListObjects c req w =
     (case s3_list c (list_bucket req) (list_prefix req) 1000
             (if continuation_token req = [] then None else Some (continuation_token req)) w of
        Inl e \<Rightarrow> Inl (ErrorFromS3Failure ''list objects'' (list_prefix req) e)
      | Inr r \<Rightarrow> Inr \<lparr>objects = map info_of (s3_contents r), next_continuation_token = s3_next_token r\<rparr>)"

section \<open>The store meets the contract of its users\<close>

text \<open>
  What the code relies on of S3: a range header with a first and a last position inside the
  object gives the bytes from the first to the last one, both included; a successful put or
  delete has replaced or removed one object.
\<close>

locale s3_sdk =
  fixes c :: "'w s3_client" and holds :: "'w \<Rightarrow> string \<Rightarrow> string \<Rightarrow> bytes option"
  assumes sdk_get:
      "holds w bucket key = Some body \<Longrightarrow> lo \<le> hi \<Longrightarrow> unat hi < length body \<Longrightarrow>
        length body < 2 ^ 64 \<Longrightarrow>
        \<exists>r. s3_get c bucket key (Some (''bytes='' @ to_string lo @ ''-'' @ to_string hi)) w = Inr r \<and>
          s3_body r = take (Suc (unat hi) - unat lo) (drop (unat lo) body)"
    and sdk_put:
      "s3_put c bucket key ctype (of_nat (length body)) body w = (Inr tag, w') \<Longrightarrow>
        holds w' b k = (if b = bucket \<and> k = key then Some body else holds w b k)"
    and sdk_delete:
      "s3_delete c bucket key w = (Inr (), w') \<Longrightarrow>
        holds w' b k = (if b = bucket \<and> k = key then None else holds w b k)"

lemma range_last:
  fixes off l :: u64
  assumes "unat off + unat l < 2 ^ 64" and "l \<noteq> 0"
  shows "off \<le> off + l - 1" and "unat (off + l - 1) = unat off + unat l - 1"
proof -
  have "unat off + unat l < 2 ^ LENGTH(64)"
    using assms(1) by simp
  then have sum: "unat (off + l) = unat off + unat l"
    by (simp add: unat_word_ariths)
  have l: "1 \<le> unat l"
    using assms(2) by (simp add: Suc_le_eq word_neq_0_conv [symmetric] unat_gt_0)
  then have "1 \<le> off + l"
    using sum by (simp add: word_le_nat_alt)
  then show "unat (off + l - 1) = unat off + unat l - 1"
    using sum by (simp add: unat_sub)
  then show "off \<le> off + l - 1"
    using l by (simp add: word_le_nat_alt)
qed

context s3_sdk begin

lemma meets_contract:
  "object_store (S3_GetObject c) (S3_PutObject c) (S3_DeleteObject c) holds"
proof
  fix w bucket key body and off l :: u64
  assume body: "holds w bucket key = Some body" "length body < 2 ^ 64"
    and range: "unat off + unat l \<le> length body" "l \<noteq> 0"
  have n: "unat off + unat l < 2 ^ 64"
    using body(2) range(1) by simp
  have l: "0 < unat l"
    using range(2) by (simp add: unat_gt_0 word_neq_0_conv)
  have "unat (off + l - 1) < length body"
    using range_last(2) [OF n range(2)] range(1) l by simp
  from sdk_get [OF body(1) range_last(1) [OF n range(2)] this body(2)] obtain r where
    "s3_get c bucket key (Some (''bytes='' @ to_string off @ ''-'' @ to_string (off + l - 1))) w = Inr r"
    "s3_body r = take (Suc (unat off + unat l - 1) - unat off) (drop (unat off) body)"
    unfolding range_last(2) [OF n range(2)] by blast
  then show "\<exists>r. S3_GetObject c (range_request bucket key off l) w = Inr r \<and>
      get_body r = take (unat l) (drop (unat off) body)"
    using range(2) l by (simp add: S3_GetObject_def range_request_def RangeHeader_def word_neq_0_conv)
next
  fix req w r w' b k
  assume "S3_PutObject c req w = (Inr r, w')"
  then show "holds w' b k = (if b = put_bucket req \<and> k = put_key req then Some (put_body req) else holds w b k)"
    by (auto simp: S3_PutObject_def dest!: sdk_put [where b = b and k = k] split: prod.splits sum.splits)
next
  fix dreq w w' b k
  assume "S3_DeleteObject c dreq w = (Inr (), w')"
  then show "holds w' b k = (if b = delete_bucket dreq \<and> k = delete_key dreq then None else holds w b k)"
    by (auto simp: S3_DeleteObject_def dest!: sdk_delete [where b = b and k = k] split: prod.splits sum.splits)
qed

end

sublocale s3_sdk < object_store "S3_GetObject c" "S3_PutObject c" "S3_DeleteObject c" holds
  by (rule meets_contract)

text \<open>An SDK in memory: it reads the range header as a server does.\<close>

definition parse_range :: "string \<Rightarrow> nat \<times> nat" where
  "parse_range h =
     (let r = drop (length ''bytes='') h; a = takeWhile (\<lambda>c. c \<noteq> CHR ''-'') r
      in (string_to_nat a, string_to_nat (drop (Suc (length a)) r)))"

definition memory_get :: "string \<Rightarrow> string \<Rightarrow> string option \<Rightarrow> FakeObjectStore \<Rightarrow> s3_failure + s3_get_result" where
  "memory_get bucket key hdr w =
     (case omap_lookup w (bucket, key) of
        None \<Rightarrow> Inl \<lparr>exception_name = ''NoSuchKey'', failure_message = ''no such key'', response_code = 404\<rparr>
      | Some body \<Rightarrow>
          let bs = (case hdr of
                None \<Rightarrow> body
              | Some h \<Rightarrow> (case parse_range h of (a, b) \<Rightarrow> take (Suc b - a) (drop a body)))
          in Inr \<lparr>s3_body = bs, s3_etag = ''tag'', s3_content_length = of_nat (length bs)\<rparr>)"

definition memory_sdk :: "FakeObjectStore s3_client" where
  "memory_sdk = \<lparr>
     s3_put = \<lambda>bucket key ctype n body w. (Inr ''tag'', omap_put (bucket, key) body w),
     s3_get = memory_get,
     s3_delete = \<lambda>bucket key w. (Inr (), omap_erase (bucket, key) w),
     s3_list = \<lambda>bucket pfx n token w. Inr \<lparr>
         s3_contents = map (\<lambda>((_, key), body). \<lparr>s3_key = key, s3_size = of_nat (length body), s3_modified_ms = 0\<rparr>)
           (filter (\<lambda>((b, key), _). b = bucket \<and> take (length pfx) key = pfx) (entries w)),
         s3_next_token = []\<rparr>\<rparr>"

lemma parse_range_header:
  "parse_range (''bytes='' @ to_string a @ ''-'' @ to_string b) = (unat a, unat b)"
proof -
  have "takeWhile (\<lambda>c. c \<noteq> CHR ''-'') (to_string a @ CHR ''-'' # to_string b) = to_string a"
    using separators_not_in_to_string(2) [of a] by (subst takeWhile_append2) auto
  then show ?thesis
    by (simp add: parse_range_def Let_def to_string_def string_to_nat_to_string)
qed

interpretation memory: s3_sdk memory_sdk fake_holds
proof unfold_locales
  fix w bucket key body and lo hi :: u64
  assume "fake_holds w bucket key = Some body"
  then show "\<exists>r. s3_get memory_sdk bucket key (Some (''bytes='' @ to_string lo @ ''-'' @ to_string hi)) w = Inr r \<and>
      s3_body r = take (Suc (unat hi) - unat lo) (drop (unat lo) body)"
    unfolding memory_sdk_def s3_client.simps memory_get_def
    by (simp only: fake_holds_def option.case parse_range_header prod.case Let_def) simp
qed (auto simp: memory_sdk_def fake_holds_def)

section \<open>The life of the SDK\<close>

text \<open>
  The counter of live \<^verbatim>\<open>AwsSdkRuntime\<close> values, and the calls made to the SDK so far.
\<close>

datatype sdk_call = InitAPI | ShutdownAPI

record sdk_state =
  aws_sdk_ref_count :: u64
  sdk_calls :: "sdk_call list"

definition AwsSdkRuntime_create :: "sdk_state \<Rightarrow> sdk_state" where
  "AwsSdkRuntime_create s =
     (let s = (if aws_sdk_ref_count s = 0 then s\<lparr>sdk_calls := sdk_calls s @ [InitAPI]\<rparr> else s)
      in s\<lparr>aws_sdk_ref_count := aws_sdk_ref_count s + 1\<rparr>)"

definition AwsSdkRuntime_destroy :: "sdk_state \<Rightarrow> sdk_state" where
  "AwsSdkRuntime_destroy s =
     (let s = s\<lparr>aws_sdk_ref_count := aws_sdk_ref_count s - 1\<rparr>
      in if aws_sdk_ref_count s = 0 then s\<lparr>sdk_calls := sdk_calls s @ [ShutdownAPI]\<rparr> else s)"

text \<open>
  A program creates runtimes and destroys the ones it has; \<open>n\<close> counts them.  Fewer than
  \<open>2 ^ 64\<close> of them fit in memory.
\<close>

inductive sdk_step :: "nat \<times> sdk_state \<Rightarrow> nat \<times> sdk_state \<Rightarrow> bool" where
  create: "Suc n < 2 ^ 64 \<Longrightarrow> sdk_step (n, s) (Suc n, AwsSdkRuntime_create s)"
| destroy: "sdk_step (Suc n, s) (n, AwsSdkRuntime_destroy s)"

inductive sdk_reachable :: "nat \<times> sdk_state \<Rightarrow> bool" where
  start: "sdk_reachable (0, \<lparr>aws_sdk_ref_count = 0, sdk_calls = []\<rparr>)"
| step: "sdk_reachable x \<Longrightarrow> sdk_step x y \<Longrightarrow> sdk_reachable y"

text \<open>The calls of a history that starts the SDK and stops it in turns.\<close>

fun alternating :: "bool \<Rightarrow> sdk_call list \<Rightarrow> bool \<Rightarrow> bool" where
  "alternating up [] up' = (up = up')"
| "alternating up (InitAPI # cs) up' = (\<not> up \<and> alternating True cs up')"
| "alternating up (ShutdownAPI # cs) up' = (up \<and> alternating False cs up')"

lemma alternating_append:
  "alternating up (cs @ ds) up' \<longleftrightarrow> (\<exists>u. alternating up cs u \<and> alternating u ds up')"
  by (induction up cs up' rule: alternating.induct) auto

definition sdk_ok :: "nat \<times> sdk_state \<Rightarrow> bool" where
  "sdk_ok x \<longleftrightarrow> fst x < 2 ^ 64 \<and> unat (aws_sdk_ref_count (snd x)) = fst x \<and>
     alternating False (sdk_calls (snd x)) (fst x \<noteq> 0)"

lemma sdk_step_ok: "sdk_step x y \<Longrightarrow> sdk_ok x \<Longrightarrow> sdk_ok y"
proof (induction rule: sdk_step.induct)
  case (create n s)
  then have u: "unat (aws_sdk_ref_count s) = n"
    by (simp add: sdk_ok_def)
  have "unat (aws_sdk_ref_count s + 1) = Suc n"
    using u create.hyps by (simp add: unat_word_ariths)
  moreover have "aws_sdk_ref_count s = 0 \<longleftrightarrow> n = 0"
    using u by (auto simp: unat_eq_0)
  ultimately show ?case
    using create by (auto simp: sdk_ok_def AwsSdkRuntime_create_def Let_def alternating_append)
next
  case (destroy n s)
  then have u: "unat (aws_sdk_ref_count s) = Suc n"
    by (simp add: sdk_ok_def)
  then have "1 \<le> aws_sdk_ref_count s"
    by (simp add: word_le_nat_alt)
  then have v: "unat (aws_sdk_ref_count s - 1) = n"
    using u by (simp add: unat_sub)
  then have "aws_sdk_ref_count s - 1 = 0 \<longleftrightarrow> n = 0"
    by (auto simp: unat_eq_0)
  with v destroy show ?case
    by (auto simp: sdk_ok_def AwsSdkRuntime_destroy_def Let_def alternating_append)
qed

lemma sdk_reachable_ok: "sdk_reachable x \<Longrightarrow> sdk_ok x"
proof (induction rule: sdk_reachable.induct)
  case (step x y)
  then show ?case
    using sdk_step_ok by blast
qed (simp add: sdk_ok_def)

end
