(* ===== verification/Gc_Service.thy ===== *)
theory Gc_Service
  imports Object_Store
begin

text \<open>
  \<^verbatim>\<open>src/gc_service.h\<close> and \<^verbatim>\<open>src/gc_service.cc\<close>: the pass that deletes objects no file
  uses.  The metadata client and the object store are parameters on a world \<open>'w\<close>, the
  clock is an argument, log output is left out.  The listing loop ends when a page comes
  without a continuation token; a store that never does keeps it going, here \<open>None\<close>.
\<close>

section \<open>The code\<close>

record GcServiceConfig =
  meta_address :: string
  gc_bucket :: string
  object_prefix :: string
  s3_endpoint :: string
  s3_region :: string
  s3_use_https :: bool
  s3_verify_ssl :: bool
  grace_seconds :: u64
  dry_run :: bool

definition ChunkPrefix :: "string \<Rightarrow> string" where
  "ChunkPrefix p = (if p = [] then ''chunks/'' else p @ ''/chunks/'')"

definition cutoff_ms :: "i64 \<Rightarrow> u64 \<Rightarrow> i64" where
  "cutoff_ms now grace = now - grace * 1000"

record GcCounters =
  scanned :: u64
  live :: u64
  skipped_young :: u64
  deleted :: u64
  delete_failed :: u64

definition GcCounters_init :: GcCounters where
  "GcCounters_init = \<lparr>scanned = 0, live = 0, skipped_young = 0, deleted = 0, delete_failed = 0\<rparr>"

text \<open>The body of the loop over the objects of a page.\<close>

definition gc_object ::
  "(DeleteObjectRequest \<Rightarrow> 'w \<Rightarrow> unit Result \<times> 'w) \<Rightarrow> string \<Rightarrow> bool \<Rightarrow> string set \<Rightarrow> i64
     \<Rightarrow> ObjectInfo \<Rightarrow> GcCounters \<times> 'w \<Rightarrow> GcCounters \<times> 'w" where
  "gc_object delete bucket dry live_objects cutoff obj = (\<lambda>(n, w).
     let n = n\<lparr>scanned := scanned n + 1\<rparr>
     in if info_key obj \<in> live_objects then (n\<lparr>live := live n + 1\<rparr>, w)
        else if sint (last_modified_ms obj) > sint cutoff
        then (n\<lparr>skipped_young := skipped_young n + 1\<rparr>, w)
        else if dry then (n\<lparr>deleted := deleted n + 1\<rparr>, w)
        else case delete \<lparr>delete_bucket = bucket, delete_key = info_key obj\<rparr> w of
               (Inl _, w) \<Rightarrow> (n\<lparr>delete_failed := delete_failed n + 1\<rparr>, w)
             | (Inr _, w) \<Rightarrow> (n\<lparr>deleted := deleted n + 1\<rparr>, w))"

definition gc_objects ::
  "(DeleteObjectRequest \<Rightarrow> 'w \<Rightarrow> unit Result \<times> 'w) \<Rightarrow> string \<Rightarrow> bool \<Rightarrow> string set \<Rightarrow> i64
     \<Rightarrow> ObjectInfo list \<Rightarrow> GcCounters \<times> 'w \<Rightarrow> GcCounters \<times> 'w" where
  "gc_objects delete bucket dry live_objects cutoff objs =
     fold (gc_object delete bucket dry live_objects cutoff) objs"

text \<open>The loop over the pages; \<open>Inl\<close> is a listing that failed.\<close>

partial_function (option) gc_pages ::
  "(ListObjectsRequest \<Rightarrow> 'w \<Rightarrow> ListObjectsResult Result) \<Rightarrow>
   (DeleteObjectRequest \<Rightarrow> 'w \<Rightarrow> unit Result \<times> 'w) \<Rightarrow> string \<Rightarrow> string \<Rightarrow> bool \<Rightarrow> string set \<Rightarrow> i64
     \<Rightarrow> string \<Rightarrow> GcCounters \<times> 'w \<Rightarrow> ((Error + GcCounters) \<times> 'w) option" where
  "gc_pages list_objects delete bucket pfx dry live_objects cutoff token st =
     (case list_objects \<lparr>list_bucket = bucket, list_prefix = pfx, continuation_token = token\<rparr> (snd st) of
        Inl e \<Rightarrow> Some (Inl e, snd st)
      | Inr page \<Rightarrow>
          let st = gc_objects delete bucket dry live_objects cutoff (objects page) st
          in if next_continuation_token page = [] then Some (Inr (fst st), snd st)
             else gc_pages list_objects delete bucket pfx dry live_objects cutoff
                    (next_continuation_token page) st)"

declare gc_pages.simps [code]

lemma gc_pages_fail:
  assumes "lst \<lparr>list_bucket = bucket, list_prefix = pfx, continuation_token = token\<rparr> (snd st) = Inl e"
  shows "gc_pages lst del bucket pfx dry L cutoff token st = Some (Inl e, snd st)"
  using assms by (subst gc_pages.simps) simp

lemma gc_pages_last:
  assumes "lst \<lparr>list_bucket = bucket, list_prefix = pfx, continuation_token = token\<rparr> (snd st) = Inr page"
    and "next_continuation_token page = []"
  shows "gc_pages lst del bucket pfx dry L cutoff token st =
    map_option (map_prod Inr id) (Some (gc_objects del bucket dry L cutoff (objects page) st))"
  using assms by (subst gc_pages.simps) (simp add: Let_def map_prod_def split_beta)

lemma gc_pages_next:
  assumes "lst \<lparr>list_bucket = bucket, list_prefix = pfx, continuation_token = token\<rparr> (snd st) = Inr page"
    and "next_continuation_token page \<noteq> []"
  shows "gc_pages lst del bucket pfx dry L cutoff token st =
    gc_pages lst del bucket pfx dry L cutoff (next_continuation_token page)
      (gc_objects del bucket dry L cutoff (objects page) st)"
  using assms by (subst gc_pages.simps) (simp add: Let_def)

definition RunOnce ::
  "('w \<Rightarrow> string list Result \<times> 'w) \<Rightarrow> (ListObjectsRequest \<Rightarrow> 'w \<Rightarrow> ListObjectsResult Result) \<Rightarrow>
   (DeleteObjectRequest \<Rightarrow> 'w \<Rightarrow> unit Result \<times> 'w) \<Rightarrow> i64 \<Rightarrow> GcServiceConfig \<Rightarrow> 'w \<Rightarrow> (int \<times> 'w) option" where
  "RunOnce list_live list_objects delete now cfg w =
     (if gc_bucket cfg = [] then Some (-1, w)
      else if s3_endpoint cfg = [] then Some (-1, w)
      else case list_live w of
             (Inl _, w) \<Rightarrow> Some (-1, w)
           | (Inr live_result, w) \<Rightarrow>
               (case gc_pages list_objects delete (gc_bucket cfg) (ChunkPrefix (object_prefix cfg))
                       (dry_run cfg) (set live_result) (cutoff_ms now (grace_seconds cfg)) []
                       (GcCounters_init, w) of
                  None \<Rightarrow> None
                | Some (Inl _, w) \<Rightarrow> Some (-1, w)
                | Some (Inr n, w) \<Rightarrow> Some (if delete_failed n = 0 then 0 else -1, w)))"

section \<open>What is kept\<close>

text \<open>
  The contract of a store that lists its objects: a page tells the truth about the key and
  the age of its objects, deleting one object leaves the others (and their age) alone, also
  when it fails.
\<close>

locale object_lister =
  fixes ListObjects :: "ListObjectsRequest \<Rightarrow> 'w \<Rightarrow> ListObjectsResult Result"
    and DeleteObject :: "DeleteObjectRequest \<Rightarrow> 'w \<Rightarrow> unit Result \<times> 'w"
    and holds :: "'w \<Rightarrow> string \<Rightarrow> string \<Rightarrow> bytes option"
    and modified :: "'w \<Rightarrow> string \<Rightarrow> string \<Rightarrow> i64"
  assumes list_truth:
      "ListObjects req w = Inr page \<Longrightarrow> info \<in> set (objects page) \<Longrightarrow>
        take (length (list_prefix req)) (info_key info) = list_prefix req \<and>
        (holds w (list_bucket req) (info_key info) \<noteq> None \<longrightarrow>
           last_modified_ms info = modified w (list_bucket req) (info_key info))"
    and delete_other:
      "DeleteObject dreq w = (res, w') \<Longrightarrow> b \<noteq> delete_bucket dreq \<or> k \<noteq> delete_key dreq \<Longrightarrow>
        holds w' b k = holds w b k \<and> modified w' b k = modified w b k"
begin

text \<open>An object a pass must not touch: in use, too young, or outside the prefix.\<close>

definition spared :: "string \<Rightarrow> string \<Rightarrow> string set \<Rightarrow> i64 \<Rightarrow> 'w \<Rightarrow> string \<Rightarrow> string \<Rightarrow> bool" where
  "spared bucket pfx live_objects cutoff w b k \<longleftrightarrow> b \<noteq> bucket \<or> k \<in> live_objects \<or>
     sint (modified w b k) > sint cutoff \<or> take (length pfx) k \<noteq> pfx"

definition same_object :: "'w \<Rightarrow> 'w \<Rightarrow> string \<Rightarrow> string \<Rightarrow> bool" where
  "same_object w w' b k \<longleftrightarrow> holds w' b k = holds w b k \<and> modified w' b k = modified w b k"

lemma gc_object_same:
  assumes "b \<noteq> bucket \<or> k \<noteq> info_key obj \<or> k \<in> L \<or> sint (last_modified_ms obj) > sint cutoff"
  shows "same_object (snd st) (snd (gc_object DeleteObject bucket dry L cutoff obj st)) b k"
proof -
  obtain n w where st: "st = (n, w)"
    by (cases st)
  obtain res w' where d: "DeleteObject \<lparr>delete_bucket = bucket, delete_key = info_key obj\<rparr> w = (res, w')"
    by (cases "DeleteObject \<lparr>delete_bucket = bucket, delete_key = info_key obj\<rparr> w")
  show ?thesis
    using assms delete_other [OF d, of b k]
    by (cases res) (auto simp: gc_object_def st d Let_def same_object_def)
qed

lemma gc_objects_same:
  assumes "\<And>obj. obj \<in> set objs \<Longrightarrow>
      b \<noteq> bucket \<or> k \<noteq> info_key obj \<or> k \<in> L \<or> sint (last_modified_ms obj) > sint cutoff"
  shows "same_object (snd st) (snd (gc_objects DeleteObject bucket dry L cutoff objs st)) b k"
  using assms
proof (induction objs arbitrary: st)
  case (Cons obj objs)
  have "same_object (snd st) (snd (gc_object DeleteObject bucket dry L cutoff obj st)) b k"
    by (rule gc_object_same) (use Cons.prems in simp)
  moreover have "same_object (snd (gc_object DeleteObject bucket dry L cutoff obj st))
      (snd (gc_objects DeleteObject bucket dry L cutoff objs (gc_object DeleteObject bucket dry L cutoff obj st))) b k"
    by (rule Cons.IH) (use Cons.prems in simp)
  ultimately show ?case
    by (simp add: gc_objects_def same_object_def)
qed (simp add: gc_objects_def same_object_def)

text \<open>The pass leaves every held object that is to be spared as it was.\<close>

lemma gc_pages_spare:
  assumes "gc_pages ListObjects DeleteObject bucket pfx dry L cutoff token st = Some (res, w')"
    and "spared bucket pfx L cutoff (snd st) b k" and "holds (snd st) b k \<noteq> None"
  shows "holds w' b k = holds (snd st) b k"
proof -
  have "spared bucket pfx L cutoff (snd st) b k \<longrightarrow> holds (snd st) b k \<noteq> None \<longrightarrow>
      holds (snd r) b k = holds (snd st) b k"
    if "gc_pages ListObjects DeleteObject bucket pfx dry L cutoff token st = Some r"
    for bucket pfx dry L cutoff token st and r :: "(Error + GcCounters) \<times> 'w"
  proof (rule gc_pages.raw_induct [where P = "\<lambda>list delete bucket pfx dry L cutoff token st r.
      list = ListObjects \<longrightarrow> delete = DeleteObject \<longrightarrow>
      spared bucket pfx L cutoff (snd st) b k \<longrightarrow> holds (snd st) b k \<noteq> None \<longrightarrow>
      holds (snd r) b k = holds (snd st) b k", OF _ that, THEN mp, THEN mp, OF _ refl refl])
    fix rec list_objects delete bucket pfx dry L cutoff token st and r :: "(Error + GcCounters) \<times> 'w"
    assume IH: "\<And>list_objects delete bucket pfx dry L cutoff token st r.
        rec list_objects delete bucket pfx dry L cutoff token st = Some r \<Longrightarrow>
        list_objects = ListObjects \<longrightarrow> delete = DeleteObject \<longrightarrow>
        spared bucket pfx L cutoff (snd st) b k \<longrightarrow> holds (snd st) b k \<noteq> None \<longrightarrow>
        holds (snd r) b k = holds (snd st) b k"
      and step: "(case list_objects
          \<lparr>list_bucket = bucket, list_prefix = pfx, continuation_token = token\<rparr> (snd st) of
        Inl e \<Rightarrow> Some (Inl e, snd st)
      | Inr page \<Rightarrow>
          let st = gc_objects delete bucket dry L cutoff (objects page) st
          in if next_continuation_token page = [] then Some (Inr (fst st), snd st)
             else rec list_objects delete bucket pfx dry L cutoff (next_continuation_token page) st) = Some r"
    show "list_objects = ListObjects \<longrightarrow> delete = DeleteObject \<longrightarrow>
        spared bucket pfx L cutoff (snd st) b k \<longrightarrow> holds (snd st) b k \<noteq> None \<longrightarrow>
        holds (snd r) b k = holds (snd st) b k"
    proof (intro impI)
      assume p: "list_objects = ListObjects" "delete = DeleteObject"
        and sp: "spared bucket pfx L cutoff (snd st) b k" and h: "holds (snd st) b k \<noteq> None"
      let ?req = "\<lparr>list_bucket = bucket, list_prefix = pfx, continuation_token = token\<rparr>"
      show "holds (snd r) b k = holds (snd st) b k"
      proof (cases "ListObjects ?req (snd st)")
        case (Inr page)
        let ?st = "gc_objects DeleteObject bucket dry L cutoff (objects page) st"
        have same: "same_object (snd st) (snd ?st) b k"
        proof (rule gc_objects_same)
          fix obj
          assume "obj \<in> set (objects page)"
          from list_truth [OF Inr this] sp h
          show "b \<noteq> bucket \<or> k \<noteq> info_key obj \<or> k \<in> L \<or> sint (last_modified_ms obj) > sint cutoff"
            by (auto simp: spared_def)
        qed
        then have "spared bucket pfx L cutoff (snd ?st) b k" "holds (snd ?st) b k \<noteq> None"
          using sp h by (simp_all add: spared_def same_object_def)
        with IH [of ListObjects DeleteObject bucket pfx dry L cutoff "next_continuation_token page" ?st r]
        show ?thesis
          using step same Inr p by (auto simp: Let_def same_object_def split: if_splits)
      qed (use step p in auto)
    qed
  qed
  from this [OF assms(1)] assms(2,3) show ?thesis
    by simp
qed

end

section \<open>What is collected\<close>

text \<open>
  A listing that comes to its end and misses nothing: each page holds the objects that come
  after its token up to those after the next one, \<open>after\<close> says which these are, and
  \<open>left\<close> counts the pages that are left.  Deletes that report success have deleted.
\<close>

locale page_lister = object_lister +
  fixes after :: "string \<Rightarrow> string \<Rightarrow> bool" and left :: "string \<Rightarrow> nat"
  assumes from_start: "after [] k"
    and page_complete:
      "ListObjects req w = Inr page \<Longrightarrow> holds w (list_bucket req) k \<noteq> None \<Longrightarrow>
        take (length (list_prefix req)) k = list_prefix req \<Longrightarrow> after (continuation_token req) k \<Longrightarrow>
        k \<in> info_key ` set (objects page) \<or>
        (next_continuation_token page \<noteq> [] \<and> after (next_continuation_token page) k)"
    and pages_end:
      "ListObjects req w = Inr page \<Longrightarrow> next_continuation_token page \<noteq> [] \<Longrightarrow>
        left (next_continuation_token page) < left (continuation_token req)"
    and delete_self:
      "DeleteObject dreq w = (Inr (), w') \<Longrightarrow> holds w' (delete_bucket dreq) (delete_key dreq) = None"
begin

text \<open>The pass ends.\<close>

lemma gc_pages_end:
  "\<exists>r. gc_pages ListObjects DeleteObject bucket pfx dry L cutoff token st = Some r"
proof (induction "left token" arbitrary: token st rule: less_induct)
  case less
  let ?req = "\<lparr>list_bucket = bucket, list_prefix = pfx, continuation_token = token\<rparr>"
  show ?case
  proof (cases "ListObjects ?req (snd st)")
    case (Inr page)
    show ?thesis
    proof (cases "next_continuation_token page = []")
      case False
      show ?thesis
        unfolding gc_pages_next [where lst = ListObjects, OF Inr False]
        by (rule less) (use pages_end [OF Inr False] in simp)
    qed (simp add: gc_pages_last [where lst = ListObjects, OF Inr])
  qed (simp add: gc_pages_fail)
qed

text \<open>When every call succeeds, so does the pass, without a failed delete.\<close>

lemma gc_objects_clean:
  assumes "\<And>dreq w. \<exists>w'. DeleteObject dreq w = (Inr (), w')"
  shows "delete_failed (fst (gc_objects DeleteObject bucket dry L cutoff objs st)) = delete_failed (fst st)"
proof (induction objs arbitrary: st)
  case (Cons obj objs)
  obtain n w where st: "st = (n, w)"
    by (cases st)
  obtain w' where d: "DeleteObject \<lparr>delete_bucket = bucket, delete_key = info_key obj\<rparr> w = (Inr (), w')"
    using assms by blast
  have "delete_failed (fst (gc_object DeleteObject bucket dry L cutoff obj st)) = delete_failed (fst st)"
    by (simp add: gc_object_def st d Let_def)
  with Cons show ?case
    by (simp add: gc_objects_def)
qed (simp add: gc_objects_def)

lemma gc_pages_clean:
  assumes works: "\<And>dreq w. \<exists>w'. DeleteObject dreq w = (Inr (), w')"
    and lists: "\<And>req w. \<exists>page. ListObjects req w = Inr page"
  shows "\<exists>n w'. gc_pages ListObjects DeleteObject bucket pfx dry L cutoff token st = Some (Inr n, w') \<and>
    delete_failed n = delete_failed (fst st)"
proof (induction "left token" arbitrary: token st rule: less_induct)
  case less
  let ?req = "\<lparr>list_bucket = bucket, list_prefix = pfx, continuation_token = token\<rparr>"
  obtain page where page: "ListObjects ?req (snd st) = Inr page"
    using lists by blast
  let ?st = "gc_objects DeleteObject bucket dry L cutoff (objects page) st"
  have clean: "delete_failed (fst ?st) = delete_failed (fst st)"
    by (rule gc_objects_clean [OF works])
  show ?case
  proof (cases "next_continuation_token page = []")
    case True
    then show ?thesis
      using clean by (simp add: gc_pages_last [where lst = ListObjects, OF page] map_prod_def split_beta)
  next
    case False
    show ?thesis
      unfolding gc_pages_next [where lst = ListObjects, OF page False] clean [symmetric]
      by (rule less) (use pages_end [OF page False] in simp)
  qed
qed

lemma gc_object_gone:
  assumes "holds (snd st) b k = None"
    and "\<And>dreq w. \<exists>w'. DeleteObject dreq w = (Inr (), w')"
  shows "holds (snd (gc_object DeleteObject bucket dry L cutoff obj st)) b k = None"
proof -
  obtain n w where st: "st = (n, w)"
    by (cases st)
  obtain w' where d: "DeleteObject \<lparr>delete_bucket = bucket, delete_key = info_key obj\<rparr> w = (Inr (), w')"
    using assms(2) by blast
  have "holds w' b k = None"
    using delete_self [OF d] delete_other [OF d, of b k] assms(1) st
    by (cases "b = bucket \<and> k = info_key obj") auto
  with assms(1) show ?thesis
    by (simp add: gc_object_def st d Let_def)
qed

lemma gc_objects_gone:
  assumes "\<And>dreq w. \<exists>w'. DeleteObject dreq w = (Inr (), w')"
  shows "holds (snd st) b k = None \<Longrightarrow>
    holds (snd (gc_objects DeleteObject bucket dry L cutoff objs st)) b k = None"
  using gc_object_gone [OF _ assms] by (induction objs arbitrary: st) (simp_all add: gc_objects_def)

text \<open>An object that is not in use and old enough is gone after the page that lists it.\<close>

lemma gc_objects_collect:
  assumes works: "\<And>dreq w. \<exists>w'. DeleteObject dreq w = (Inr (), w')"
    and "k \<notin> L" and "obj \<in> set objs" and "info_key obj = k"
    and "\<And>x. x \<in> set objs \<Longrightarrow> info_key x = k \<Longrightarrow> sint (last_modified_ms x) \<le> sint cutoff"
  shows "holds (snd (gc_objects DeleteObject bucket False L cutoff objs st)) bucket k = None"
  using assms(3,5)
proof (induction objs arbitrary: st)
  case (Cons x objs)
  let ?st = "gc_object DeleteObject bucket False L cutoff x st"
  have rest: "gc_objects DeleteObject bucket False L cutoff (x # objs) st =
      gc_objects DeleteObject bucket False L cutoff objs ?st"
    by (simp add: gc_objects_def)
  show ?case
  proof (cases "info_key x = k")
    case True
    obtain n w where st: "st = (n, w)"
      by (cases st)
    obtain w' where d: "DeleteObject \<lparr>delete_bucket = bucket, delete_key = k\<rparr> w = (Inr (), w')"
      using works by blast
    have "sint (last_modified_ms x) \<le> sint cutoff"
      using Cons.prems(2) True by simp
    with True d assms(2) have "snd ?st = w'"
      by (simp add: gc_object_def st Let_def)
    then have "holds (snd ?st) bucket k = None"
      using delete_self [OF d] by simp
    then show ?thesis
      unfolding rest by (rule gc_objects_gone [OF works])
  next
    case False
    with Cons.prems assms(4) have "obj \<in> set objs"
      by auto
    then show ?thesis
      unfolding rest by (rule Cons.IH) (use Cons.prems(2) in simp)
  qed
qed simp

lemma gc_pages_gone:
  assumes works: "\<And>dreq w. \<exists>w'. DeleteObject dreq w = (Inr (), w')"
    and "gc_pages ListObjects DeleteObject bucket pfx dry L cutoff token st = Some (res, w')"
    and "holds (snd st) b k = None"
  shows "holds w' b k = None"
  using assms(2,3)
proof (induction "left token" arbitrary: token st rule: less_induct)
  case less
  let ?req = "\<lparr>list_bucket = bucket, list_prefix = pfx, continuation_token = token\<rparr>"
  show ?case
  proof (cases "ListObjects ?req (snd st)")
    case (Inr page)
    let ?st = "gc_objects DeleteObject bucket dry L cutoff (objects page) st"
    have g: "holds (snd ?st) b k = None"
      by (rule gc_objects_gone [OF works less.prems(2)])
    show ?thesis
    proof (cases "next_continuation_token page = []")
      case False
      show ?thesis
        by (rule less.hyps [OF _ _ g])
          (use pages_end [OF Inr False] less.prems(1) gc_pages_next [where lst = ListObjects, OF Inr False] in simp_all)
    next
      case True
      then show ?thesis
        using less.prems(1) g gc_pages_last [where lst = ListObjects, OF Inr True]
        by (auto simp: map_prod_def split_beta)
    qed
  next
    case (Inl e)
    then show ?thesis
      using less.prems gc_pages_fail [where lst = ListObjects, OF Inl] by auto
  qed
qed

text \<open>Each page gets rid of an old unused object that is on it.\<close>

lemma gc_page_collect:
  assumes works: "\<And>dreq w. \<exists>w'. DeleteObject dreq w = (Inr (), w')" and "k \<notin> L"
    and page: "ListObjects \<lparr>list_bucket = bucket, list_prefix = pfx, continuation_token = token\<rparr> (snd st) = Inr page"
    and old: "sint (modified (snd st) bucket k) \<le> sint cutoff"
  shows "holds (snd (gc_objects DeleteObject bucket False L cutoff (objects page) st)) bucket k = None \<or>
    k \<notin> info_key ` set (objects page) \<and> holds (snd st) bucket k \<noteq> None"
proof (cases "holds (snd st) bucket k = None")
  case True
  then show ?thesis
    by (rule disjI1 [OF gc_objects_gone [OF works]])
next
  case h: False
  show ?thesis
  proof (cases "k \<in> info_key ` set (objects page)")
    case True
    then obtain obj where obj: "obj \<in> set (objects page)" "info_key obj = k"
      by auto
    have "sint (last_modified_ms x) \<le> sint cutoff" if "x \<in> set (objects page)" "info_key x = k" for x
      using list_truth [OF page that(1)] old that(2) h by simp
    then show ?thesis
      by (intro disjI1 gc_objects_collect [OF works assms(2) obj])
  qed (simp add: h)
qed

lemma gc_pages_collect:
  assumes works: "\<And>dreq w. \<exists>w'. DeleteObject dreq w = (Inr (), w')" and "k \<notin> L"
    and "gc_pages ListObjects DeleteObject bucket pfx False L cutoff token st = Some (Inr n, w')"
    and "take (length pfx) k = pfx" and "after token k \<or> holds (snd st) bucket k = None"
    and "sint (modified (snd st) bucket k) \<le> sint cutoff"
  shows "holds w' bucket k = None"
  using assms(3,5,6)
proof (induction "left token" arbitrary: token st rule: less_induct)
  case less
  let ?req = "\<lparr>list_bucket = bucket, list_prefix = pfx, continuation_token = token\<rparr>"
  obtain page where page: "ListObjects ?req (snd st) = Inr page"
    using less.prems(1) gc_pages_fail [where lst = ListObjects and bucket = bucket and pfx = pfx
        and token = token and st = st]
    by (cases "ListObjects ?req (snd st)") auto
  let ?st = "gc_objects DeleteObject bucket False L cutoff (objects page) st"
  have run: "if next_continuation_token page = [] then w' = snd ?st
      else gc_pages ListObjects DeleteObject bucket pfx False L cutoff (next_continuation_token page) ?st
        = Some (Inr n, w')"
    using less.prems(1) gc_pages_next [where lst = ListObjects, OF page]
      gc_pages_last [where lst = ListObjects, OF page]
    by (auto simp: map_prod_def split_beta)
  consider "holds (snd ?st) bucket k = None" | "k \<notin> info_key ` set (objects page)" "holds (snd st) bucket k \<noteq> None"
    using gc_page_collect [OF works assms(2) page less.prems(3)] by (elim disjE conjE) simp_all
  then show ?case
  proof cases
    case 1
    show ?thesis
    proof (cases "next_continuation_token page = []")
      case False
      have "gc_pages ListObjects DeleteObject bucket pfx False L cutoff
          (next_continuation_token page) ?st = Some (Inr n, w')"
        using run False by simp
      then show ?thesis
        using gc_pages_gone [OF works _ 1] by blast
    qed (use run 1 in simp)
  next
    case 2
    then have same: "same_object (snd st) (snd ?st) bucket k"
      by (intro gc_objects_same) auto
    have "after token k"
      using less.prems(2) 2(2) by (elim disjE) simp_all
    then have next_page: "next_continuation_token page \<noteq> []" "after (next_continuation_token page) k"
      using page_complete [OF page, of k] 2 assms(4) by simp_all
    show ?thesis
    proof (rule less.hyps)
      show "left (next_continuation_token page) < left token"
        using pages_end [OF page next_page(1)] by simp
      show "gc_pages ListObjects DeleteObject bucket pfx False L cutoff (next_continuation_token page) ?st
          = Some (Inr n, w')"
        using run next_page(1) by simp
      show "sint (modified (snd ?st) bucket k) \<le> sint cutoff"
        using same less.prems(3) by (simp add: same_object_def)
    qed (use next_page(2) in blast)
  qed
qed

end

text \<open>The store of the tests dates every object at zero.\<close>

interpretation fake_list: page_lister Fake_ListObjects Fake_DeleteObject fake_holds "\<lambda>_ _ _. 0"
  "\<lambda>token _. token = []" "\<lambda>_. 0"
proof unfold_locales
  show "fake_holds w' b k = fake_holds w b k \<and> (0::i64) = 0"
    if "Fake_DeleteObject dreq w = (res, w')" "b \<noteq> delete_bucket dreq \<or> k \<noteq> delete_key dreq"
    for dreq w res w' b k
    using that by (auto simp: Fake_DeleteObject_def fake_holds_def)
  show "k \<in> info_key ` set (objects page) \<or>
      (next_continuation_token page \<noteq> [] \<and> next_continuation_token page = [])"
    if "Fake_ListObjects req w = Inr page" "fake_holds w (list_bucket req) k \<noteq> None"
      "take (length (list_prefix req)) k = list_prefix req"
    for req w page k
  proof -
    from that(2) obtain body where "((list_bucket req, k), body) \<in> set (entries w)"
      by (auto simp: fake_holds_def in_entries_iff)
    with that(1,3) show ?thesis
      by (force simp: Fake_ListObjects_def image_iff)
  qed
qed (auto simp: Fake_ListObjects_def Fake_DeleteObject_def fake_holds_def)

end
