(* ===== verification/Store_Properties.thy ===== *)
theory Store_Properties
  imports Io_Properties Data_Properties S3_Store Gc_Service
begin

text \<open>
  The properties around the object store: names of objects, the S3 store, the reference
  count of its SDK, and the garbage collector.
\<close>

section \<open>Names of objects\<close>

text \<open>C30: the names that a mount gives to its objects do not repeat, up to 2 ^ 64 of them, and
  two mounts with different writer ids never use the same name, whatever prefixes, inodes
  and offsets they write.\<close>

theorem object_keys_unique:
  assumes "length rs \<le> 2 ^ 64"
    and "MakeWriterId a1 a2 a3 a4 t \<noteq> MakeWriterId b1 b2 b3 b4 u"
  shows "distinct (make_keys p rs (ObjectKeyGenerator_init (MakeWriterId a1 a2 a3 a4 t))) \<and>
    set (make_keys p rs (ObjectKeyGenerator_init (MakeWriterId a1 a2 a3 a4 t))) \<inter>
    set (make_keys q qs (ObjectKeyGenerator_init (MakeWriterId b1 b2 b3 b4 u))) = {}"
  using assms
  by (intro conjI make_keys_distinct make_keys_writers)
    (simp_all add: ObjectKeyGenerator_init_def MakeWriterId_no_slash)

theorem object_keys_unique_witness:
  "distinct (make_keys ''p'' [(3, 0), (3, 0)] (ObjectKeyGenerator_init (MakeWriterId 1 2 3 4 5))) \<and>
   set (make_keys ''p'' [(3, 0), (3, 0)] (ObjectKeyGenerator_init (MakeWriterId 1 2 3 4 5))) \<inter>
   set (make_keys ''p'' [(3, 0)] (ObjectKeyGenerator_init (MakeWriterId 1 2 3 4 6))) = {}"
proof (rule object_keys_unique)
  show "MakeWriterId 1 2 3 4 5 \<noteq> MakeWriterId 1 2 3 4 6"
    by code_simp
qed simp

section \<open>The S3 store\<close>

text \<open>C29: if the S3 service honours range headers and replaces or removes the objects it says
  it did, then the S3 store meets the contract its users rely on: the range it asks for is
  the range it was asked for, whole bodies are stored, and deletes delete.\<close>

theorem s3_meets_contract:
  assumes "s3_sdk c holds"
  shows "object_store (S3_GetObject c) (S3_PutObject c) (S3_DeleteObject c) holds"
  by (rule s3_sdk.meets_contract [OF assms])

theorem s3_meets_contract_witness:
  "ReadFromHandle (S3_GetObject memory_sdk) sample_store ''b'' sample_handle 10 0 = Inr [1, 7, 8, 0, 0, 9]"
proof -
  have "ReadFromHandle (S3_GetObject memory_sdk) sample_store ''b'' sample_handle 10 0 =
    Inr (map (\<lambda>i. byte_of (fake_holds sample_store ''b'') (handle_content sample_handle) (0 + of_nat i))
      [0..<min (unat (10::u64)) (unat (visible_size sample_handle) - unat (0::u64))])"
    by (rule object_store.read_handle [OF s3_meets_contract [OF memory.s3_sdk_axioms] sample_backed]) simp_all
  also have "\<dots> = Inr [1, 7, 8, 0, 0, 9]"
    by code_simp
  finally show ?thesis .
qed

text \<open>However runtimes are created and destroyed, the SDK is started and stopped in turns,
  never twice in a row, and it is up exactly while there is a runtime.\<close>

lemma sdk_in_turns:
  assumes "sdk_reachable (n, s)"
  shows "unat (aws_sdk_ref_count s) = n \<and> alternating False (sdk_calls s) (n \<noteq> 0)"
  using sdk_reachable_ok [OF assms] by (simp add: sdk_ok_def)

lemma sdk_in_turns_example:
  "alternating False [InitAPI, ShutdownAPI, InitAPI] True"
proof -
  let ?s = "AwsSdkRuntime_create \<lparr>aws_sdk_ref_count = 0, sdk_calls = []\<rparr>"
  let ?t = "AwsSdkRuntime_destroy (AwsSdkRuntime_destroy (AwsSdkRuntime_create ?s))"
  have "sdk_reachable (Suc 0, ?s)"
    by (rule sdk_reachable.step [OF sdk_reachable.start]) (rule sdk_step.create; simp)
  then have "sdk_reachable (Suc (Suc 0), AwsSdkRuntime_create ?s)"
    by (rule sdk_reachable.step) (rule sdk_step.create; simp)
  then have "sdk_reachable (Suc 0, AwsSdkRuntime_destroy (AwsSdkRuntime_create ?s))"
    by (rule sdk_reachable.step) (rule sdk_step.destroy)
  then have "sdk_reachable (0, ?t)"
    by (rule sdk_reachable.step) (rule sdk_step.destroy)
  then have "sdk_reachable (Suc 0, AwsSdkRuntime_create ?t)"
    by (rule sdk_reachable.step) (rule sdk_step.create; simp)
  from sdk_in_turns [OF this] show ?thesis
    by (simp add: AwsSdkRuntime_create_def AwsSdkRuntime_destroy_def Let_def)
qed

section \<open>The garbage collector\<close>


text \<open>A file that uses the object \<^verbatim>\<open>chunks/a\<close>, beside an object no file uses.\<close>

definition gc_state :: MetaState where
  "gc_state = snd (apply_command (CommitWriteCommand 3 1 [extent_at 0 2 ''chunks/a'']) (\<lambda>_. 9) demo)"

lemma gc_state_ok: "machine_ok gc_state"
  unfolding gc_state_def by (rule machine_step [OF demo_ok]) code_simp

definition gc_store :: FakeObjectStore where
  "gc_store = omap_put (''b'', ''chunks/a'') [1, 2] (omap_put (''b'', ''chunks/x'') [3] omap_empty)"

definition gc_config :: GcServiceConfig where
  "gc_config = \<lparr>meta_address = [], gc_bucket = ''b'', object_prefix = [], s3_endpoint = ''s3'', s3_region = [],
     s3_use_https = True, s3_verify_ssl = True, grace_seconds = 0, dry_run = False\<rparr>"

definition gc_live :: "'w \<Rightarrow> string list Result \<times> 'w" where
  "gc_live w = (Inr (ListLiveObjects gc_state), w)"




text \<open>A grace period whose milliseconds fit in 63 bits is subtracted exactly from the clock,
  so that an object is skipped exactly when it is younger than that.\<close>

lemma grace_exact:
  assumes "unat grace * 1000 < 2 ^ 63" and "0 \<le> sint now"
  shows "sint (cutoff_ms now grace) = sint now - int (unat grace) * 1000"
proof -
  have "unat grace * unat (1000::u64) < 2 ^ LENGTH(64)"
    using assms(1) by simp
  then have "unat (grace * 1000) = unat grace * 1000"
    by (simp add: unat_word_ariths)
  then have "uint (grace * 1000) = int (unat grace) * 1000"
    by (simp only: uint_nat of_nat_mult of_nat_numeral)
  note u = this
  have "int (unat grace * 1000) < int (2 ^ 63)"
    using assms(1) by (simp only: of_nat_less_iff)
  then have top: "int (unat grace) * 1000 < 2 ^ 63"
    by (simp only: of_nat_mult of_nat_power of_nat_numeral)
  have low: "0 \<le> int (unat grace) * 1000"
    by simp
  have g: "sint (grace * 1000) = int (unat grace) * 1000"
    unfolding sint_uint u
    by (rule signed_take_bit_int_eq_self) (use top order_trans [OF _ low, of "- (2 ^ 63)"] in simp_all)
  have "sint now < 2 ^ 63"
    using sint_lt [of now] by simp
  then have "- (2 ^ 63) \<le> sint now - sint (grace * 1000)" "sint now - sint (grace * 1000) < 2 ^ 63"
    unfolding g using assms(2) top low by linarith+
  then have "signed_take_bit (LENGTH(64) - 1) (sint now - sint (grace * 1000)) = sint now - sint (grace * 1000)"
    by (intro signed_take_bit_int_eq_self) simp_all
  then show ?thesis
    unfolding cutoff_ms_def sint_word_ariths(2) g .
qed

lemma grace_exact_example:
  "sint (cutoff_ms 100000000 86400) = 13600000"
  by (subst grace_exact) simp_all

text \<open>A grace period of more than 2 ^ 64 milliseconds wraps around: asked to spare
  everything younger than 584 million years, the collector deletes an object that is a
  second old.\<close>

lemma grace_wraps:
  "unat (18446744073709552 :: u64) div (365 * 24 * 3600) = 584942417 \<and>
   (\<exists>w'. RunOnce (\<lambda>w. (Inr [], w)) Fake_ListObjects Fake_DeleteObject 1000
       (gc_config\<lparr>grace_seconds := 18446744073709552\<rparr>) gc_store = Some (0, w') \<and>
     fake_holds w' ''b'' ''chunks/x'' = None)"
proof -
  let ?r = "RunOnce (\<lambda>w. (Inr [], w)) Fake_ListObjects Fake_DeleteObject 1000
      (gc_config\<lparr>grace_seconds := 18446744073709552\<rparr>) gc_store"
  have "map_option (\<lambda>(r, w). (r, fake_holds w ''b'' ''chunks/x'')) ?r = Some (0, None)"
    by code_simp
  then show ?thesis
    by auto
qed

end
