(* ===== verification/Fuse_Handles.thy ===== *)
theory Fuse_Handles
  imports Fuse_Server Meta_Machine
begin

text \<open>
  The table of open files: its invariant, and which requests touch which entry.  The file
  system server is a machine over requests in the sense of the locale \<open>state_machine\<close>.
\<close>

section \<open>The invariant\<close>

text \<open>Appended extents follow each other without gaps, from a start to an end.\<close>

fun tiles :: "u64 \<Rightarrow> FileExtent list \<Rightarrow> u64 \<Rightarrow> bool" where
  "tiles a [] b = (a = b)"
| "tiles a (e # es) b = (offset e = a \<and> tiles (ExtentEnd e) es b)"

lemma tiles_append: "tiles a (es @ ds) b \<longleftrightarrow> (\<exists>c. tiles a es c \<and> tiles c ds b)"
  by (induction es arbitrary: a) auto

text \<open>
  A handle for appending has only pending appends, which tile the bytes it appended; any
  other handle has only pending writes; a handle that is not writable has neither.
\<close>

definition handle_ok :: "FuseFileHandle \<Rightarrow> bool" where
  "handle_ok h \<longleftrightarrow>
     (if append_mode h then pending_extents h = [] \<and>
        tiles 0 (pending_append_extents h) (pending_append_length h)
      else pending_append_extents h = [] \<and> pending_append_length h = 0) \<and>
     (writable h \<or> pending_extents h = [] \<and> pending_append_extents h = [])"

definition table_ok :: "FuseServer \<Rightarrow> bool" where
  "table_ok srv \<longleftrightarrow> next_handle_id srv \<noteq> 0 \<and>
     (\<forall>k h. handles srv k = Some h \<longrightarrow> k \<noteq> 0 \<and> k < next_handle_id srv \<and> handle_ok h)"

definition ids_left :: "FuseServer \<Rightarrow> bool" where
  "ids_left srv \<longleftrightarrow> next_handle_id srv \<noteq> -1"

lemma table_okD: "table_ok srv \<Longrightarrow> GetFileHandle k srv = Some h \<Longrightarrow> handle_ok h"
  by (simp add: table_ok_def GetFileHandle_def)

lemma handle_ok_new: "handle_ok ((new_handle i flags)\<lparr>layout := l\<rparr>)" "handle_ok (new_handle i flags)"
  by (simp_all add: handle_ok_def new_handle_def FuseFileHandle_init_def)

lemma handle_ok_note_write:
  assumes "handle_ok h" and "writable h"
    and "offset e = (if append_mode h then pending_append_length h else off)" and "len e = sz"
  shows "handle_ok (note_write e sz h)"
  using assms by (auto simp: handle_ok_def note_write_def tiles_append ExtentEnd_def)

lemma handle_ok_layout: "handle_ok (h\<lparr>layout := l\<rparr>) = handle_ok h"
  by (simp add: handle_ok_def)

lemma handle_ok_refresh: "handle_ok (fst (refresh_layout env h w)) = handle_ok h"
  by (auto simp: refresh_layout_def handle_ok_layout split: prod.splits sum.splits)

lemma refresh_keeps [simp]:
  "h_inode_id (fst (refresh_layout env h w)) = h_inode_id h"
  "pending_extents (fst (refresh_layout env h w)) = pending_extents h"
  "pending_append_extents (fst (refresh_layout env h w)) = pending_append_extents h"
  "pending_append_length (fst (refresh_layout env h w)) = pending_append_length h"
  by (auto simp: refresh_layout_def split: prod.splits sum.splits)

lemma handle_ok_cleared: "handle_ok h \<Longrightarrow> handle_ok (h\<lparr>pending_extents := []\<rparr>)"
  "handle_ok h \<Longrightarrow> handle_ok (h\<lparr>pending_append_extents := [], pending_append_length := 0\<rparr>)"
  by (auto simp: handle_ok_def)

lemma handle_ok_commit:
  "commit_pending env h w = (r, h', w') \<Longrightarrow> handle_ok h \<Longrightarrow> handle_ok h'"
  "commit_appends env h w = (r, h', w') \<Longrightarrow> handle_ok h \<Longrightarrow> handle_ok h'"
  using handle_ok_refresh [where env = env and h = "h\<lparr>pending_extents := []\<rparr>"]
    handle_ok_refresh [where env = env and h = "h\<lparr>pending_append_extents := [], pending_append_length := 0\<rparr>"]
  by (auto simp: commit_pending_def commit_appends_def handle_ok_cleared prod_eq_iff
      split: if_splits prod.splits sum.splits)

lemma handle_ok_CommitHandle:
  "CommitHandle env h w = (r, h', w') \<Longrightarrow> handle_ok h \<Longrightarrow> handle_ok h'"
  by (auto simp: CommitHandle_def dest: handle_ok_commit split: prod.splits sum.splits)

text \<open>A flush of writes that are acknowledged reports success.\<close>

lemma flush_done:
  assumes "GetFileHandle (fh fi) srv = Some h" and "pending_append_extents h = []"
    and "Client_CommitWrite (meta_client env) (h_inode_id h) (version (l_attrs (layout h))) (pending_extents h) w
      = (Inr a, w1)"
  shows "\<exists>srv' w'. PulpfsFlush env ino fi srv w = (reply_done, srv', w')"
proof -
  obtain h' w' where r: "refresh_layout env (h\<lparr>pending_extents := []\<rparr>) w1 = (h', w')"
    by fastforce
  then have "pending_append_extents h' = []"
    using refresh_keeps(3) [of env "h\<lparr>pending_extents := []\<rparr>" w1] assms(2) by simp
  with r assms show ?thesis
    by (simp add: PulpfsFlush_def commit_fh_def CommitHandle_def commit_pending_def commit_appends_def
        reply_result_def)
qed

section \<open>Which requests touch which handle\<close>

text \<open>The handle number that a request carries, when the handler uses it.\<close>

fun request_fh :: "request \<Rightarrow> u64 option" where
  "request_fh (FuseWrite ino buf off fi) = Some (fh fi)"
| "request_fh (FuseFlush ino fi) = Some (fh fi)"
| "request_fh (FuseFsync ino datasync fi) = Some (fh fi)"
| "request_fh (FuseRelease ino fi) = Some (fh fi)"
| "request_fh (FuseReleaseDir ino fi) = Some (fh fi)"
| "request_fh _ = None"

text \<open>
  What a request can do to the table: nothing, put a new handle under the next number,
  replace the handle it names by another valid one, or remove it.
\<close>

inductive table_step :: "request \<Rightarrow> FuseServer \<Rightarrow> FuseServer \<Rightarrow> bool" where
  same: "handles srv' = handles srv \<Longrightarrow> next_handle_id srv' = next_handle_id srv \<Longrightarrow> table_step r srv srv'"
| opened: "handle_ok h \<Longrightarrow> handles srv' = (handles srv)(next_handle_id srv \<mapsto> h) \<Longrightarrow>
    next_handle_id srv' = next_handle_id srv + 1 \<Longrightarrow> table_step r srv srv'"
| replaced: "request_fh r = Some k \<Longrightarrow> handles srv k = Some h \<Longrightarrow> (handle_ok h \<longrightarrow> handle_ok h') \<Longrightarrow>
    handles srv' = (handles srv)(k \<mapsto> h') \<Longrightarrow> next_handle_id srv' = next_handle_id srv \<Longrightarrow>
    table_step r srv srv'"
| removed: "request_fh r = Some k \<Longrightarrow> handles srv' = (handles srv)(k := None) \<Longrightarrow>
    next_handle_id srv' = next_handle_id srv \<Longrightarrow> table_step r srv srv'"

lemma RememberParent_table [simp]:
  "handles (RememberParent i p srv) = handles srv"
  "next_handle_id (RememberParent i p srv) = next_handle_id srv"
  by (simp_all add: RememberParent_def)

lemma fold_RememberParent_table [simp]:
  "handles (fold (\<lambda>e. RememberParent (f e) i) es srv) = handles srv"
  "next_handle_id (fold (\<lambda>e. RememberParent (f e) i) es srv) = next_handle_id srv"
  by (induction es arbitrary: srv) simp_all

lemma MakeObjectKey_table:
  "fs_MakeObjectKey i off srv = (key, srv') \<Longrightarrow> handles srv' = handles srv \<and>
     next_handle_id srv' = next_handle_id srv"
  by (auto simp: fs_MakeObjectKey_def split: prod.splits)

text \<open>Requests that leave the table alone.\<close>

lemma names_table:
  assumes "serve env r srv w = (rep, srv', w')"
    and "case r of FuseCreate _ _ _ _ _ \<Rightarrow> False | FuseOpen _ _ \<Rightarrow> False | FuseWrite _ _ _ _ \<Rightarrow> False
      | FuseFlush _ _ \<Rightarrow> False | FuseFsync _ _ _ \<Rightarrow> False | FuseRelease _ _ \<Rightarrow> False
      | FuseReleaseDir _ _ \<Rightarrow> False | _ \<Rightarrow> True"
  shows "handles srv' = handles srv \<and> next_handle_id srv' = next_handle_id srv"
  using assms
  by (cases r)
    (auto simp: PulpfsLookup_def PulpfsGetAttr_def PulpfsSetAttr_def PulpfsReadDir_def PulpfsMkdir_def
      PulpfsUnlink_def PulpfsRmdir_def PulpfsRename_def PulpfsOpenDir_def PulpfsRead_def PulpfsForget_def
      PulpfsStatFs_def Let_def split: prod.splits sum.splits if_splits option.splits)

lemma allocate_table:
  assumes "AllocateFileHandle h srv0 = (k, srv')" and "handle_ok h"
    and "handles srv0 = handles srv" and "next_handle_id srv0 = next_handle_id srv"
  shows "table_step r srv srv'"
  using assms by (intro table_step.opened [of h]) (auto simp: AllocateFileHandle_def Let_def)

lemma create_table:
  assumes "PulpfsCreate env ctx p n mode fi srv w = (rep, srv', w')"
  shows "table_step r srv srv'"
proof (cases "fst (Client_CreateFile (meta_client env) p n (and mode kModeMask) (RequestUid ctx) (RequestGid ctx) w)")
  case (Inl e)
  then show ?thesis
    using assms by (auto simp: PulpfsCreate_def intro: table_step.same split: prod.splits sum.splits)
next
  case (Inr a)
  then obtain h k where "AllocateFileHandle h (RememberParent (inode_id a) p srv) = (k, srv')" "handle_ok h"
    using assms handle_ok_new
    by (auto simp: PulpfsCreate_def Let_def split: prod.splits sum.splits)
  then show ?thesis
    by (rule allocate_table) simp_all
qed

lemma open_table:
  assumes "PulpfsOpen env ino fi srv w = (rep, srv', w')"
  shows "table_step r srv srv'"
proof -
  have "srv' = srv \<or> (\<exists>h k. AllocateFileHandle h srv = (k, srv') \<and> handle_ok h)"
    using assms handle_ok_new by (auto simp: PulpfsOpen_def split: prod.splits sum.splits if_splits)
  then show ?thesis
    by (auto intro: table_step.same allocate_table)
qed

text \<open>A write is refused, without a trace in the table, or has stored its bytes and notes an extent.\<close>

lemma PulpfsWrite_cases:
  assumes "PulpfsWrite env ino buf off fi srv w = (rep, srv', w')"
  obtains (refused) e where "rep = reply_err e" "handles srv' = handles srv"
      "next_handle_id srv' = next_handle_id srv"
    | (stored) h key srv1 r where "GetFileHandle (fh fi) srv = Some h" "writable h" "has_object_store srv"
      "fs_MakeObjectKey ino (if append_mode h then pending_append_length h else off) srv = (key, srv1)"
      "store_put env \<lparr>put_bucket = fs_bucket (fs_config srv1), put_key = key, put_body = buf,
         content_type = ''application/octet-stream''\<rparr> w = (Inr r, w')"
      "rep = reply_write (of_nat (length buf))"
      "srv' = srv1\<lparr>handles := (handles srv1)(fh fi \<mapsto> note_write (written_extent
         (if append_mode h then pending_append_length h else off) (of_nat (length buf)) key r)
         (of_nat (length buf)) h)\<rparr>"
proof (cases "GetFileHandle (fh fi) srv")
  case None
  then show thesis
    using assms refused [of EBADF] by (auto simp: PulpfsWrite_def)
next
  case (Some h)
  show thesis
  proof (cases "writable h \<and> has_object_store srv \<and> fs_bucket (fs_config srv) \<noteq> []")
    case True
    let ?wo = "if append_mode h then pending_append_length h else off"
    obtain key srv1 where k: "fs_MakeObjectKey ino ?wo srv = (key, srv1)"
      by (cases "fs_MakeObjectKey ino ?wo srv")
    obtain res w1 where p: "store_put env \<lparr>put_bucket = fs_bucket (fs_config srv1), put_key = key,
        put_body = buf, content_type = ''application/octet-stream''\<rparr> w = (res, w1)"
      by (metis surj_pair)
    show thesis
    proof (cases res)
      case (Inl e)
      with assms True Some k p MakeObjectKey_table [OF k] show thesis
        by (intro refused [of "ToErrno e"]) (auto simp: PulpfsWrite_def Let_def)
    next
      case (Inr r)
      with assms True Some k p show thesis
        by (intro stored [of h key srv1 r]) (simp_all add: PulpfsWrite_def Let_def)
    qed
  next
    case False
    with assms Some refused show thesis
      by (auto simp: PulpfsWrite_def split: if_splits)
  qed
qed

lemma write_table:
  assumes "PulpfsWrite env ino buf off fi srv w = (rep, srv', w')"
  shows "table_step (FuseWrite ino buf off fi) srv srv'"
  using assms
proof (cases rule: PulpfsWrite_cases)
  case (stored h key srv1 r)
  note t = MakeObjectKey_table [OF stored(4)]
  show ?thesis
  proof (rule table_step.replaced)
    show "handles srv (fh fi) = Some h"
      using stored(1) by (simp add: GetFileHandle_def)
    show "handle_ok h \<longrightarrow> handle_ok (note_write (written_extent
        (if append_mode h then pending_append_length h else off) (of_nat (length buf)) key r)
        (of_nat (length buf)) h)"
      using stored(2) by (intro impI handle_ok_note_write [where off = off]) (simp_all add: written_extent_def)
  qed (simp_all add: stored(7) t)
qed (rule table_step.same)

lemma commit_table:
  assumes "commit_fh env k srv w = (res, srv', w')" and "request_fh r = Some k"
  shows "table_step r srv srv'"
proof (cases "handles srv k")
  case None
  then show ?thesis
    using assms by (auto simp: commit_fh_def GetFileHandle_def intro: table_step.same)
next
  case (Some h)
  obtain h' where "CommitHandle env h w = (res, h', w')" "srv' = srv\<lparr>handles := (handles srv)(k \<mapsto> h')\<rparr>"
    using assms(1) Some by (auto simp: commit_fh_def GetFileHandle_def split: prod.splits)
  with Some assms(2) show ?thesis
    by (intro table_step.replaced [of r k srv h h']) (auto dest: handle_ok_CommitHandle)
qed

lemma release_table:
  assumes "PulpfsRelease env ino fi srv w = (rep, srv', w')" and "request_fh r = Some (fh fi)"
  shows "table_step r srv srv'"
proof -
  obtain res srv1 where c: "commit_fh env (fh fi) srv w = (res, srv1, w')" "srv' = ReleaseFileHandle (fh fi) srv1"
    using assms(1) by (auto simp: PulpfsRelease_def split: prod.splits)
  then have "handles srv' = (handles srv)(fh fi := None)" "next_handle_id srv' = next_handle_id srv"
    by (auto simp: commit_fh_def ReleaseFileHandle_def split: option.splits prod.splits)
  with assms(2) show ?thesis
    by (rule table_step.removed)
qed

lemma serve_table:
  assumes "serve env r srv w = (rep, srv', w')"
  shows "table_step r srv srv'"
  using assms names_table [OF assms]
  by (cases r)
    (auto simp: PulpfsFlush_def PulpfsFsync_def split: prod.splits
      intro: table_step.same create_table open_table write_table commit_table release_table)

inductive_cases table_stepE: "table_step r srv srv'"

lemma table_step_ok:
  assumes "table_step r srv srv'" and "table_ok srv" and "ids_left srv"
  shows "table_ok srv'"
  using assms(1)
proof cases
  case (opened h)
  have "next_handle_id srv < next_handle_id srv + 1"
    using assms(3) unfolding ids_left_def by (simp add: word_less_add_one)
  then show ?thesis
    using assms(2) opened by (auto simp: table_ok_def intro: less_trans)
qed (use assms(2) in \<open>auto simp: table_ok_def\<close>)

end
