(* ===== verification/Program.thy ===== *)
theory Program
  imports Fuse_Server Gc_Service S3_Store
begin

text \<open>
  \<^verbatim>\<open>src/main.cc\<close>, the life of the metadata server (\<^verbatim>\<open>src/meta_server.cc\<close>) and of the FUSE
  session (\<^verbatim>\<open>FuseServer::Run\<close>).  What these functions do is to call libraries in an order,
  so a run is the list of its calls; the answers of the libraries are arguments.  Two small
  machines say which orders are right: nothing is released that is not held, nothing stays
  held at the end.
\<close>

section \<open>Flags and the choice of the service\<close>

record flags =
  FLAGS_service :: string
  FLAGS_listen_address :: string
  FLAGS_node_id :: u64
  FLAGS_raft_listen_address :: string
  FLAGS_raft_data_dir :: string
  FLAGS_meta_address :: string
  FLAGS_mountpoint :: string
  FLAGS_fuse_foreground :: bool
  FLAGS_s3_endpoint :: string
  FLAGS_s3_region :: string
  FLAGS_s3_bucket :: string
  FLAGS_s3_prefix :: string
  FLAGS_s3_use_https :: bool
  FLAGS_s3_verify_ssl :: bool
  FLAGS_gc_grace_seconds :: u64
  FLAGS_gc_dry_run :: bool

definition default_flags :: flags where
  "default_flags = \<lparr>FLAGS_service = ''meta'', FLAGS_listen_address = ''0.0.0.0:3000'',
     FLAGS_node_id = 1, FLAGS_raft_listen_address = ''127.0.0.1:9001'',
     FLAGS_raft_data_dir = ''./pulpfs-meta-data'', FLAGS_meta_address = ''127.0.0.1:3000'',
     FLAGS_mountpoint = [], FLAGS_fuse_foreground = True, FLAGS_s3_endpoint = [],
     FLAGS_s3_region = ''us-east-1'', FLAGS_s3_bucket = [], FLAGS_s3_prefix = ''pulpfs'',
     FLAGS_s3_use_https = True, FLAGS_s3_verify_ssl = True, FLAGS_gc_grace_seconds = 86400,
     FLAGS_gc_dry_run = False\<rparr>"

text \<open>The fields of the Raft configuration that the program sets.\<close>

datatype TransportKind = Noop

record MetaServerConfig =
  grpc_address :: string
  raftor_node_id :: u64
  raftor_listen_addr :: string
  raftor_transport_kind :: TransportKind
  raftor_data_dir :: string

datatype service =
    RunMeta MetaServerConfig
  | RunFuse FuseServerConfig
  | RunGc GcServiceConfig
  | ExitWith int

definition main_service :: "flags \<Rightarrow> service" where
  "main_service f =
     (if FLAGS_service f = ''meta'' then
        RunMeta \<lparr>grpc_address = FLAGS_listen_address f, raftor_node_id = FLAGS_node_id f,
          raftor_listen_addr = FLAGS_raft_listen_address f, raftor_transport_kind = Noop,
          raftor_data_dir = FLAGS_raft_data_dir f\<rparr>
      else if FLAGS_service f = ''fuse'' then
        if FLAGS_mountpoint f = [] then ExitWith (-1)
        else if FLAGS_s3_endpoint f = [] then ExitWith (-1)
        else if FLAGS_s3_bucket f = [] then ExitWith (-1)
        else RunFuse \<lparr>mountpoint = FLAGS_mountpoint f, fs_meta_address = FLAGS_meta_address f,
          fs_bucket = FLAGS_s3_bucket f, fs_object_prefix = FLAGS_s3_prefix f,
          fs_s3_endpoint = FLAGS_s3_endpoint f, fs_s3_region = FLAGS_s3_region f,
          fs_s3_use_https = FLAGS_s3_use_https f, fs_s3_verify_ssl = FLAGS_s3_verify_ssl f,
          foreground = FLAGS_fuse_foreground f\<rparr>
      else if FLAGS_service f = ''gc'' then
        RunGc \<lparr>meta_address = FLAGS_meta_address f, gc_bucket = FLAGS_s3_bucket f,
          object_prefix = FLAGS_s3_prefix f, s3_endpoint = FLAGS_s3_endpoint f,
          s3_region = FLAGS_s3_region f, s3_use_https = FLAGS_s3_use_https f,
          s3_verify_ssl = FLAGS_s3_verify_ssl f, grace_seconds = FLAGS_gc_grace_seconds f,
          dry_run = FLAGS_gc_dry_run f\<rparr>
      else ExitWith (-1))"

section \<open>The stores of the services\<close>

text \<open>The store that the constructor of the FUSE server makes, if any, and that of the collector.\<close>

definition FuseServer_store :: "FuseServerConfig \<Rightarrow> S3StoreConfig option" where
  "FuseServer_store cfg =
     (if fs_s3_endpoint cfg \<noteq> []
      then Some (default_S3StoreConfig\<lparr>endpoint := fs_s3_endpoint cfg, region := fs_s3_region cfg,
        use_https := fs_s3_use_https cfg, verify_ssl := fs_s3_verify_ssl cfg, path_style := True\<rparr>)
      else None)"

definition CreateObjectStore :: "GcServiceConfig \<Rightarrow> S3StoreConfig" where
  "CreateObjectStore cfg = default_S3StoreConfig\<lparr>endpoint := s3_endpoint cfg, region := s3_region cfg,
     use_https := s3_use_https cfg, verify_ssl := s3_verify_ssl cfg, path_style := True\<rparr>"

section \<open>The FUSE session\<close>

datatype fuse_call = opt_add_arg string | session_new | session_mount string | daemonize
  | set_signal_handlers | session_loop | remove_signal_handlers | session_unmount
  | session_destroy | opt_free_args

text \<open>What libfuse answers: whether there is a session, and the results of four calls.\<close>

record fuse_answers =
  session_created :: bool
  mount_result :: int
  daemonize_result :: int
  signal_result :: int
  loop_result :: int

definition FuseServer_Run :: "fuse_answers \<Rightarrow> FuseServerConfig \<Rightarrow> int \<times> fuse_call list" where
  "FuseServer_Run ans cfg =
     (let start = [opt_add_arg ''pulpfs'', opt_add_arg ''-o'', opt_add_arg ''fsname=pulpfs'', session_new]
      in if \<not> session_created ans then (-1, start @ [opt_free_args])
         else let start = start @ [session_mount (mountpoint cfg)]
         in if mount_result ans \<noteq> 0 then (-1, start @ [session_destroy, opt_free_args])
         else let start = start @ (if \<not> foreground cfg then [daemonize] else [])
         in if \<not> foreground cfg \<and> daemonize_result ans \<noteq> 0
            then (-1, start @ [session_unmount, session_destroy, opt_free_args])
         else let start = start @ [set_signal_handlers]
         in if signal_result ans \<noteq> 0
            then (-1, start @ [session_unmount, session_destroy, opt_free_args])
         else (loop_result ans, start @ [session_loop, remove_signal_handlers, session_unmount,
                 session_destroy, opt_free_args]))"

text \<open>What a run holds, and which calls that allows, given the answers.\<close>

record fuse_held =
  has_args :: bool
  has_session :: bool
  is_mounted :: bool
  has_handlers :: bool

definition nothing_held :: fuse_held where
  "nothing_held = \<lparr>has_args = False, has_session = False, is_mounted = False, has_handlers = False\<rparr>"

fun fuse_allows :: "fuse_answers \<Rightarrow> fuse_call \<Rightarrow> fuse_held \<Rightarrow> fuse_held option" where
  "fuse_allows ans (opt_add_arg _) h = Some (h\<lparr>has_args := True\<rparr>)"
| "fuse_allows ans session_new h =
     (if has_args h \<and> \<not> has_session h then Some (h\<lparr>has_session := session_created ans\<rparr>) else None)"
| "fuse_allows ans (session_mount _) h =
     (if has_session h \<and> \<not> is_mounted h then Some (h\<lparr>is_mounted := (mount_result ans = 0)\<rparr>) else None)"
| "fuse_allows ans daemonize h = (if is_mounted h then Some h else None)"
| "fuse_allows ans set_signal_handlers h =
     (if is_mounted h \<and> \<not> has_handlers h
      then Some (h\<lparr>has_handlers := (signal_result ans = 0)\<rparr>) else None)"
| "fuse_allows ans session_loop h = (if is_mounted h \<and> has_handlers h then Some h else None)"
| "fuse_allows ans remove_signal_handlers h =
     (if has_handlers h then Some (h\<lparr>has_handlers := False\<rparr>) else None)"
| "fuse_allows ans session_unmount h =
     (if is_mounted h \<and> \<not> has_handlers h then Some (h\<lparr>is_mounted := False\<rparr>) else None)"
| "fuse_allows ans session_destroy h =
     (if has_session h \<and> \<not> is_mounted h then Some (h\<lparr>has_session := False\<rparr>) else None)"
| "fuse_allows ans opt_free_args h =
     (if has_args h \<and> \<not> has_session h then Some (h\<lparr>has_args := False\<rparr>) else None)"

text \<open>A list of calls, one after the other, each of which must be allowed.\<close>

fun replay :: "('c \<Rightarrow> 'h \<Rightarrow> 'h option) \<Rightarrow> 'c list \<Rightarrow> 'h \<Rightarrow> 'h option" where
  "replay allows [] h = Some h"
| "replay allows (c # cs) h = (case allows c h of None \<Rightarrow> None | Some h \<Rightarrow> replay allows cs h)"

lemma replay_append:
  "replay allows (cs @ ds) h =
     (case replay allows cs h of None \<Rightarrow> None | Some h \<Rightarrow> replay allows ds h)"
  by (induction cs arbitrary: h) (auto split: option.splits)

section \<open>The metadata server\<close>

datatype server_call = RaftorCreate | SetRaftor | RaftorStart | ThreadStart | ServerStart
  | ServerWait | ServerShutdown | RaftorStop | ThreadJoin | ServerReset | RaftorReset

record MetaServer =
  grpc_server :: bool
  server_raftor :: bool
  raftor_thread :: bool
  stopping :: bool
  calls :: "server_call list"

definition MetaServer_init :: MetaServer where
  "MetaServer_init = \<lparr>grpc_server = False, server_raftor = False, raftor_thread = False,
     stopping = False, calls = []\<rparr>"

definition call :: "server_call \<Rightarrow> MetaServer \<Rightarrow> MetaServer" where
  "call c s = s\<lparr>calls := calls s @ [c]\<rparr>"

text \<open>Setting a smart pointer to null calls the destructor when it was not null.\<close>

definition Stop :: "MetaServer \<Rightarrow> MetaServer" where
  "Stop s =
     (if stopping s then s
      else
        let s = s\<lparr>stopping := True\<rparr>;
            s = (if grpc_server s then call ServerShutdown s else s);
            s = (if server_raftor s then call RaftorStop s else s);
            s = (if raftor_thread s then (call ThreadJoin s)\<lparr>raftor_thread := False\<rparr> else s);
            s = (if grpc_server s then (call ServerReset s)\<lparr>grpc_server := False\<rparr> else s)
        in (if server_raftor s then (call RaftorReset s)\<lparr>server_raftor := False\<rparr> else s))"

text \<open>Whether the Raft node is made, started, and whether the port can be listened on.\<close>

record server_answers =
  raftor_created :: bool
  raftor_started :: bool
  server_listens :: bool

definition MetaServer_Run :: "server_answers \<Rightarrow> MetaServer \<Rightarrow> int \<times> MetaServer" where
  "MetaServer_Run ans s =
     (let s = call RaftorCreate s
      in if \<not> raftor_created ans then (-1, s)
         else let s = call RaftorStart (call SetRaftor (s\<lparr>server_raftor := True\<rparr>))
         in if \<not> raftor_started ans then (-1, s)
         else let s = call ServerStart ((call ThreadStart s)\<lparr>raftor_thread := True\<rparr>);
                  s = s\<lparr>grpc_server := server_listens ans\<rparr>
         in if \<not> server_listens ans then (-1, s)
         else (0, Stop (call ServerWait s)))"

text \<open>\<^verbatim>\<open>main\<close> runs a server and destroys it; the destructor stops it.\<close>

definition run_and_destroy :: "server_answers \<Rightarrow> int \<times> MetaServer" where
  "run_and_destroy ans = (case MetaServer_Run ans MetaServer_init of (r, s) \<Rightarrow> (r, Stop s))"

text \<open>
  What the calls need: the thread runs the Raft node and the node owns the service that the
  gRPC server calls, so the server goes before the node, and the thread too.
\<close>

record server_held =
  node_alive :: bool
  node_wired :: bool
  thread_alive :: bool
  server_alive :: bool
  server_shut :: bool
  node_stopped :: bool

definition server_off :: server_held where
  "server_off = \<lparr>node_alive = False, node_wired = False, thread_alive = False,
     server_alive = False, server_shut = False, node_stopped = False\<rparr>"

fun server_allows :: "server_answers \<Rightarrow> server_call \<Rightarrow> server_held \<Rightarrow> server_held option" where
  "server_allows ans RaftorCreate h =
     (if \<not> node_alive h then Some (h\<lparr>node_alive := raftor_created ans\<rparr>) else None)"
| "server_allows ans SetRaftor h = (if node_alive h then Some (h\<lparr>node_wired := True\<rparr>) else None)"
| "server_allows ans RaftorStart h = (if node_alive h \<and> node_wired h then Some h else None)"
| "server_allows ans ThreadStart h =
     (if node_alive h \<and> \<not> thread_alive h then Some (h\<lparr>thread_alive := True\<rparr>) else None)"
| "server_allows ans ServerStart h =
     (if node_wired h \<and> \<not> server_alive h then Some (h\<lparr>server_alive := server_listens ans\<rparr>) else None)"
| "server_allows ans ServerWait h = (if server_alive h then Some h else None)"
| "server_allows ans ServerShutdown h =
     (if server_alive h \<and> \<not> server_shut h then Some (h\<lparr>server_shut := True\<rparr>) else None)"
| "server_allows ans RaftorStop h =
     (if node_alive h \<and> \<not> node_stopped h then Some (h\<lparr>node_stopped := True\<rparr>) else None)"
| "server_allows ans ThreadJoin h =
     (if thread_alive h \<and> node_stopped h then Some (h\<lparr>thread_alive := False\<rparr>) else None)"
| "server_allows ans ServerReset h =
     (if server_alive h \<and> server_shut h \<and> node_alive h
      then Some (h\<lparr>server_alive := False, server_shut := False\<rparr>) else None)"
| "server_allows ans RaftorReset h =
     (if node_alive h \<and> node_stopped h \<and> \<not> thread_alive h \<and> \<not> server_alive h
      then Some (h\<lparr>node_alive := False, node_wired := False, node_stopped := False\<rparr>) else None)"

end
