(* ===== verification/Fuse_Properties.thy ===== *)
theory Fuse_Properties
  imports Fuse_Handles Program Io_Properties
begin

text \<open>
  The properties of the file system server and of the processes: the table of open files,
  attributes and times on their way to the kernel, directory listings, and that sessions and
  servers release what they acquire.
\<close>

section \<open>The server as a machine\<close>

text \<open>A step of the server, with the environment in the place of the clock.\<close>

definition serve_step :: "request \<Rightarrow> 'w env \<Rightarrow> FuseServer \<times> 'w \<Rightarrow> reply \<times> FuseServer \<times> 'w" where
  "serve_step r env s = (case s of (srv, w) \<Rightarrow> serve env r srv w)"

interpretation fuse: state_machine serve_step "\<lambda>(srv, w). table_ok srv" "\<lambda>r (srv, w). ids_left srv"
proof unfold_locales
  fix s :: "FuseServer \<times> 'w" and r env
  obtain srv w where s: "s = (srv, w)"
    by (cases s)
  obtain rep srv' w' where e: "serve env r srv w = (rep, srv', w')"
    by (metis surj_pair)
  assume "case s of (srv, w) \<Rightarrow> table_ok srv" and "case s of (srv, w) \<Rightarrow> ids_left srv"
  then show "case snd (serve_step r env s) of (srv, w) \<Rightarrow> table_ok srv"
    using table_step_ok [OF serve_table [OF e]] by (simp add: serve_step_def s e)
qed

lemma table_ok_init: "table_ok (FuseServer_init cfg wid)"
  by (simp add: table_ok_def FuseServer_init_def)

text \<open>C28: in every state of the server that requests lead to, the handles in the table have
  numbers below the next one and none is zero; a handle for appending has only pending
  appends, which follow each other without gaps over the bytes it counts, any other handle
  has only pending writes, and a handle that is not open for writing has neither.\<close>

theorem open_files_ok:
  assumes "along serve_step (\<lambda>r (srv, w). ids_left srv) log (FuseServer_init cfg wid, w)"
    and "run_log serve_step log (FuseServer_init cfg wid, w) = (srv, w')"
  shows "table_ok srv"
  using fuse.run_inv [OF _ assms(1)] table_ok_init [of cfg wid] assms(2) by simp

definition sample_log :: "(request \<times> FakeObjectStore env) list" where
  "sample_log = map (\<lambda>r. (r, store_env))
     [FuseCreate (Some (7, 8)) 1 ''f'' 420 (sample_file\<lparr>fh := 0\<rparr>),
      FuseWrite 0 [1, 2, 3] 0 sample_file, FuseWrite 0 [4] 0 sample_file]"

theorem open_files_ok_witness:
  "table_ok (fst (run_log serve_step sample_log (FuseServer_init sample_config ''w'', omap_empty)))"
proof (rule open_files_ok [where log = sample_log and w = omap_empty])
  show "along serve_step (\<lambda>r (srv, w). ids_left srv) sample_log (FuseServer_init sample_config ''w'', omap_empty)"
    by code_simp
qed (rule prod.collapse [symmetric])

text \<open>A request changes no open file but the one whose number it carries.\<close>

lemma handles_apart:
  assumes "serve env r srv w = (rep, srv', w')" and "table_ok srv" and "GetFileHandle k srv = Some h"
    and "request_fh r \<noteq> Some k"
  shows "GetFileHandle k srv' = Some h"
  using serve_table [OF assms(1)]
proof cases
  case (opened h')
  have "k \<noteq> next_handle_id srv"
    using assms(2,3) by (auto simp: table_ok_def GetFileHandle_def)
  with opened assms(3) show ?thesis
    by (simp add: GetFileHandle_def)
qed (use assms(3,4) in \<open>auto simp: GetFileHandle_def\<close>)

text \<open>A server with one file open, for reading and writing.\<close>

definition open_server :: FuseServer where
  "open_server = snd (AllocateFileHandle (new_handle 3 O_RDWR) (FuseServer_init sample_config ''w''))"

lemma open_server_ok: "table_ok open_server"
  by (simp add: table_ok_def open_server_def AllocateFileHandle_def FuseServer_init_def handle_ok_new)

lemma open_server_file: "GetFileHandle 1 open_server = Some (new_handle 3 O_RDWR)"
  by (simp add: open_server_def AllocateFileHandle_def GetFileHandle_def FuseServer_init_def)

lemma handles_apart_example:
  "GetFileHandle 1 (fst (snd (serve store_env (FuseFlush 3 (sample_file\<lparr>fh := 2\<rparr>)) open_server sample_store)))
     = Some (new_handle 3 O_RDWR)"
  by (rule handles_apart [OF _ open_server_ok open_server_file, where r = "FuseFlush 3 (sample_file\<lparr>fh := 2\<rparr>)"
        and rep = "fst (serve store_env (FuseFlush 3 (sample_file\<lparr>fh := 2\<rparr>)) open_server sample_store)"
        and w' = "snd (snd (serve store_env (FuseFlush 3 (sample_file\<lparr>fh := 2\<rparr>)) open_server sample_store))"])
    (simp_all add: prod_eq_iff)

section \<open>Closing a directory\<close>

text \<open>C39: closing a directory runs the handler for files with the number of the directory's
  inode: the open file that happens to have this number is committed and forgotten, and
  its next read fails with EBADF.\<close>

theorem releasedir_closes_a_file:
  assumes "PulpfsOpenDir env ino fi srv w = (reply_open fi1, srv1, w1)" and "GetFileHandle ino srv = Some h"
  shows "fh fi1 = ino \<and> GetFileHandle ino srv1 = Some h \<and>
    (\<exists>rep srv2 w2. serve env (FuseReleaseDir ino fi1) srv1 w1 = (rep, srv2, w2) \<and>
       PulpfsRead env i sz off (f\<lparr>fh := ino\<rparr>) srv2 w2 = (reply_err EBADF, srv2, w2))"
proof -
  have o: "fh fi1 = ino" "srv1 = srv"
    using assms(1) by (auto simp: PulpfsOpenDir_def split: prod.splits sum.splits if_splits)
  obtain rep srv2 w2 where r: "serve env (FuseReleaseDir ino fi1) srv1 w1 = (rep, srv2, w2)"
    by (metis surj_pair)
  then have "GetFileHandle ino srv2 = None"
    using o(1) by (auto simp: PulpfsRelease_def ReleaseFileHandle_def GetFileHandle_def split: prod.splits)
  then have "PulpfsRead env i sz off (f\<lparr>fh := ino\<rparr>) srv2 w2 = (reply_err EBADF, srv2, w2)"
    by (simp add: PulpfsRead_def)
  with r o assms(2) show ?thesis
    by blast
qed

text \<open>The metadata service answers for the root directory, whose inode has the number of the
  file opened first.\<close>

definition root_env :: "FakeObjectStore env" where
  "root_env = store_env\<lparr>meta_client := (meta_client store_env)\<lparr>
     stub_GetAttr := \<lambda>i. null_rpc (root_attrs 0)\<rparr>\<rparr>"

theorem releasedir_closes_a_file_witness:
  "\<exists>rep srv2 w2. serve root_env (FuseReleaseDir 1 (sample_file\<lparr>fh := 1\<rparr>)) open_server sample_store
       = (rep, srv2, w2) \<and>
     PulpfsRead root_env 3 4 0 (sample_file\<lparr>fh := 1\<rparr>) srv2 w2 = (reply_err EBADF, srv2, w2)"
proof -
  have "PulpfsOpenDir root_env 1 sample_file open_server sample_store =
      (reply_open (sample_file\<lparr>fh := 1\<rparr>), open_server, sample_store)"
    by (simp add: PulpfsOpenDir_def root_env_def Client_GetAttr_def null_rpc_def finish_def root_attrs_def)
  from releasedir_closes_a_file [OF this open_server_file] show ?thesis
    by blast
qed

section \<open>Attributes and times\<close>

text \<open>A time of the metadata, rendered for the kernel and sent back in a set-attribute
  request, is the time it was, for all 64-bit values; its nanoseconds are below a billion
  in size, and have the sign of the time.\<close>

lemma times_roundtrip:
  "NsFromTimespec (TimespecFromNs ns) = ns \<and> \<bar>sint (tv_nsec (TimespecFromNs ns))\<bar> < 1000000000 \<and>
   sint (tv_nsec (TimespecFromNs ns)) = sint ns smod 1000000000"
proof -
  let ?q = "sint ns sdiv 1000000000" and ?r = "sint ns smod 1000000000"
  have "NsFromTimespec (TimespecFromNs ns) = of_int (?q * 1000000000 + ?r)"
    by (simp only: NsFromTimespec_def TimespecFromNs_def timespec.simps of_int_add of_int_mult of_int_numeral)
  then have "NsFromTimespec (TimespecFromNs ns) = ns"
    by (simp add: sdiv_mult_smod_eq)
  moreover have "\<bar>?r\<bar> < 1000000000"
    using smod_int_range [where a = "sint ns" and b = 1000000000] by auto
  moreover from this have "sint (of_int ?r :: i64) = ?r"
    by (subst int_word_sint) (simp add: signed_take_bit_int_eq_self mod_pos_pos_trivial abs_less_iff)
  ultimately show ?thesis
    by (simp add: TimespecFromNs_def)
qed

text \<open>The mode the kernel sees holds the type of the inode in its type bits, the permission
  bits of the metadata in the others, and nothing else.\<close>

lemma stat_shows_type:
  "and (st_mode (StatFromAttrs a)) 61440 = FileTypeMode (a_type a) \<and>
   and (st_mode (StatFromAttrs a)) kModeMask = and (a_mode a) kModeMask \<and>
   and (st_mode (StatFromAttrs a)) (not (or 61440 kModeMask)) = 0"
proof -
  have masks: "and kModeMask 61440 = 0" "and 61440 kModeMask = 0"
    by (simp_all add: kModeMask_def)
  have t: "and (FileTypeMode ty) 61440 = FileTypeMode ty" "and (FileTypeMode ty) kModeMask = 0" for ty
    by (cases ty; simp add: S_IFDIR_def S_IFREG_def kModeMask_def)+
  have z: "and (FileTypeMode ty) (not (or 61440 kModeMask)) = 0" "and kModeMask (not (or 61440 kModeMask)) = 0" for ty
    by (cases ty; simp add: S_IFDIR_def S_IFREG_def kModeMask_def)+
  show ?thesis
    unfolding StatFromAttrs_def stat.simps bit.conj_disj_distrib2 and.assoc masks t z by simp
qed

section \<open>Listing a directory\<close>

lemma dir_buffer_concat:
  "dir_buffer env es off = concat (map (\<lambda>i. add_direntry env (fst (es ! i)) (StatFromAttrs (snd (es ! i)))
     (of_nat i + 1)) [if sint off < 0 then 0 else unat off..<length es])"
proof -
  have "foldl (\<lambda>buffer i. case es ! i of (name, a) \<Rightarrow> AddDirEntry env buffer name a (of_nat i + 1)) b is =
      b @ concat (map (\<lambda>i. add_direntry env (fst (es ! i)) (StatFromAttrs (snd (es ! i))) (of_nat i + 1)) is)" for b "is"
    by (induction "is" arbitrary: b) (simp_all add: AddDirEntry_def split_beta)
  then show ?thesis
    by (simp add: dir_buffer_def Let_def)
qed

lemma sint_of_nat:
  assumes "n < 2 ^ 63"
  shows "0 \<le> sint (of_nat n :: i64)" and "unat (of_nat n :: i64) = n"
proof -
  have "sint (of_nat n :: i64) = int n"
    using assms by (simp add: signed_of_nat signed_take_bit_int_eq_self)
  then show "0 \<le> sint (of_nat n :: i64)"
    by simp
  show "unat (of_nat n :: i64) = n"
    using assms by (simp add: unat_of_nat)
qed


definition names_env :: "FakeObjectStore env" where
  "names_env = store_env\<lparr>add_direntry := \<lambda>name st off. map (\<lambda>c. of_nat (of_char c)) name @ [ucast off]\<rparr>"


section \<open>Commits that fail\<close>

text \<open>C32: when a flush reports an error, the open file still has everything that was not
  acknowledged: its pending appends, and its pending writes unless the metadata service
  acknowledged just these in this flush.\<close>

theorem failed_flush_keeps:
  assumes "GetFileHandle (fh fi) srv = Some h" and "PulpfsFlush env ino fi srv w = (reply_err e, srv', w')"
  shows "\<exists>h'. GetFileHandle (fh fi) srv' = Some h' \<and> h_inode_id h' = h_inode_id h \<and>
    pending_append_extents h' = pending_append_extents h \<and> pending_append_length h' = pending_append_length h \<and>
    (pending_extents h' = pending_extents h \<or> pending_extents h' = [] \<and>
       (\<exists>a w1. Client_CommitWrite (meta_client env) (h_inode_id h) (version (l_attrs (layout h)))
          (pending_extents h) w = (Inr a, w1)))"
proof -
  obtain res h' where c: "CommitHandle env h w = (res, h', w')" and s: "srv' = srv\<lparr>handles := (handles srv)(fh fi \<mapsto> h')\<rparr>"
    and r: "reply_result res = reply_err e"
    using assms by (auto simp: PulpfsFlush_def commit_fh_def split: prod.splits)
  obtain x where x: "res = Inl x"
    using r by (cases res) (auto simp: reply_result_def)
  show ?thesis
  proof (cases "commit_pending env h w")
    case (fields res1 h1 w1)
    show ?thesis
    proof (cases res1)
      case (Inl y)
      then have "h' = h"
        using c fields by (auto simp: CommitHandle_def commit_pending_def split: if_splits prod.splits sum.splits)
      then show ?thesis
        by (simp add: s GetFileHandle_def)
    next
      case (Inr u)
      have "h' = h1"
        using c x fields Inr by (auto simp: CommitHandle_def commit_appends_def split: if_splits prod.splits sum.splits)
      moreover have "h1 = h \<or> (\<exists>a w2. Client_CommitWrite (meta_client env) (h_inode_id h)
          (version (l_attrs (layout h))) (pending_extents h) w = (Inr a, w2) \<and>
          h1 = fst (refresh_layout env (h\<lparr>pending_extents := []\<rparr>) w2))"
        using fields Inr by (auto simp: commit_pending_def split: if_splits prod.splits sum.splits intro: fst_conv [symmetric])
      ultimately show ?thesis
        by (auto simp: s GetFileHandle_def)
    qed
  qed
qed

text \<open>A service that accepts writes and refuses appends for now.\<close>

definition flaky_env :: "FakeObjectStore env" where
  "flaky_env = store_env\<lparr>meta_client := (meta_client store_env)\<lparr>stub_AppendWrite := \<lambda>_ _ _ w.
     ((\<lparr>error_code = UNAVAILABLE, error_message = ''down''\<rparr>,
       \<lparr>aw_attrs = default_attrs, aw_append_start = 0, aw_committed_extents = []\<rparr>), w)\<rparr>\<rparr>"

theorem failed_flush_keeps_witness:
  "\<exists>h'. GetFileHandle 1 (fst (snd (PulpfsFlush flaky_env 3 sample_file sample_server sample_store))) = Some h' \<and>
     pending_append_extents h' = [extent_at 0 1 ''k3'']"
proof -
  let ?h = "sample_handle\<lparr>writable := True, append_mode := True, pending_append_length := 1\<rparr>"
  have h: "GetFileHandle (fh sample_file) sample_server = Some ?h"
    by (simp add: sample_server_def sample_file_def AllocateFileHandle_def GetFileHandle_def FuseServer_init_def)
  have "fst (PulpfsFlush flaky_env 3 sample_file sample_server sample_store) = reply_err EAGAIN"
    by code_simp
  then have "PulpfsFlush flaky_env 3 sample_file sample_server sample_store = (reply_err EAGAIN,
      fst (snd (PulpfsFlush flaky_env 3 sample_file sample_server sample_store)),
      snd (snd (PulpfsFlush flaky_env 3 sample_file sample_server sample_store)))"
    by (simp add: prod_eq_iff)
  from failed_flush_keeps [OF h this] show ?thesis
    by (auto simp: sample_file_def sample_handle_def)
qed

section \<open>Errors on their way to the user\<close>

text \<open>C31: an error of the metadata state reaches the user as the error number that belongs to
  its kind, through the response of the state machine, the status of the RPC and the error of
  the client.\<close>

theorem errors_reach_user:
  assumes "state_kind (kind e)" and "message e \<noteq> []" and "MakeErrorResponse e = ErrorResponseOf r"
  shows "ToErrno (FromGrpcStatus (ToGrpcStatus (ErrorFromResponse r))) = ToErrno e"
  unfolding ErrorFromResponse_MakeErrorResponse [OF assms(1,3)] FromGrpcStatus_ToGrpcStatus [OF assms(2)]
  using assms(1) by (cases "kind e") (simp_all add: ToErrno_def)

theorem errors_reach_user_witness:
  "ToErrno (FromGrpcStatus (ToGrpcStatus (ErrorFromResponse
     \<lparr>er_kind = ''DirectoryNotEmpty'', er_message = ''directory is not empty'', er_path = ''d''\<rparr>))) = ENOTEMPTY"
  using errors_reach_user [of "MakeError (DirectoryNotEmpty ''d'') ''directory is not empty''"
      "\<lparr>er_kind = ''DirectoryNotEmpty'', er_message = ''directory is not empty'', er_path = ''d''\<rparr>"]
  by (simp add: MakeErrorResponse_def MakeError_def ToErrno_def)

text \<open>When the leader is lost during a proposal, the error is one to try again by the table of
  the file system, but after the trip through the RPC it is an invalid argument.\<close>

lemma lost_leadership_is_invalid:
  assumes "is_lost_leadership e" and "\<not> is_timeout e"
  shows "ToErrno (FromRaftError e) = EAGAIN \<and>
    ToErrno (FromGrpcStatus (ToGrpcStatus (FromRaftError e))) = EINVAL"
  using assms
  by (simp add: FromRaftError_def ToErrno_def FromGrpcStatus_def ToGrpcStatus_def ErrorToString_def Let_def)

lemma lost_leadership_is_invalid_example:
  "ToErrno (FromGrpcStatus (ToGrpcStatus (FromRaftError
     \<lparr>is_timeout = False, is_lost_leadership = True, is_shutting_down = False, raft_text = ''lost''\<rparr>))) = EINVAL"
  by (rule lost_leadership_is_invalid [THEN conjunct2]) simp_all

section \<open>Processes\<close>

text \<open>Whatever libfuse answers, a run of the file system makes its calls in an allowed order,
  and in the end holds neither arguments nor a session, a mount or signal handlers.\<close>

lemma sessions_released:
  "replay (fuse_allows ans) (snd (FuseServer_Run ans cfg)) nothing_held = Some nothing_held"
  by (cases "session_created ans"; cases "mount_result ans = 0"; cases "foreground cfg";
      cases "daemonize_result ans = 0"; cases "signal_result ans = 0";
      simp add: FuseServer_Run_def nothing_held_def)

text \<open>C34: whatever the libraries answer, a metadata server that ran and was destroyed has shut the
  RPC server down before the Raft node, joined the thread of the node after stopping it, and
  released each once; stopping it again does nothing.\<close>

theorem server_stops_cleanly:
  "replay (server_allows ans) (calls (snd (run_and_destroy ans))) server_off = Some server_off \<and>
   Stop (snd (run_and_destroy ans)) = snd (run_and_destroy ans)"
  by (cases "raftor_created ans"; cases "raftor_started ans"; cases "server_listens ans";
      simp add: run_and_destroy_def MetaServer_Run_def MetaServer_init_def Stop_def call_def server_off_def Let_def)

text \<open>The program starts the file system only with a store, a bucket and a mount point.\<close>

lemma fuse_service_configured:
  "main_service f = RunFuse cfg \<Longrightarrow>
     has_object_store (FuseServer_init cfg wid) \<and> fs_bucket cfg \<noteq> [] \<and> mountpoint cfg \<noteq> []"
  by (auto simp: main_service_def FuseServer_init_def split: if_splits)

text \<open>
  A collector and a file system started with the same flags work on the same bucket of the same
  store, under the same prefix, and the file system has a store exactly when its state says so.
\<close>

lemma has_store_iff: "has_object_store (FuseServer_init cfg wid) \<longleftrightarrow> FuseServer_store cfg \<noteq> None"
  by (simp add: FuseServer_init_def FuseServer_store_def)

lemma services_share_store:
  assumes "main_service (f\<lparr>FLAGS_service := ''fuse''\<rparr>) = RunFuse cfg"
    and "main_service (f\<lparr>FLAGS_service := ''gc''\<rparr>) = RunGc gc"
  shows "map_option S3Store_init (FuseServer_store cfg) = Some (S3Store_init (CreateObjectStore gc)) \<and>
    fs_bucket cfg = gc_bucket gc \<and> fs_object_prefix cfg = object_prefix gc \<and> fs_meta_address cfg = meta_address gc"
  using assms by (auto simp: main_service_def FuseServer_store_def CreateObjectStore_def split: if_splits)

lemma services_share_store_example:
  "main_service (default_flags\<lparr>FLAGS_service := ''fuse'', FLAGS_mountpoint := ''/mnt'', FLAGS_s3_endpoint := ''s3'',
     FLAGS_s3_bucket := ''b''\<rparr>) = RunFuse cfg \<Longrightarrow>
   map_option (\<lambda>c. useVirtualAddressing (S3Store_init c)) (FuseServer_store cfg) = Some False"
  by (auto simp: main_service_def FuseServer_store_def S3Store_init_def split: if_splits)

end
