(* ===== verification/Wire.thy ===== *)
theory Wire
  imports Messages "HOL-Library.Countable"
begin

text \<open>
  An encoding of the messages as strings.  The generated encoding is a parameter of the
  development; this one shows that what is assumed of it can be met.  A message is a
  countable value, and its number is printed.
\<close>

instance InodeType :: countable
  by countable_datatype

instance InodeAttrs_ext :: (countable) countable
proof (rule countable_classI [of "\<lambda>a. to_nat ((inode_id a, a_type a, a_mode a, a_uid a, a_gid a, a_size a),
    (nlink a, version a, atime_ns a, mtime_ns a, ctime_ns a, a_chunk_size a), InodeAttrs.more a)"])
qed simp

instance FileExtent_ext :: (countable) countable
proof (rule countable_classI [of "\<lambda>e. to_nat ((offset e, len e, object_key e), etag e, checksum e,
    object_size e, object_offset e, FileExtent.more e)"])
qed simp

instance SetAttrCommand_ext :: (countable) countable
proof (rule countable_classI [of "\<lambda>c. to_nat ((sa_inode_id c, set_mode c, sa_mode c, set_uid c, sa_uid c),
    (set_gid c, sa_gid c, set_atime c, sa_atime_ns c, set_mtime c, sa_mtime_ns c), SetAttrCommand.more c)"])
qed simp

instance AppendWriteReply_ext :: (countable) countable
proof (rule countable_classI [of "\<lambda>r. to_nat (aw_attrs r, aw_append_start r, aw_committed_extents r,
    AppendWriteReply.more r)"])
qed simp

instance ErrorResponse_ext :: (countable) countable
proof (rule countable_classI [of "\<lambda>r. to_nat (er_kind r, er_message r, er_path r, ErrorResponse.more r)"])
qed simp

instance RaftCommand :: countable
  by countable_datatype

instance RaftCommandResponse :: countable
  by countable_datatype

definition print_message :: "'a::countable \<Rightarrow> string" where
  "print_message m = nat_to_string (to_nat m)"

definition read_message :: "string \<Rightarrow> 'a::countable option" where
  "read_message bytes = Some (from_nat (string_to_nat bytes))"

lemma read_print_message [simp]: "read_message (print_message m) = Some m"
  by (simp add: read_message_def print_message_def string_to_nat_to_string)

lemma print_message_not_Nil [simp]: "print_message m \<noteq> []"
  by (simp add: print_message_def nat_to_string.simps)

end
