(* ===== verification/Cluster.thy ===== *)
theory Cluster
  imports Meta_Rpc Meta_Machine Wire Fuse_Handles
begin

text \<open>
  The metadata service as its clients see it.  The locale \<open>raft_cluster\<close> states what the
  handlers rely on of the Raft library and of the wire; \<open>metadata_link\<close> adds what the
  client relies on of gRPC.  Other clients may change the state between the steps:
  \<open>others s s'\<close> says what they can do, equality that they do nothing.  Both are
  interpreted on a cluster of one node that applies each proposal with \<^const>\<open>Apply\<close>.
\<close>

section \<open>The cluster behind the handlers\<close>

definition state_of :: "'w MetaService \<Rightarrow> 'w \<Rightarrow> MetaState" where
  "state_of svc w = node_state (node svc) w"

text \<open>
  A command set in a message has a non-empty encoding.  A proposal that succeeds has been
  applied once to the replicated state, and its answer is what \<^verbatim>\<open>Apply\<close> returned; a read
  index that succeeds changes nothing by itself.
\<close>

locale raft_cluster =
  fixes svc :: "'w MetaService"
    and parse_command :: "string \<Rightarrow> RaftCommand option"
    and serialize_response :: "RaftCommandResponse \<Rightarrow> string"
    and others :: "MetaState \<Rightarrow> MetaState \<Rightarrow> bool"
  assumes command_wire: "c \<noteq> COMMAND_NOT_SET \<Longrightarrow> SerializeCommand (node svc) c \<noteq> [] \<and>
        parse_command (SerializeCommand (node svc) c) = Some c"
    and response_wire: "ParseResponse (node svc) (serialize_response r) = Some r"
    and proposal: "ProposeSync (node svc) data w = (Inr out, w') \<Longrightarrow>
        \<exists>s1 clk s2. others (state_of svc w) s1 \<and>
          Apply parse_command serialize_response data clk s1 = (Applied out, s2) \<and> others s2 (state_of svc w')"
    and read_index: "ReadIndexSync (node svc) ctxt w = (Inr (), w') \<Longrightarrow> others (state_of svc w) (state_of svc w')"

text \<open>The errors of the state machine keep their kind and message in its responses.\<close>

lemma respond_error:
  assumes "respond r = (Ok (ErrorResponseOf x), s)" and "\<And>e. fst r = Err e \<Longrightarrow> state_kind (kind e)"
  shows "ErrorResponseOf x = MakeErrorResponse (ErrorFromResponse x)"
proof -
  obtain e where "r = (Err e, s)" "MakeErrorResponse e = ErrorResponseOf x"
    using assms(1) by (auto simp: respond_def split: prod.splits outcome.splits)
  with assms(2) [of e] show ?thesis
    by (simp add: ErrorFromResponse_MakeErrorResponse)
qed

lemma respond_append_error:
  assumes "respond_append r = (Ok (ErrorResponseOf x), s)" and "\<And>e. fst r = Err e \<Longrightarrow> state_kind (kind e)"
  shows "ErrorResponseOf x = MakeErrorResponse (ErrorFromResponse x)"
proof -
  obtain e where "r = (Err e, s)" "MakeErrorResponse e = ErrorResponseOf x"
    using assms(1) by (auto simp: respond_append_def split: prod.splits outcome.splits)
  with assms(2) [of e] show ?thesis
    by (simp add: ErrorFromResponse_MakeErrorResponse)
qed

lemma apply_command_error:
  assumes "apply_command c clk s = (Ok (ErrorResponseOf x), s')"
  shows "ErrorResponseOf x = MakeErrorResponse (ErrorFromResponse x)"
proof (cases c)
  case COMMAND_NOT_SET
  then have "MakeErrorResponse (MakeError InvalidArgument ''unknown raft command'') = ErrorResponseOf x"
    using assms by simp
  then show ?thesis
    using ErrorFromResponse_MakeErrorResponse [of "MakeError InvalidArgument ''unknown raft command''" x] by simp
qed (use assms in \<open>auto intro: respond_error respond_append_error CreateNode_kind SetAttr_kind Unlink_kind
    Rmdir_kind CommitWrite_kind AppendWrite_kind Truncate_kind Rename_kind simp: Mkdir_def CreateFile_def\<close>)

lemma apply_command_no_Err: "fst (apply_command c clk s) \<noteq> Err e"
  by (cases c) (auto simp: respond_def respond_append_def split: prod.splits outcome.splits)

context raft_cluster begin

lemma proposed:
  assumes "ProposeSync (node svc) (SerializeCommand (node svc) c) w = (Inr out, w')" and "c \<noteq> COMMAND_NOT_SET"
  obtains s1 clk r s2 where "others (state_of svc w) s1" "apply_command c clk s1 = (Ok r, s2)"
    "ParseResponse (node svc) out = Some r" "others s2 (state_of svc w')"
proof -
  obtain s1 clk s2 where s: "others (state_of svc w) s1" "others s2 (state_of svc w')"
    and a: "Apply parse_command serialize_response (SerializeCommand (node svc) c) clk s1 = (Applied out, s2)"
    using proposal [OF assms(1)] by blast
  obtain res s3 where c: "apply_command c clk s1 = (res, s3)"
    by (cases "apply_command c clk s1")
  obtain r where "res = Ok r" "out = serialize_response r" "s3 = s2"
    using a c command_wire [OF assms(2)] apply_command_no_Err [of c clk s1]
    by (cases res) (auto simp: Apply_def)
  with s c response_wire show thesis
    using that by blast
qed

text \<open>An answer is that of the state machine at a state the cluster was in.\<close>

lemma propose_inode:
  assumes "ProposeInodeCommand svc c w = (res, w')" and "c \<noteq> COMMAND_NOT_SET"
    and "\<And>e. res = Inl e \<Longrightarrow> state_kind (kind e)"
  obtains s1 clk s2 where "others (state_of svc w) s1"
    "apply_command c clk s1 = (Ok (case res of Inl e \<Rightarrow> MakeErrorResponse e | Inr a \<Rightarrow> AttrsResponse a), s2)"
    "others s2 (state_of svc w')"
proof -
  have r: "raftor svc"
    using assms(1,3) by (auto simp: ProposeInodeCommand_def raftor_missing_def split: if_splits)
  obtain out where out: "ProposeSync (node svc) (SerializeCommand (node svc) c) w = (Inr out, w')"
    using assms(1,3) r by (cases "ProposeSync (node svc) (SerializeCommand (node svc) c) w"; cases "fst (ProposeSync (node svc) (SerializeCommand (node svc) c) w)")
      (auto simp: ProposeInodeCommand_def FromRaftError_def split: if_splits)
  obtain s1 clk r s2 where s: "others (state_of svc w) s1" "apply_command c clk s1 = (Ok r, s2)"
    "ParseResponse (node svc) out = Some r" "others s2 (state_of svc w')"
    by (rule proposed [OF out assms(2)])
  have "r = (case res of Inl e \<Rightarrow> MakeErrorResponse e | Inr a \<Rightarrow> AttrsResponse a)"
    using assms(1,3) \<open>raftor svc\<close> out s(2,3) apply_command_error [of c clk s1 _ s2]
    by (cases r) (auto simp: ProposeInodeCommand_def)
  with s show thesis
    using that by blast
qed

lemma propose_append:
  assumes "ProposeAppendWriteCommand svc c w = (Inr a, w')" and "c \<noteq> COMMAND_NOT_SET"
  obtains s1 clk s2 where "others (state_of svc w) s1"
    "apply_command c clk s1 = (Ok (AppendWriteResponse a), s2)" "others s2 (state_of svc w')"
proof -
  obtain out where r: "raftor svc" and out: "ProposeSync (node svc) (SerializeCommand (node svc) c) w = (Inr out, w')"
    using assms(1) by (auto simp: ProposeAppendWriteCommand_def split: if_splits sum.splits prod.splits)
  obtain s1 clk r s2 where s: "others (state_of svc w) s1" "apply_command c clk s1 = (Ok r, s2)"
    "ParseResponse (node svc) out = Some r" "others s2 (state_of svc w')"
    by (rule proposed [OF out assms(2)])
  have "r = AppendWriteResponse a"
    using assms(1) r out s(3) by (cases r) (auto simp: ProposeAppendWriteCommand_def)
  with s show thesis
    using that by blast
qed

lemma read_answer:
  assumes "read_handler svc ctxt query w = (Some (Inr a), w')"
  shows "others (state_of svc w) (state_of svc w') \<and> query (state_of svc w') = Ok a"
  using assms
  by (auto simp: read_handler_def LinearizableRead_def state_of_def
      dest!: read_index split: if_splits prod.splits sum.splits outcome.splits)

end

end
