(* ===== verification/Meta_Link.thy ===== *)
theory Meta_Link
  imports Cluster Read_Back Data_Properties
begin

text \<open>
  From an open file to the replicated state: what a commit of pending writes and an open do
  to, and take from, the metadata behind the client, the RPC handlers and the Raft library.
\<close>

section \<open>What the client relies on\<close>

text \<open>
  An OK status comes with the reply of the handler, which ran once; another status may come
  whether or not it ran.  A read leaves the state to others, whatever its status.
\<close>

locale metadata_link = raft_cluster svc parse_command serialize_response others
  for svc :: "'w MetaService" and parse_command serialize_response others +
  fixes stub :: "'w stub"
  assumes commit_served: "stub_CommitWrite stub i base es w = ((st, a), w') \<Longrightarrow> status_ok st \<Longrightarrow>
        CommitWriteRpc svc i base es w = (Inr a, w')"
    and append_served: "stub_AppendWrite stub i base es w = ((st, r), w') \<Longrightarrow> status_ok st \<Longrightarrow>
        AppendWriteRpc svc i base es w = (Inr r, w')"
    and layout_served: "stub_GetLayout stub i w = ((st, l), w') \<Longrightarrow> status_ok st \<Longrightarrow>
        GetLayoutRpc svc i w = (Some (Inr l), w')"
    and layout_reads: "stub_GetLayout stub i w = ((st, l), w') \<Longrightarrow> others (state_of svc w) (state_of svc w')"
begin

lemma client_commit:
  assumes "Client_CommitWrite stub i base es w = (Inr a, w')"
  obtains s1 now s2 where "others (state_of svc w) s1" "CommitWrite i base es now s1 = (Ok a, s2)"
    "others s2 (state_of svc w')"
proof -
  obtain st where "stub_CommitWrite stub i base es w = ((st, a), w')" "status_ok st"
    using assms by (auto simp: Client_CommitWrite_def finish_def split: prod.splits if_splits)
  from commit_served [OF this] have "ProposeInodeCommand svc (CommitWriteCommand i base es) w = (Inr a, w')"
    by (cases "ProposeInodeCommand svc (CommitWriteCommand i base es) w"; cases "fst (ProposeInodeCommand svc (CommitWriteCommand i base es) w)")
      (auto simp: CommitWriteRpc_def)
  then obtain s1 clk s2 where s: "others (state_of svc w) s1"
    "apply_command (CommitWriteCommand i base es) clk s1 = (Ok (AttrsResponse a), s2)" "others s2 (state_of svc w')"
    by (rule propose_inode) auto
  then have "CommitWrite i base es (clk 0) s1 = (Ok a, s2)"
    by (auto simp: respond_def MakeErrorResponse_def split: prod.splits outcome.splits)
  with s(1,3) show thesis
    using that [of s1 "clk 0" s2] by simp
qed

lemma client_append:
  assumes "Client_AppendWrite stub i base es w = (Inr r, w')"
  obtains s1 now q s2 where "others (state_of svc w) s1" "AppendWrite i base es now s1 = (Ok q, s2)"
    "others s2 (state_of svc w')"
proof -
  obtain st where "stub_AppendWrite stub i base es w = ((st, r), w')" "status_ok st"
    using assms by (auto simp: Client_AppendWrite_def finish_def split: prod.splits if_splits)
  from append_served [OF this] have "ProposeAppendWriteCommand svc (AppendWriteCommand i base es) w = (Inr r, w')"
    by (cases "ProposeAppendWriteCommand svc (AppendWriteCommand i base es) w"; cases "fst (ProposeAppendWriteCommand svc (AppendWriteCommand i base es) w)")
      (auto simp: AppendWriteRpc_def)
  then obtain s1 clk s2 where s: "others (state_of svc w) s1"
    "apply_command (AppendWriteCommand i base es) clk s1 = (Ok (AppendWriteResponse r), s2)" "others s2 (state_of svc w')"
    by (rule propose_append) auto
  then obtain q where "AppendWrite i base es (clk 0) s1 = (Ok q, s2)"
    by (auto simp: respond_append_def MakeErrorResponse_def split: prod.splits outcome.splits)
  with s(1,3) show thesis
    using that [of s1 "clk 0" q s2] by simp
qed

lemma client_layout:
  assumes "Client_GetLayout stub i w = (res, w')"
  shows "others (state_of svc w) (state_of svc w')" and "res = Inr l \<Longrightarrow> GetLayout i (state_of svc w') = Ok l"
proof -
  obtain st m where m: "stub_GetLayout stub i w = ((st, m), w')" "res = (if status_ok st then Inr m else Inl (FromGrpcStatus st))"
    using assms by (auto simp: Client_GetLayout_def finish_def split: prod.splits)
  show "others (state_of svc w) (state_of svc w')"
    by (rule layout_reads [OF m(1)])
  assume "res = Inr l"
  with m layout_served [OF m(1)] show "GetLayout i (state_of svc w') = Ok l"
    unfolding GetLayoutRpc_def by (auto dest!: read_answer split: if_splits)
qed

end

section \<open>The layout of a file\<close>

text \<open>A layout fetched from a well-formed state shows the file.\<close>

lemma GetLayout_shows:
  assumes "machine_ok s" and "GetLayout i s = Ok l"
  shows "itype s i = Some INODE_TYPE_FILE" and "overwrite_all (extents l) (\<lambda>_. None) = file_content s i"
    and "a_size (l_attrs l) = file_size s i"
proof -
  have v: "ValidateRegularFile s i = Inr ()"
    using assms(2) by (auto simp: GetLayout_def split: sum.splits)
  then show t: "itype s i = Some INODE_TYPE_FILE"
    by (simp add: ValidateRegularFile_Inr)
  have wf: "meta_wf s" "data_ok s"
    using assms(1) by (simp_all add: machine_ok_def)
  obtain a m where f: "omap_lookup (inodes s) i = Some a" "omap_lookup (layouts s) i = Some m"
    "laid_out (extents m)" "file_size s i = a_size a" "file_content s i = content (extents m)"
    by (rule file_of [OF wf t])
  then have "l = m\<lparr>l_attrs := a\<rparr>"
    using assms(2) v by (simp add: GetLayout_def)
  with f show "overwrite_all (extents l) (\<lambda>_. None) = file_content s i" "a_size (l_attrs l) = file_size s i"
    by (simp_all add: overwrite_all_content laid_out_disjoint)
qed

section \<open>Committing an open file\<close>

text \<open>The size an open file shows is the one its commit gives the file.\<close>

lemma foldl_max_Max:
  fixes n :: "'a::linorder"
  shows "foldl (\<lambda>n e. max n (f e)) n es = Max (insert n (f ` set es))"
proof (induction es arbitrary: n)
  case (Cons e es)
  have "Max (insert n (insert (f e) (f ` set es))) = Max (insert (max n (f e)) (f ` set es))"
    by (cases "es = []") (simp_all add: max.assoc)
  with Cons show ?case
    by simp
qed simp

lemma GetAttr_size: "GetAttr i s = Ok a \<Longrightarrow> file_size s i = a_size a"
  by (auto simp: GetAttr_def file_size_def split: option.splits)

lemma shown_appends:
  assumes "admissible start es"
  shows "foldl (\<lambda>n e. max n (ExtentEnd e)) start (map (shift_extent start) es) =
    start + Max (insert 0 (ExtentEnd ` set es))"
proof -
  have len: "append_length es = Max (insert 0 (ExtentEnd ` set es))"
    using commit_size_Max [of 0 es] by (simp add: append_length_def commit_size_fold)
  have "Max (insert start (ExtentEnd ` set (map (shift_extent start) es))) = start + append_length es"
  proof (rule Max_eqI)
    show "y \<le> start + append_length es" if "y \<in> insert start (ExtentEnd ` set (map (shift_extent start) es))" for y
      using that append_end [OF assms] by auto
    show "start + append_length es \<in> insert start (ExtentEnd ` set (map (shift_extent start) es))"
      using append_length_attained [of es] by (cases "append_length es = 0") (auto simp: image_image image_iff)
  qed simp
  then show ?thesis
    by (simp only: foldl_max_Max len)
qed

lemma refresh_state:
  assumes "metadata_link svc pc sr (=) (meta_client env)"
  shows "state_of svc (snd (refresh_layout env g v)) = state_of svc v"
  using metadata_link.client_layout(1) [OF assms, of "h_inode_id g" v]
  by (cases "Client_GetLayout (meta_client env) (h_inode_id g) v";
      cases "fst (Client_GetLayout (meta_client env) (h_inode_id g) v)"; auto simp: refresh_layout_def)

text \<open>
  What a commit without other clients makes of the metadata: the content that reads through
  the handle showed, when the handle had the current layout.
\<close>

lemma commit_publishes:
  assumes link: "metadata_link svc pc sr (=) stub" and "meta_client env = stub"
    and ok: "machine_ok (state_of svc w)" and "handle_ok h"
    and lay: "GetLayout (h_inode_id h) (state_of svc w) = Ok (layout h)"
    and "admissible 0 (pending_extents h)"
    and "admissible (file_size (state_of svc w) (h_inode_id h)) (pending_append_extents h)"
    and com: "CommitHandle env h w = (Inr (), h', w')"
  shows "file_content (state_of svc w') (h_inode_id h) = handle_content h \<and>
    file_size (state_of svc w') (h_inode_id h) = visible_size h \<and>
    (\<forall>j. j \<noteq> h_inode_id h \<longrightarrow> file_view (state_of svc w') j = file_view (state_of svc w) j) \<and>
    dentries (state_of svc w') = dentries (state_of svc w) \<and>
    pending_extents h' = [] \<and> pending_append_extents h' = []"
proof -
  let ?i = "h_inode_id h" and ?s = "state_of svc w"
  note shows_file = GetLayout_shows [OF ok lay]
  note refresh = refresh_state [of svc pc sr env, unfolded assms(2), OF link]
  consider "pending_extents h = []" "pending_append_extents h = []"
    | "pending_extents h \<noteq> []" "pending_append_extents h = []"
    | "pending_extents h = []" "pending_append_extents h \<noteq> []"
    using assms(4) by (auto simp: handle_ok_def split: if_splits)
  then show ?thesis
  proof cases
    case 1
    then have "h' = h \<and> w' = w"
      using com by (simp add: CommitHandle_def commit_pending_def commit_appends_def)
    with 1 shows_file(2) show ?thesis
      by (simp add: handle_content_def visible_appends_def visible_size_def shows_file(3))
  next
    case 2
    obtain a w1 where c: "Client_CommitWrite stub ?i (version (l_attrs (layout h))) (pending_extents h) w = (Inr a, w1)"
      and r: "refresh_layout env (h\<lparr>pending_extents := []\<rparr>) w1 = (h', w')"
      using com 2 assms(2)
      by (auto simp: CommitHandle_def commit_pending_def commit_appends_def prod_eq_iff
          split: prod.splits sum.splits if_splits)
    obtain now s2 where "CommitWrite ?i (version (l_attrs (layout h))) (pending_extents h) now ?s = (Ok a, s2)"
      "s2 = state_of svc w1"
      by (rule metadata_link.client_commit [OF link c]) blast
    with CommitWrite_effect [OF ok shows_file(1) assms(6), of "version (l_attrs (layout h))" now]
      refresh [of "h\<lparr>pending_extents := []\<rparr>" w1] refresh_keeps [of env "h\<lparr>pending_extents := []\<rparr>" w1]
      r 2 shows_file(2)
    show ?thesis
      by (auto simp: handle_content_def visible_appends_def visible_size_def foldl_max_Max shows_file(3))
  next
    case 3
    let ?h = "h\<lparr>pending_append_extents := [], pending_append_length := 0\<rparr>"
    obtain r w1 where c: "Client_AppendWrite stub ?i (version (l_attrs (layout h))) (pending_append_extents h) w = (Inr r, w1)"
      and r: "refresh_layout env ?h w1 = (h', w')"
      using com 3 assms(2)
      by (auto simp: CommitHandle_def commit_pending_def commit_appends_def split: prod.splits sum.splits if_splits)
    obtain now q s2 where "AppendWrite ?i (version (l_attrs (layout h))) (pending_append_extents h) now ?s = (Ok q, s2)"
      "s2 = state_of svc w1"
      by (rule metadata_link.client_append [OF link c]) blast
    moreover have "visible_appends h = map (shift_extent (file_size ?s ?i)) (pending_append_extents h)"
      by (simp add: visible_appends_def shift_extent_def shows_file(3))
    moreover from this have "visible_size h = file_size ?s ?i +
        Max (insert 0 (ExtentEnd ` set (pending_append_extents h)))"
      using 3 shown_appends [OF assms(7)] by (simp add: visible_size_def shows_file(3))
    ultimately show ?thesis
      using AppendWrite_effect [OF ok shows_file(1) assms(7), of "version (l_attrs (layout h))" now]
        refresh [of ?h w1] refresh_keeps [of env ?h w1] r 3 shows_file(2)
      by (auto simp: handle_content_def dest: GetAttr_size)
  qed
qed

section \<open>Flush and open\<close>

lemma flush_effect:
  assumes "metadata_link svc parse serialize (=) stub" and "meta_client env = stub"
    and "GetFileHandle (fh fi) srv = Some h" and "table_ok srv" and "machine_ok (state_of svc w)"
    and "GetLayout (h_inode_id h) (state_of svc w) = Ok (layout h)"
    and "admissible 0 (pending_extents h)"
    and "admissible (file_size (state_of svc w) (h_inode_id h)) (pending_append_extents h)"
    and "PulpfsFlush env ino fi srv w = (reply_done, srv', w')"
  shows "file_content (state_of svc w') (h_inode_id h) = handle_content h \<and>
    file_size (state_of svc w') (h_inode_id h) = visible_size h \<and>
    (\<forall>j. j \<noteq> h_inode_id h \<longrightarrow> file_view (state_of svc w') j = file_view (state_of svc w) j) \<and>
    dentries (state_of svc w') = dentries (state_of svc w) \<and>
    (\<exists>h'. GetFileHandle (fh fi) srv' = Some h' \<and> pending_extents h' = [] \<and> pending_append_extents h' = [])"
proof -
  obtain res h' where c: "CommitHandle env h w = (res, h', w')" "reply_result res = reply_done"
    and s: "srv' = srv\<lparr>handles := (handles srv)(fh fi \<mapsto> h')\<rparr>"
    using assms(3,9) by (auto simp: PulpfsFlush_def commit_fh_def split: prod.splits)
  then have "res = Inr ()"
    by (cases res) (auto simp: reply_result_def)
  with commit_publishes [OF assms(1,2,5) table_okD [OF assms(4,3)] assms(6-8), of h' w'] c s show ?thesis
    by (simp add: GetFileHandle_def)
qed

lemma open_effect:
  assumes "metadata_link svc parse serialize (=) stub" and "meta_client env = stub"
    and "machine_ok (state_of svc w)" and "and (fi_flags fi) O_TRUNC = 0"
    and "PulpfsOpen env ino fi srv w = (reply_open fi', srv', w')"
  shows "\<exists>h. GetFileHandle (fh fi') srv' = Some h \<and> h_inode_id h = ino \<and>
    handle_content h = file_content (state_of svc w) ino \<and> visible_size h = file_size (state_of svc w) ino \<and>
    GetLayout ino (state_of svc w') = Ok (layout h) \<and> state_of svc w' = state_of svc w"
proof -
  obtain l where l: "Client_GetLayout stub ino w = (Inr l, w')"
    and h: "AllocateFileHandle ((new_handle ino (fi_flags fi))\<lparr>layout := l\<rparr>) srv = (fh fi', srv')"
    using assms(2,4,5) by (auto simp: PulpfsOpen_def split: prod.splits sum.splits if_splits)
  note read = metadata_link.client_layout [OF assms(1) l]
  have lay: "GetLayout ino (state_of svc w) = Ok l" "state_of svc w' = state_of svc w"
    using read(1) read(2) [OF refl] by simp_all
  note shows_file = GetLayout_shows [OF assms(3) lay(1)]
  have "GetFileHandle (fh fi') srv' = Some ((new_handle ino (fi_flags fi))\<lparr>layout := l\<rparr>)"
    using h by (auto simp: AllocateFileHandle_def GetFileHandle_def Let_def)
  with shows_file lay show ?thesis
    by (simp add: handle_content_def visible_size_def visible_appends_def new_handle_def FuseFileHandle_init_def)
qed

end
