(* ===== verification/Local_Cluster.thy ===== *)
theory Local_Cluster
  imports Meta_Link Examples
begin

text \<open>
  A cluster of one node with a store beside it: a proposal is applied at once with the
  model's \<^const>\<open>Apply\<close>, calls run the handlers directly.  It shows that the contracts of
  \<^theory_text>\<open>Cluster\<close> and \<^theory_text>\<open>Meta_Link\<close> can be met, and the properties are applied to it.
\<close>

section \<open>One node\<close>

definition applied_elsewhere :: raft_error where
  "applied_elsewhere = \<lparr>is_timeout = False, is_lost_leadership = False, is_shutting_down = True,
     raft_text = ''dropped''\<rparr>"

definition local_node :: "(MetaState \<times> 'o) raft_node" where
  "local_node = \<lparr>
     ProposeSync = \<lambda>data w. (case Apply read_message print_message data (\<lambda>_. 5) (fst w) of
         (Applied out, s) \<Rightarrow> (Inr out, (s, snd w))
       | (_, s) \<Rightarrow> (Inl applied_elsewhere, (s, snd w))),
     ReadIndexSync = \<lambda>ctxt w. (Inr (), w),
     node_state = fst,
     SerializeCommand = print_message,
     ParseResponse = read_message\<rparr>"

definition local_service :: "(MetaState \<times> 'o) MetaService" where
  "local_service = \<lparr>raftor = True, node = local_node\<rparr>"

lemma local_state [simp]: "state_of local_service w = fst w"
  by (simp add: state_of_def local_service_def local_node_def)

section \<open>Calls without a network\<close>

definition direct :: "'a \<Rightarrow> (Status + 'a) \<times> 'w \<Rightarrow> (Status \<times> 'a) \<times> 'w" where
  "direct d r = (case r of (Inl st, w) \<Rightarrow> ((st, d), w) | (Inr a, w) \<Rightarrow> ((Status_OK, a), w))"

text \<open>An exception that leaves a handler is an unknown error to the client.\<close>

definition direct_read :: "'a \<Rightarrow> (Status + 'a) option \<times> 'w \<Rightarrow> (Status \<times> 'a) \<times> 'w" where
  "direct_read d r = (case r of
     (None, w) \<Rightarrow> ((\<lparr>error_code = UNKNOWN, error_message = ''Unexpected error in RPC handling''\<rparr>, d), w)
   | (Some x, w) \<Rightarrow> direct d (x, w))"

definition direct_stub :: "'w MetaService \<Rightarrow> 'w stub" where
  "direct_stub svc = \<lparr>
     stub_Mkdir = \<lambda>p n mode uid gid w. direct default_attrs (MkdirRpc svc p n mode uid gid w),
     stub_CreateFile = \<lambda>p n mode uid gid w. direct default_attrs (CreateFileRpc svc p n mode uid gid w),
     stub_Lookup = \<lambda>p n w. direct_read default_attrs (LookupRpc svc p n w),
     stub_GetAttr = \<lambda>i w. direct_read default_attrs (GetAttrRpc svc i w),
     stub_SetAttr = \<lambda>c w. direct default_attrs (SetAttrRpc svc c w),
     stub_ReadDir = \<lambda>i w. direct_read [] (ReadDirRpc svc i w),
     stub_Unlink = \<lambda>p n w. direct default_attrs (UnlinkRpc svc p n w),
     stub_Rmdir = \<lambda>p n w. direct default_attrs (RmdirRpc svc p n w),
     stub_Rename = \<lambda>p n np nn w. direct default_attrs (RenameRpc svc p n np nn w),
     stub_GetLayout = \<lambda>i w. direct_read default_layout (GetLayoutRpc svc i w),
     stub_ListLiveObjects = \<lambda>w. direct_read [] (ListLiveObjectsRpc svc w),
     stub_CommitWrite = \<lambda>i base es w. direct default_attrs (CommitWriteRpc svc i base es w),
     stub_AppendWrite = \<lambda>i base es w. direct \<lparr>aw_attrs = default_attrs, aw_append_start = 0,
       aw_committed_extents = []\<rparr> (AppendWriteRpc svc i base es w),
     stub_Truncate = \<lambda>i sz w. direct default_attrs (TruncateRpc svc i sz w)\<rparr>"

interpretation local: raft_cluster local_service read_message print_message "(=)"
proof unfold_locales
  fix data :: string and w w' :: "MetaState \<times> 'o" and out
  assume "ProposeSync (node local_service) data w = (Inr out, w')"
  then have "Apply read_message print_message data (\<lambda>_. 5) (fst w) = (Applied out, fst w')"
    by (auto simp: local_service_def local_node_def split: prod.splits ApplyResult.splits)
  then show "\<exists>s1 clk s2. state_of local_service w = s1 \<and>
      Apply read_message print_message data clk s1 = (Applied out, s2) \<and> s2 = state_of local_service w'"
    by auto
next
  fix ctxt and w w' :: "MetaState \<times> 'o"
  assume "ReadIndexSync (node local_service) ctxt w = (Inr (), w')"
  then show "state_of local_service w = state_of local_service w'"
    by (simp add: local_service_def local_node_def)
qed (simp_all add: local_service_def local_node_def)

lemma direct_ok:
  "direct d r = ((st, a), w') \<Longrightarrow> status_ok st \<Longrightarrow> (\<And>e. fst r = Inl e \<Longrightarrow> \<not> status_ok e) \<Longrightarrow> r = (Inr a, w')"
  by (auto simp: direct_def split: prod.splits sum.splits)

lemma reply_of_error: "reply_of r = Inl st \<Longrightarrow> \<not> status_ok st"
  by (cases r) auto

lemma read_handler_error: "fst (read_handler svc ctxt q w) = Some (Inl st) \<Longrightarrow> \<not> status_ok st"
  by (auto simp: read_handler_def split: prod.splits sum.splits outcome.splits)

interpretation local: metadata_link local_service read_message print_message "(=)" "direct_stub local_service"
proof unfold_locales
  fix i and w w' :: "MetaState \<times> 'o" and st l
  assume "stub_GetLayout (direct_stub local_service) i w = ((st, l), w')"
  moreover have "snd (GetLayoutRpc local_service i w) = w"
    by (auto simp: GetLayoutRpc_def read_handler_def LinearizableRead_def local_service_def local_node_def
        split: outcome.splits)
  ultimately have "w' = w"
    by (auto simp: direct_stub_def direct_read_def direct_def split: prod.splits option.splits sum.splits)
  then show "state_of local_service w = state_of local_service w'"
    by simp
next
  fix i and w w' :: "MetaState \<times> 'o" and st l
  assume "stub_GetLayout (direct_stub local_service) i w = ((st, l), w')" "status_ok st"
  then show "GetLayoutRpc local_service i w = (Some (Inr l), w')"
    using read_handler_error [of local_service "''getlayout''" "GetLayout i" w]
    by (auto simp: direct_stub_def direct_read_def GetLayoutRpc_def direct_def status_ok_def
        split: prod.splits option.splits sum.splits)
qed (auto simp: direct_stub_def CommitWriteRpc_def AppendWriteRpc_def dest!: direct_ok dest: reply_of_error)

section \<open>A mounted file system\<close>

definition local_env :: "(MetaState \<times> FakeObjectStore) env" where
  "local_env = \<lparr>meta_client = direct_stub local_service,
     store_get = \<lambda>req w. Fake_GetObject req (snd w),
     store_put = \<lambda>req w. (case Fake_PutObject req (snd w) of (r, m) \<Rightarrow> (r, (fst w, m))),
     add_direntry = \<lambda>name st off. map (\<lambda>c. of_nat (of_char c)) name @ [ucast off]\<rparr>"

definition local_delete :: "DeleteObjectRequest \<Rightarrow> MetaState \<times> FakeObjectStore \<Rightarrow> unit Result \<times> MetaState \<times> FakeObjectStore" where
  "local_delete req w = (case Fake_DeleteObject req (snd w) of (r, m) \<Rightarrow> (r, (fst w, m)))"

interpretation local_store: object_store "store_get local_env" "store_put local_env" local_delete
  "\<lambda>w. fake_holds (snd w)"
proof unfold_locales
  fix w :: "MetaState \<times> FakeObjectStore" and bucket key body and off l :: u64
  assume "fake_holds (snd w) bucket key = Some body" "unat off + unat l \<le> length body" "length body < 2 ^ 64"
  then show "\<exists>r. store_get local_env (range_request bucket key off l) w = Inr r \<and>
      get_body r = take (unat l) (drop (unat off) body)"
    by (simp add: local_env_def fake_get_range)
qed (auto simp: local_env_def local_delete_def Fake_PutObject_def Fake_DeleteObject_def fake_holds_def)

end
