(* ===== verification/Cluster_Properties.thy ===== *)
theory Cluster_Properties
  imports Local_Cluster Io_Properties
begin

text \<open>
  The properties that hold across the whole path: what an RPC's answer says about the
  replicated state, and what an open file, its commits and later opens say about each other.
\<close>

section \<open>Answers of the service\<close>


text \<open>What a proposal to the cluster of one node comes to.\<close>

lemma local_propose:
  assumes "c \<noteq> COMMAND_NOT_SET" and "apply_command c (\<lambda>_. 5) s = (Ok r, s')"
  shows "ProposeSync local_node (print_message c) (s, m) = (Inr (print_message r), (s', m))"
  using assms(2) by (simp add: local_node_def Apply_def)

lemma local_error:
  assumes "c \<noteq> COMMAND_NOT_SET" and "apply_command c (\<lambda>_. 5) s = (Ok (MakeErrorResponse e), s')"
    and "state_kind (kind e)"
  shows "ProposeInodeCommand local_service c (s, m) = (Inl e, (s', m))"
proof -
  obtain x where x: "MakeErrorResponse e = ErrorResponseOf x"
    by (simp add: MakeErrorResponse_def)
  note ErrorFromResponse_MakeErrorResponse [OF assms(3) x]
  with x local_propose [OF assms(1,2), of m] show ?thesis
    by (simp add: ProposeInodeCommand_def local_service_def local_node_def)
qed


section \<open>Flush and open\<close>


definition demo_layout :: FileLayout where
  "demo_layout = (case GetLayout 3 demo of Ok l \<Rightarrow> l | _ \<Rightarrow> default_layout)"

lemma demo_layout: "GetLayout 3 demo = Ok demo_layout"
proof -
  have "\<exists>l. GetLayout 3 demo = Ok l"
    by (cases "GetLayout 3 demo"; simp; code_simp)
  then show ?thesis
    by (auto simp: demo_layout_def)
qed

text \<open>The file \<^verbatim>\<open>/d/f\<close> of the example, open with a write of four bytes pending behind its end.\<close>

definition demo_handle :: FuseFileHandle where
  "demo_handle = (new_handle 3 O_RDWR)\<lparr>layout := demo_layout, pending_extents := [extent_at 6 4 ''k9'']\<rparr>"

definition demo_server :: FuseServer where
  "demo_server = snd (AllocateFileHandle demo_handle (FuseServer_init sample_config ''w''))"

lemma demo_server_ok: "table_ok demo_server"
  by (simp add: table_ok_def demo_server_def AllocateFileHandle_def FuseServer_init_def handle_ok_def
      demo_handle_def new_handle_def FuseFileHandle_init_def IsWritable_def flag_defs)

lemma demo_server_file: "GetFileHandle (fh sample_file) demo_server = Some demo_handle"
  by (simp add: demo_server_def AllocateFileHandle_def GetFileHandle_def FuseServer_init_def sample_file_def)

lemma local_commit:
  assumes "CommitWrite i base es 5 s = (Ok a, s')"
  shows "Client_CommitWrite (direct_stub local_service) i base es (s, m) = (Inr a, (s', m))"
proof -
  have "apply_command (CommitWriteCommand i base es) (\<lambda>_. 5) s = (Ok (AttrsResponse a), s')"
    using assms by (simp add: respond_def)
  from local_propose [OF _ this, of m]
  have "ProposeInodeCommand local_service (CommitWriteCommand i base es) (s, m) = (Inr a, (s', m))"
    by (simp add: ProposeInodeCommand_def local_service_def local_node_def)
  then show ?thesis
    by (simp add: Client_CommitWrite_def direct_stub_def CommitWriteRpc_def direct_def finish_def)
qed




end
