(* ===== verification/Layout_Objects.thy ===== *)
theory Layout_Objects
  imports Data_Properties Read_Back
begin

text \<open>
  Which objects a metadata state uses: the extents of its layouts.  A command brings in no
  extent that is not part of one the state had or of one the command carries.
\<close>

section \<open>Parts of extents\<close>

text \<open>An extent that reads a part of the object range another one reads.\<close>

definition part_of :: "FileExtent \<Rightarrow> FileExtent \<Rightarrow> bool" where
  "part_of y x \<longleftrightarrow> (proper x \<longrightarrow> proper y) \<and> object_key y = object_key x \<and>
     (\<exists>d. d + unat (len y) \<le> unat (len x) \<and> object_offset y = object_offset x + of_nat d)"

lemma part_of_refl [simp]: "part_of x x"
  unfolding part_of_def by (intro conjI exI [of _ 0]) simp_all

lemma part_of_trans:
  assumes "part_of z y" and "part_of y x"
  shows "part_of z x"
proof -
  obtain d where "d + unat (len y) \<le> unat (len x)" "object_offset y = object_offset x + of_nat d"
    using assms(2) by (auto simp: part_of_def)
  moreover obtain e where "e + unat (len z) \<le> unat (len y)" "object_offset z = object_offset y + of_nat e"
    using assms(1) by (auto simp: part_of_def)
  ultimately show ?thesis
    using assms unfolding part_of_def by (intro conjI exI [of _ "d + e"]) auto
qed

lemma part_of_Slice:
  assumes "proper x" and "offset x \<le> off" and "off < b" and "b \<le> ExtentEnd x"
  shows "part_of (SliceExtent x off (b - off)) x"
proof -
  have "unat (ExtentEnd x) = unat (offset x) + unat (len x)"
    using assms(1) by (simp add: proper_iff ExtentEnd_def unat_word_ariths)
  moreover have "unat (off - offset x) = unat off - unat (offset x)" "unat (b - off) = unat b - unat off"
    using assms(2,3) by (simp_all add: unat_sub)
  moreover have "unat (offset x) \<le> unat off" "unat off < unat b" "unat b \<le> unat (ExtentEnd x)"
    using assms(2-4) by (simp_all add: word_le_nat_alt word_less_nat_alt)
  ultimately have "unat (off - offset x) + unat (b - off) \<le> unat (len x)"
    by linarith
  then show ?thesis
    using assms(3) unfolding part_of_def
    by (intro conjI exI [of _ "unat (off - offset x)"]) simp_all
qed

lemma part_of_shift:
  assumes "accepted e" and "fits start e"
  shows "part_of (shift_extent start e) e"
  using accepted_proper [OF assms] unfolding part_of_def by (intro conjI exI [of _ 0]) simp_all

text \<open>A part of an extent that lies in a stored object lies in it too.\<close>

lemma backed_part:
  assumes "backed obj x" and "part_of y x"
  shows "backed obj y"
proof -
  obtain body where b: "proper x" "obj (object_key x) = Some body"
    "unat (object_offset x) + unat (len x) \<le> length body" "length body < 2 ^ 64"
    using assms(1) by (auto simp: backed_def split: option.splits)
  obtain d where d: "d + unat (len y) \<le> unat (len x)" "object_offset y = object_offset x + of_nat d"
    and y: "proper y" "object_key y = object_key x"
    using assms(2) b(1) by (auto simp: part_of_def)
  have "d < 2 ^ 64"
    using b(3,4) d(1) by simp
  then have "unat (of_nat d :: u64) = d"
    by (simp add: unat_of_nat)
  moreover have "unat (object_offset x) + d < 2 ^ LENGTH(64)"
    using b(3,4) d(1) by simp
  ultimately have "unat (object_offset y) = unat (object_offset x) + d"
    unfolding d(2) by (simp add: unat_word_ariths)
  with b d(1) y show ?thesis
    by (simp add: backed_def)
qed

text \<open>Every extent of a list is a part of one of a set.\<close>

definition parts_of :: "FileExtent set \<Rightarrow> FileExtent set \<Rightarrow> bool" where
  "parts_of A B \<longleftrightarrow> (\<forall>y\<in>A. \<exists>x\<in>B. part_of y x)"

lemma parts_of_subset: "A \<subseteq> B \<Longrightarrow> parts_of A B"
  unfolding parts_of_def using part_of_refl by blast

lemma parts_of_trans: "parts_of A B \<Longrightarrow> parts_of B C \<Longrightarrow> parts_of A C"
  unfolding parts_of_def using part_of_trans by blast

lemma parts_of_mono: "parts_of A B \<Longrightarrow> B \<subseteq> C \<Longrightarrow> parts_of A C"
  unfolding parts_of_def by blast

lemma parts_of_Un: "parts_of A C \<Longrightarrow> parts_of B C \<Longrightarrow> parts_of (A \<union> B) C"
  unfolding parts_of_def by blast

lemma parts_of_insert: "parts_of (insert y A) B \<longleftrightarrow> (\<exists>x\<in>B. part_of y x) \<and> parts_of A B"
  by (simp add: parts_of_def)

lemma parts_of_backed: "parts_of A B \<Longrightarrow> \<forall>x\<in>B. backed obj x \<Longrightarrow> \<forall>x\<in>A. backed obj x"
  unfolding parts_of_def using backed_part by blast

lemma parts_of_keys: "parts_of A B \<Longrightarrow> object_key ` A \<subseteq> object_key ` B"
  unfolding parts_of_def part_of_def by (metis (mono_tags, lifting) image_iff image_subsetI)

lemma merge_pieces_part:
  assumes "proper x" and "proper e" and "y \<in> set (merge_pieces e x)"
  shows "part_of y x"
proof (cases "Overlaps x e")
  case True
  then have "offset x < ExtentEnd e" "offset e < ExtentEnd x"
    by (simp_all add: Overlaps_def)
  with assms True show ?thesis
    by (auto simp: in_merge_pieces proper_def intro!: part_of_Slice)
qed (use assms(3) in \<open>simp add: in_merge_pieces\<close>)

lemma MergeExtent_parts:
  assumes "laid_out es" and "proper e"
  shows "parts_of (set (MergeExtent es e)) (insert e (set es))"
proof -
  have "\<exists>x\<in>insert e (set es). part_of y x" if y: "y \<in> set (MergeExtent es e)" for y
  proof (cases "y = e")
    case False
    then obtain x where x: "x \<in> set es" "y \<in> set (merge_pieces e x)"
      using y by (auto simp: set_MergeExtent)
    then have "proper x"
      using assms(1) by (simp add: laid_out_def)
    with merge_pieces_part [OF this assms(2) x(2)] x(1) show ?thesis
      by blast
  qed (use part_of_refl in blast)
  then show ?thesis
    by (simp add: parts_of_def)
qed

lemma commit_loop_parts:
  assumes "laid_out old" and "admissible 0 es"
  shows "parts_of (set (fst (commit_loop old es))) (set old \<union> set es)"
  using assms
proof (induction es arbitrary: old)
  case Nil
  then show ?case
    by (simp add: parts_of_subset)
next
  case (Cons e es)
  then have e: "accepted e" "proper e" "admissible 0 es"
    using accepted_proper(1) by auto
  have "laid_out (MergeExtent old e)"
    using Cons.prems(1) e(2) by (rule MergeExtent_laid_out)
  then have "parts_of (set (fst (commit_loop (MergeExtent old e) es))) (set (MergeExtent old e) \<union> set es)"
    using e(3) by (rule Cons.IH)
  moreover have "parts_of (set (MergeExtent old e) \<union> set es) (set old \<union> set (e # es))"
    using MergeExtent_parts [OF Cons.prems(1) e(2)]
    by (intro parts_of_Un) (auto intro: parts_of_subset elim: parts_of_mono)
  ultimately show ?case
    using e(1) by (simp add: accepted_def) (rule parts_of_trans)
qed

lemma truncate_parts:
  assumes "\<forall>x\<in>set es. proper x"
  shows "parts_of (set (truncate_extents sz es)) (set es)"
  using assms
proof (induction es)
  case (Cons e es)
  have rest: "parts_of (set (truncate_extents sz es)) (set (e # es))"
    using Cons by (auto elim: parts_of_mono)
  have "part_of (SliceExtent e (offset e) (sz - offset e)) e" if "offset e < sz" "sz < ExtentEnd e"
    using that Cons.prems by (intro part_of_Slice) auto
  with rest show ?case
    by (auto simp: parts_of_insert not_le)
qed (simp add: parts_of_subset)

section \<open>The extents of a state\<close>

definition file_extents :: "MetaState \<Rightarrow> FileExtent set" where
  "file_extents s = {e. \<exists>i n es. file_view s i = Some (n, es) \<and> e \<in> set es}"

lemma file_extents_layout: "omap_lookup (layouts s) i = Some l \<Longrightarrow> set (extents l) \<subseteq> file_extents s"
  by (auto simp: file_extents_def file_view_def)

fun command_extents :: "RaftCommand \<Rightarrow> FileExtent set" where
  "command_extents (CommitWriteCommand i base es) = set es"
| "command_extents (AppendWriteCommand i base es) = set es"
| "command_extents _ = {}"

lemma file_extents_same:
  assumes "\<And>j n es. file_view s' j = Some (n, es) \<Longrightarrow> es = [] \<or> (\<exists>m. file_view s j = Some (m, es))"
  shows "parts_of (file_extents s') (file_extents s)"
  using assms by (intro parts_of_subset) (fastforce simp: file_extents_def)

lemma file_extents_written:
  assumes "\<And>j. file_view s' j = (if j = i then Some (n, es) else file_view s j)"
    and "parts_of (set es) (file_extents s \<union> X)"
  shows "parts_of (file_extents s') (file_extents s \<union> X)"
proof -
  have "file_extents s' \<subseteq> set es \<union> (file_extents s \<union> X)"
    using assms(1) by (auto simp: file_extents_def split: if_splits)
  with parts_of_Un [OF assms(2) parts_of_subset [of "file_extents s \<union> X" "file_extents s \<union> X"]] show ?thesis
    by (auto simp: parts_of_def)
qed

lemma extents_CreateNode:
  assumes "meta_wf s"
  shows "parts_of (file_extents (snd (CreateNode p name type mode uid gid now s))) (file_extents s)"
  using assms
proof (cases rule: CreateNode_cases [where p = p and name = name and type = type and mode = mode
    and uid = uid and gid = gid and now = now])
  case (created parent inode)
  then show ?thesis
    using view_created [OF assms created(3,4), of inode name type now]
    by (intro file_extents_same) (auto split: if_splits)
qed (simp add: parts_of_subset)

lemma extents_Unlink:
  assumes "meta_wf s"
  shows "parts_of (file_extents (snd (Unlink p name now s))) (file_extents s)"
  using assms
proof (cases rule: Unlink_cases [where p = p and name = name and now = now])
  case (gone i inode parent s')
  have "parts_of (file_extents s') (file_extents s)"
    unfolding gone(7)
    by (rule file_extents_same) (auto simp: view_removed [OF assms gone(1,4)] split: if_splits)
  with gone(5) show ?thesis
    by simp
qed (simp add: parts_of_subset)

lemma extents_Rmdir:
  assumes "meta_wf s"
  shows "parts_of (file_extents (snd (Rmdir p name now s))) (file_extents s)"
  using assms
proof (cases rule: Rmdir_cases [where p = p and name = name and now = now])
  case (gone i inode parent s')
  have "parts_of (file_extents s') (file_extents s)"
    unfolding gone(8)
    by (rule file_extents_same) (auto simp: view_removed [OF assms gone(1,5)] split: if_splits)
  with gone(6) show ?thesis
    by simp
qed (simp add: parts_of_subset)

lemma extents_CommitWrite:
  assumes "meta_wf s" and "data_ok s" and "admissible 0 es"
  shows "parts_of (file_extents (snd (CommitWrite i base es now s))) (file_extents s \<union> set es)"
proof (cases "ValidateRegularFile s i")
  case (Inr u)
  with assms(1) obtain a l where f: "omap_lookup (inodes s) i = Some a" "a_type a = INODE_TYPE_FILE"
    "omap_lookup (layouts s) i = Some l" "l_attrs l = a"
    by (rule wf_fileE)
  have acc: "\<forall>e\<in>set es. accepted e"
    using assms(3) by (simp add: admissible_def)
  from f acc show ?thesis
  proof (rule CommitWrite_view [where base = base and now = now])
    fix s'
    assume s': "CommitWrite i base es now s = (Ok (wrote (commit_size (a_size a) es) now a), s')"
      and v: "\<And>j. file_view s' j = (if j = i then Some (commit_size (a_size a) es,
        fst (commit_loop (extents l) es)) else file_view s j)"
    have "parts_of (set (fst (commit_loop (extents l) es))) (set (extents l) \<union> set es)"
      using data_okD(1) [OF assms(2) f(3,1)] assms(3) by (rule commit_loop_parts)
    then have "parts_of (set (fst (commit_loop (extents l) es))) (file_extents s \<union> set es)"
      using file_extents_layout [OF f(3)] by (elim parts_of_mono) blast
    from file_extents_written [OF v this] s' show ?thesis
      by simp
  qed
qed (simp add: CommitWrite_def parts_of_subset)

lemma extents_AppendWrite:
  assumes "meta_wf s" and "data_ok s" and "admissible (file_size s i) es"
  shows "parts_of (file_extents (snd (AppendWrite i base es now s))) (file_extents s \<union> set es)"
proof (cases "ValidateRegularFile s i")
  case (Inr u)
  with assms(1) obtain a l where f: "omap_lookup (inodes s) i = Some a" "a_type a = INODE_TYPE_FILE"
    "omap_lookup (layouts s) i = Some l" "l_attrs l = a"
    by (rule wf_fileE)
  have adm: "admissible (a_size a) es"
    using assms(3) f by (simp add: file_size_def)
  then have acc: "\<forall>e\<in>set es. accepted e"
    by (simp add: admissible_def)
  let ?new = "map (shift_extent (a_size a)) es"
  from f acc show ?thesis
  proof (rule AppendWrite_view [where base = base and now = now])
    fix s'
    assume s': "AppendWrite i base es now s = (Ok \<lparr>ar_attrs = wrote (a_size a + append_length es) now a,
        append_start = a_size a, committed_extents = ?new\<rparr>, s')"
      and v: "\<And>j. file_view s' j = (if j = i then Some (a_size a + append_length es,
        fst (commit_loop (extents l) ?new)) else file_view s j)"
    have "parts_of (set ?new) (set es)"
      using adm part_of_shift by (auto simp: parts_of_def admissible_def)
    then have "parts_of (set (extents l) \<union> set ?new) (file_extents s \<union> set es)"
      using file_extents_layout [OF f(3)]
      by (intro parts_of_Un) (auto intro: parts_of_subset elim: parts_of_mono)
    moreover have "parts_of (set (fst (commit_loop (extents l) ?new))) (set (extents l) \<union> set ?new)"
      using data_okD(1) [OF assms(2) f(3,1)] admissible_shift [OF adm] by (rule commit_loop_parts)
    ultimately have "parts_of (set (fst (commit_loop (extents l) ?new))) (file_extents s \<union> set es)"
      by (rule parts_of_trans [rotated])
    from file_extents_written [OF v this] s' show ?thesis
      by simp
  qed
qed (simp add: AppendWrite_def parts_of_subset)

lemma extents_Truncate:
  assumes "meta_wf s" and "data_ok s"
  shows "parts_of (file_extents (snd (Truncate i sz now s))) (file_extents s)"
proof (cases "ValidateRegularFile s i")
  case (Inr u)
  with assms(1) obtain a l where f: "omap_lookup (inodes s) i = Some a" "a_type a = INODE_TYPE_FILE"
    "omap_lookup (layouts s) i = Some l" "l_attrs l = a"
    by (rule wf_fileE)
  from f show ?thesis
  proof (rule Truncate_view [where sz = sz and now = now])
    fix s'
    assume s': "Truncate i sz now s = (Ok (wrote sz now a), s')"
      and v: "\<And>j. file_view s' j =
        (if j = i then Some (sz, truncate_extents sz (extents l)) else file_view s j)"
    have "parts_of (set (truncate_extents sz (extents l))) (file_extents s \<union> {})"
      using data_okD(1) [OF assms(2) f(3,1)] file_extents_layout [OF f(3)]
      by (auto simp: laid_out_def intro: parts_of_mono [OF truncate_parts])
    from file_extents_written [OF v this] s' show ?thesis
      by simp
  qed
qed (simp add: Truncate_def parts_of_subset)

lemma extents_apply_command:
  assumes "machine_ok s" and "admissible_command c s"
  shows "parts_of (file_extents (snd (apply_command c clk s))) (file_extents s \<union> command_extents c)"
proof -
  have wf: "meta_wf s" "data_ok s"
    using assms(1) by (simp_all add: machine_ok_def)
  have "parts_of (file_extents (snd (SetAttr a now s))) (file_extents s)" for a now
    by (rule file_extents_same) (simp add: view_SetAttr)
  moreover have "parts_of (file_extents (snd (Rename p n np nn now0 now s))) (file_extents s)"
    for p n np nn now0 now
    by (rule file_extents_same) (metis view_Rename [OF wf(1)] option.distinct(1))
  ultimately show ?thesis
    using assms(2) wf
    by (cases c) (simp_all add: extents_CreateNode extents_Unlink extents_Rmdir extents_CommitWrite
        extents_AppendWrite extents_Truncate Mkdir_def CreateFile_def parts_of_subset)
qed

section \<open>Commands that are in order\<close>

text \<open>Only commands that make an inode need a number for it.\<close>

fun makes_inode :: "RaftCommand \<Rightarrow> bool" where
  "makes_inode (MkdirCommand p n mode uid gid) = True"
| "makes_inode (CreateFileCommand p n mode uid gid) = True"
| "makes_inode _ = False"

definition sound_command :: "RaftCommand \<Rightarrow> MetaState \<Rightarrow> bool" where
  "sound_command c s \<longleftrightarrow> (makes_inode c \<longrightarrow> has_room s) \<and> admissible_command c s"

lemma machine_sound_step:
  assumes "machine_ok s" and "sound_command c s"
  shows "machine_ok (snd (apply_command c clk s))"
proof -
  have "meta_wf (snd (apply_command c clk s))"
    using assms by (cases c) (simp_all add: machine_ok_def sound_command_def has_room_def wf_intros
        wf_CreateNode Mkdir_def CreateFile_def)
  then show ?thesis
    using assms by (simp add: machine_ok_def sound_command_def data_apply_command)
qed

text \<open>Commands that are in order in every state and carry no data.\<close>

definition plain_command :: "RaftCommand \<Rightarrow> bool" where
  "plain_command c \<longleftrightarrow> (\<forall>s. sound_command c s) \<and> command_extents c = {}"

lemma plain_commands [simp]:
  "plain_command (SetAttrCommandOf c)" "plain_command (TruncateCommand i sz)"
  "plain_command (UnlinkCommand p n)" "plain_command (RmdirCommand p n)"
  "plain_command (RenameCommand p n np nn)"
  by (simp_all add: plain_command_def sound_command_def)

end
