(* ===== verification/Deployment.thy ===== *)
theory Deployment
  imports Layout_Objects Meta_Link Gc_Service
begin

text \<open>
  The whole system: any number of mounts and passes of the collector over one metadata
  service and one bucket, as a step relation.  A step of a mount is one request through the
  handler of the operation table; a pass of the collector is cut where the code calls its
  store, so that its listing of live objects, each page and each object are steps of their
  own.  The locale \<open>deployment\<close> states what the parts rely on of the services.
\<close>

section \<open>The services\<close>

text \<open>
  The calls that a site offers to its processes, and three observations on its state: the
  replicated metadata, the objects, and when they were stored.
\<close>

record 'w site =
  site_env :: "'w env"
  site_list :: "ListObjectsRequest \<Rightarrow> 'w \<Rightarrow> ListObjectsResult Result"
  site_delete :: "DeleteObjectRequest \<Rightarrow> 'w \<Rightarrow> unit Result \<times> 'w"
  metadata :: "'w \<Rightarrow> MetaState"
  object_bytes :: "'w \<Rightarrow> string \<Rightarrow> string \<Rightarrow> bytes option"
  object_time :: "'w \<Rightarrow> string \<Rightarrow> string \<Rightarrow> i64"
  clock_ms :: "'w \<Rightarrow> i64"

text \<open>The command that a call of the stub asks for, and the calls that only read.\<close>

inductive sends :: "'w stub \<Rightarrow> RaftCommand \<Rightarrow> 'w \<Rightarrow> 'w \<Rightarrow> bool" for c where
  "stub_Mkdir c p n mode uid gid w = (r, w') \<Longrightarrow> sends c (MkdirCommand p n mode uid gid) w w'"
| "stub_CreateFile c p n mode uid gid w = (r, w') \<Longrightarrow> sends c (CreateFileCommand p n mode uid gid) w w'"
| "stub_SetAttr c request w = (r, w') \<Longrightarrow> sends c (SetAttrCommandOf request) w w'"
| "stub_Unlink c p n w = (r, w') \<Longrightarrow> sends c (UnlinkCommand p n) w w'"
| "stub_Rmdir c p n w = (r, w') \<Longrightarrow> sends c (RmdirCommand p n) w w'"
| "stub_Rename c p n np nn w = (r, w') \<Longrightarrow> sends c (RenameCommand p n np nn) w w'"
| "stub_CommitWrite c i base es w = (r, w') \<Longrightarrow> sends c (CommitWriteCommand i base es) w w'"
| "stub_AppendWrite c i base es w = (r', w') \<Longrightarrow> sends c (AppendWriteCommand i base es) w w'"
| "stub_Truncate c i sz w = (r, w') \<Longrightarrow> sends c (TruncateCommand i sz) w w'"

inductive asks :: "'w stub \<Rightarrow> 'w \<Rightarrow> 'w \<Rightarrow> bool" for c where
  "stub_Lookup c p n w = (r, w') \<Longrightarrow> asks c w w'"
| "stub_GetAttr c i w = (r, w') \<Longrightarrow> asks c w w'"
| "stub_ReadDir c i w = (r', w') \<Longrightarrow> asks c w w'"
| "stub_GetLayout c i w = (r'', w') \<Longrightarrow> asks c w w'"
| "stub_ListLiveObjects c w = (r''', w') \<Longrightarrow> asks c w w'"

text \<open>
  A call that asks for a command has it applied once or not at all before it ends, whatever
  its status; no call of one service touches the state of the other.  A write that is
  acknowledged was stored then, by a clock that does not run backwards; another may have
  written its own key or nothing.  A delete makes no object.  Listings name stored objects.
\<close>

locale deployment =
  object_store "store_get (site_env S)" "store_put (site_env S)" "site_delete S" "object_bytes S" +
  object_lister "site_list S" "site_delete S" "object_bytes S" "object_time S"
  for S :: "'w site" +
  assumes command_sent: "sends (meta_client (site_env S)) c w w' \<Longrightarrow>
        (metadata S w' = metadata S w \<or> (\<exists>clk. metadata S w' = snd (apply_command c clk (metadata S w)))) \<and>
        object_bytes S w' = object_bytes S w \<and> object_time S w' = object_time S w \<and>
        sint (clock_ms S w) \<le> sint (clock_ms S w')"
    and query_sent: "asks (meta_client (site_env S)) w w' \<Longrightarrow>
        metadata S w' = metadata S w \<and> object_bytes S w' = object_bytes S w \<and>
        object_time S w' = object_time S w \<and> sint (clock_ms S w) \<le> sint (clock_ms S w')"
    and live_listed: "stub_ListLiveObjects (meta_client (site_env S)) w = ((st, ls), w') \<Longrightarrow>
        status_ok st \<Longrightarrow> ls = ListLiveObjects (metadata S w)"
    and put_sent: "store_put (site_env S) req w = (res, w') \<Longrightarrow>
        metadata S w' = metadata S w \<and> sint (clock_ms S w) \<le> sint (clock_ms S w') \<and>
        (\<forall>b k. (b, k) \<noteq> (put_bucket req, put_key req) \<longrightarrow>
           object_bytes S w' b k = object_bytes S w b k \<and> object_time S w' b k = object_time S w b k)"
    and put_dated: "store_put (site_env S) req w = (Inr r, w') \<Longrightarrow>
        sint (clock_ms S w) \<le> sint (object_time S w' (put_bucket req) (put_key req))"
    and delete_sent: "site_delete S dreq w = (res', w') \<Longrightarrow>
        metadata S w' = metadata S w \<and> sint (clock_ms S w) \<le> sint (clock_ms S w') \<and>
        (\<forall>b k. object_bytes S w' b k \<noteq> None \<longrightarrow>
           object_bytes S w' b k = object_bytes S w b k \<and> object_time S w' b k = object_time S w b k)"
    and listed_held: "site_list S lreq w = Inr page \<Longrightarrow> info \<in> set (objects page) \<Longrightarrow>
        object_bytes S w (list_bucket lreq) (info_key info) \<noteq> None"

section \<open>States and steps\<close>

text \<open>
  A pass of the collector between two calls: its configuration, the live objects and the
  cutoff it took at its start, the counters, the token for the next page (none after the last
  one), and the objects that are left of the page it is in.
\<close>

record gc_pass =
  pass_config :: GcServiceConfig
  pass_live :: "string set"
  pass_cutoff :: i64
  pass_counters :: GcCounters
  pass_token :: "string option"
  pass_queue :: "ObjectInfo list"

record 'w system =
  mounts :: "nat \<Rightarrow> FuseServer option"
  writers :: "string set"
  passes :: "nat \<Rightarrow> gc_pass option"
  world :: 'w

definition pending_of :: "FuseServer \<Rightarrow> FileExtent set" where
  "pending_of srv = {e. \<exists>k h. handles srv k = Some h \<and>
     e \<in> set (pending_extents h) \<union> set (pending_append_extents h)}"

definition all_pending :: "'w system \<Rightarrow> FileExtent set" where
  "all_pending D = {e. \<exists>i srv. mounts D i = Some srv \<and> e \<in> pending_of srv}"

text \<open>
  Requests the operating system makes: writes are not empty and end below the top of the
  64-bit range, an append to a file is not committed past it, and the 64-bit counters of
  handles, objects and inodes are not used up.
\<close>

definition room_for :: "u64 \<Rightarrow> nat \<Rightarrow> bool" where
  "room_for start n \<longleftrightarrow> unat start + n < 2 ^ 64"

lemma room_for_code [code]:
  "room_for start 0 = True"
  "room_for start (Suc n) \<longleftrightarrow> start \<noteq> -1 \<and> room_for (start + 1) n"
proof -
  show "room_for start 0 = True"
    using unsigned_less [of start] by (simp add: room_for_def)
  have top: "unat (- 1 :: u64) = 2 ^ 64 - 1"
    by (simp add: unsigned_minus_1_eq_mask mask_eq_exp_minus_1)
  show "room_for start (Suc n) \<longleftrightarrow> start \<noteq> -1 \<and> room_for (start + 1) n"
  proof (cases "start = -1")
    case True
    then show ?thesis
      using top by (simp add: room_for_def)
  next
    case False
    then have "unat (start + 1) = unat start + 1"
      using word_less_add_one [of start] by (simp add: unat_add_no_wrap less_imp_le)
    with False show ?thesis
      by (simp add: room_for_def)
  qed
qed

definition adds_up :: "u64 \<Rightarrow> u64 \<Rightarrow> bool" where
  "adds_up a b \<longleftrightarrow> unat a + unat b < 2 ^ 64"

lemma adds_up_code [code]: "adds_up a b \<longleftrightarrow> a \<le> a + b"
  using no_wrap_iff_le [of a b] by (simp add: adds_up_def)

definition commit_fits :: "u64 \<Rightarrow> FuseServer \<Rightarrow> MetaState \<Rightarrow> bool" where
  "commit_fits k srv s = (case GetFileHandle k srv of None \<Rightarrow> True
     | Some h \<Rightarrow> adds_up (file_size s (h_inode_id h)) (pending_append_length h))"

fun data_fits :: "request \<Rightarrow> FuseServer \<Rightarrow> MetaState \<Rightarrow> bool" where
  "data_fits (FuseWrite ino buf off fi) srv s = (buf \<noteq> [] \<and>
     (case GetFileHandle (fh fi) srv of None \<Rightarrow> True
      | Some h \<Rightarrow> room_for (if append_mode h then pending_append_length h else off) (length buf)))"
| "data_fits (FuseFlush ino fi) srv s = commit_fits (fh fi) srv s"
| "data_fits (FuseFsync ino datasync fi) srv s = commit_fits (fh fi) srv s"
| "data_fits (FuseRelease ino fi) srv s = commit_fits (fh fi) srv s"
| "data_fits (FuseReleaseDir ino fi) srv s = commit_fits (fh fi) srv s"
| "data_fits _ srv s = True"

definition usual :: "request \<Rightarrow> FuseServer \<Rightarrow> MetaState \<Rightarrow> bool" where
  "usual r srv s \<longleftrightarrow> has_room s \<and> ids_left srv \<and>
     next_sequence (object_key_generator srv) \<noteq> -1 \<and> data_fits r srv s"

text \<open>
  The steps, with a label.  A mount takes a writer id that no mount has used.  A pass
  starts with a grace period that lies before its clock and after which no write is still
  uncommitted; it may end, or fail, at any time.
\<close>

datatype event =
    MountUp nat FuseServerConfig string
  | MountDown nat
  | Request nat request reply
  | PassBegin nat GcServiceConfig
  | PassRefused nat
  | PassPage nat
  | PassObject nat
  | PassEnd nat

inductive system_step :: "'w site \<Rightarrow> string \<Rightarrow> event \<Rightarrow> 'w system \<Rightarrow> 'w system \<Rightarrow> bool" for S bucket where
  mount_up: "mounts D i = None \<Longrightarrow> wid \<notin> writers D \<Longrightarrow> CHR ''/'' \<notin> set wid \<Longrightarrow> fs_bucket cfg = bucket \<Longrightarrow>
    system_step S bucket (MountUp i cfg wid) D
      (D\<lparr>mounts := (mounts D)(i \<mapsto> FuseServer_init cfg wid), writers := insert wid (writers D)\<rparr>)"
| mount_down: "system_step S bucket (MountDown i) D (D\<lparr>mounts := (mounts D)(i := None)\<rparr>)"
| request: "mounts D i = Some srv \<Longrightarrow> usual r srv (metadata S (world D)) \<Longrightarrow>
    serve (site_env S) r srv (world D) = (rep, srv', w') \<Longrightarrow>
    system_step S bucket (Request i r rep) D (D\<lparr>mounts := (mounts D)(i \<mapsto> srv'), world := w'\<rparr>)"
| pass_begin: "gc_bucket cfg = bucket \<Longrightarrow>
    Client_ListLiveObjects (meta_client (site_env S)) (world D) = (Inr ls, w') \<Longrightarrow>
    cutoff = cutoff_ms (clock_ms S w') (grace_seconds cfg) \<Longrightarrow> sint cutoff < sint (clock_ms S w') \<Longrightarrow>
    \<forall>e\<in>all_pending D. sint cutoff < sint (object_time S (world D) bucket (object_key e)) \<Longrightarrow>
    system_step S bucket (PassBegin n cfg) D
      (D\<lparr>passes := (passes D)(n \<mapsto> \<lparr>pass_config = cfg, pass_live = set ls, pass_cutoff = cutoff,
           pass_counters = GcCounters_init, pass_token = Some [], pass_queue = []\<rparr>), world := w'\<rparr>)"
| pass_refused: "Client_ListLiveObjects (meta_client (site_env S)) (world D) = (Inl e, w') \<Longrightarrow>
    system_step S bucket (PassRefused n) D (D\<lparr>world := w'\<rparr>)"
| pass_page: "passes D n = Some c \<Longrightarrow> pass_queue c = [] \<Longrightarrow> pass_token c = Some token \<Longrightarrow>
    site_list S \<lparr>list_bucket = gc_bucket (pass_config c),
      list_prefix = ChunkPrefix (object_prefix (pass_config c)), continuation_token = token\<rparr>
      (world D) = Inr page \<Longrightarrow>
    system_step S bucket (PassPage n) D (D\<lparr>passes := (passes D)(n \<mapsto>
      c\<lparr>pass_token := (if next_continuation_token page = [] then None
        else Some (next_continuation_token page)), pass_queue := objects page\<rparr>)\<rparr>)"
| pass_object: "passes D n = Some c \<Longrightarrow> pass_queue c = obj # rest \<Longrightarrow>
    gc_object (site_delete S) (gc_bucket (pass_config c)) (dry_run (pass_config c)) (pass_live c)
      (pass_cutoff c) obj (pass_counters c, world D) = (counters, w') \<Longrightarrow>
    system_step S bucket (PassObject n) D (D\<lparr>passes := (passes D)(n \<mapsto>
      c\<lparr>pass_counters := counters, pass_queue := rest\<rparr>), world := w'\<rparr>)"
| pass_end: "system_step S bucket (PassEnd n) D (D\<lparr>passes := (passes D)(n := None)\<rparr>)"

text \<open>A run is the list of its events; the system starts with no process and an empty bucket.\<close>

inductive system_run :: "'w site \<Rightarrow> string \<Rightarrow> event list \<Rightarrow> 'w system \<Rightarrow> 'w system \<Rightarrow> bool" for S bucket where
  ended: "system_run S bucket [] D D"
| more: "system_step S bucket ev D D1 \<Longrightarrow> system_run S bucket evs D1 D2 \<Longrightarrow>
    system_run S bucket (ev # evs) D D2"

definition fresh_system :: "'w site \<Rightarrow> string \<Rightarrow> 'w system \<Rightarrow> bool" where
  "fresh_system S bucket D \<longleftrightarrow> mounts D = Map.empty \<and> passes D = Map.empty \<and> writers D = {} \<and>
     (\<exists>chunk now. metadata S (world D) = MetaState_init chunk now) \<and>
     (\<forall>k. object_bytes S (world D) bucket k = None)"

inductive system_reachable :: "'w site \<Rightarrow> string \<Rightarrow> 'w system \<Rightarrow> bool" for S bucket where
  start: "fresh_system S bucket D \<Longrightarrow> system_reachable S bucket D"
| step: "system_reachable S bucket D \<Longrightarrow> system_step S bucket ev D D' \<Longrightarrow> system_reachable S bucket D'"

inductive_cases system_runE: "system_run S bucket (ev # evs) D D'"
inductive_cases system_run_endedE: "system_run S bucket [] D D'"

lemma run_reachable:
  "system_run S bucket evs D D' \<Longrightarrow> system_reachable S bucket D \<Longrightarrow> system_reachable S bucket D'"
  by (induction rule: system_run.induct) (auto intro: system_reachable.step)

lemma system_run_append:
  "system_run S bucket (evs @ fs) D D' \<longleftrightarrow>
     (\<exists>D1. system_run S bucket evs D D1 \<and> system_run S bucket fs D1 D')"
proof (induction evs arbitrary: D)
  case Nil
  then show ?case
    by (auto intro: system_run.ended elim: system_run_endedE)
next
  case (Cons ev evs)
  then show ?case
    by (simp, blast intro: system_run.more elim: system_runE)
qed

end
