(* ===== verification/Deployment_Calls.thy ===== *)
theory Deployment_Calls
  imports Deployment
begin

text \<open>
  What a request does to the services: a write stores one object under a new name, any other
  request sends the metadata commands that belong to it and leaves the objects alone.
\<close>

section \<open>Calls of the client\<close>

inductive served :: "'w stub \<Rightarrow> RaftCommand list \<Rightarrow> 'w \<Rightarrow> 'w \<Rightarrow> bool" for c where
  none: "served c [] w w"
| query: "asks c w w1 \<Longrightarrow> served c cs w1 w2 \<Longrightarrow> served c cs w w2"
| command: "sends c x w w1 \<Longrightarrow> served c cs w1 w2 \<Longrightarrow> served c (x # cs) w w2"

lemma Client_sends:
  "Client_Mkdir c p n mode uid gid w = (res, w') \<Longrightarrow> sends c (MkdirCommand p n mode uid gid) w w'"
  "Client_CreateFile c p n mode uid gid w = (res, w') \<Longrightarrow> sends c (CreateFileCommand p n mode uid gid) w w'"
  "Client_SetAttr c request w = (res, w') \<Longrightarrow> sends c (SetAttrCommandOf request) w w'"
  "Client_Unlink c p n w = (ures, w') \<Longrightarrow> sends c (UnlinkCommand p n) w w'"
  "Client_Rmdir c p n w = (ures, w') \<Longrightarrow> sends c (RmdirCommand p n) w w'"
  "Client_Rename c p n np nn w = (ures, w') \<Longrightarrow> sends c (RenameCommand p n np nn) w w'"
  "Client_CommitWrite c i base es w = (res, w') \<Longrightarrow> sends c (CommitWriteCommand i base es) w w'"
  "Client_AppendWrite c i base es w = (ares, w') \<Longrightarrow> sends c (AppendWriteCommand i base es) w w'"
  "Client_Truncate c i sz w = (res, w') \<Longrightarrow> sends c (TruncateCommand i sz) w w'"
  by (auto simp: Client_Mkdir_def Client_CreateFile_def Client_SetAttr_def Client_Unlink_def Client_Rmdir_def
      Client_Rename_def Client_CommitWrite_def Client_AppendWrite_def Client_Truncate_def finish_def
      intro: sends.intros split: prod.splits)

lemma Client_asks:
  "Client_Lookup c p n w = (res, w') \<Longrightarrow> asks c w w'"
  "Client_GetAttr c i w = (res, w') \<Longrightarrow> asks c w w'"
  "Client_ReadDir c i w = (dres, w') \<Longrightarrow> asks c w w'"
  "Client_GetLayout c i w = (lres, w') \<Longrightarrow> asks c w w'"
  "Client_ListLiveObjects c w = (ores, w') \<Longrightarrow> asks c w w'"
  by (auto simp: Client_Lookup_def Client_GetAttr_def Client_ReadDir_def Client_GetLayout_def
      Client_ListLiveObjects_def finish_def intro: asks.intros split: prod.splits)

lemma served_one: "sends c x w w' \<Longrightarrow> served c [x] w w'" "asks c w w' \<Longrightarrow> served c [] w w'"
  by (auto intro: served.intros)

lemma served_trans: "served c xs w w1 \<Longrightarrow> served c ys w1 w2 \<Longrightarrow> served c (xs @ ys) w w2"
  by (induction rule: served.induct) (auto intro: served.intros)

lemma refresh_served: "refresh_layout env h w = (h', w') \<Longrightarrow> served (meta_client env) [] w w'"
  by (auto simp: refresh_layout_def intro: served_one Client_asks split: prod.splits sum.splits)

section \<open>The commands of a request\<close>

text \<open>Committing a handle sends at most one command, with what was pending.\<close>

definition commit_commands :: "FuseFileHandle \<Rightarrow> RaftCommand set" where
  "commit_commands h = {c. \<exists>base. c = CommitWriteCommand (h_inode_id h) base (pending_extents h) \<or>
     c = AppendWriteCommand (h_inode_id h) base (pending_append_extents h)}"

definition keeps_pending :: "FuseFileHandle \<Rightarrow> FuseFileHandle \<Rightarrow> bool" where
  "keeps_pending h h' \<longleftrightarrow> set (pending_extents h') \<subseteq> set (pending_extents h) \<and>
     set (pending_append_extents h') \<subseteq> set (pending_append_extents h)"

lemma refresh_same:
  "refresh_layout env h w = (h', w') \<Longrightarrow> pending_extents h' = pending_extents h \<and>
     pending_append_extents h' = pending_append_extents h"
  using refresh_keeps(2,3) [of env h w] by simp

lemma commit_pending_served:
  assumes "commit_pending env h w = (res, h', w')"
  shows "(pending_extents h = [] \<and> h' = h \<and> w' = w \<or>
      (\<exists>c\<in>commit_commands h. served (meta_client env) [c] w w')) \<and> keeps_pending h h' \<and>
    pending_append_extents h' = pending_append_extents h"
proof (cases "pending_extents h = []")
  case False
  obtain r w1 where c: "Client_CommitWrite (meta_client env) (h_inode_id h)
      (version (l_attrs (layout h))) (pending_extents h) w = (r, w1)"
    by fastforce
  let ?h = "h\<lparr>pending_extents := []\<rparr>"
  have "served (meta_client env) [] w1 w'" and "keeps_pending h h'"
    and "pending_append_extents h' = pending_append_extents h"
    using assms False c refresh_served [of env ?h w1 h' w'] refresh_same [of env ?h w1 h' w']
    by (auto simp: commit_pending_def keeps_pending_def intro: served.none split: sum.splits)
  moreover have "CommitWriteCommand (h_inode_id h) (version (l_attrs (layout h))) (pending_extents h)
      \<in> commit_commands h"
    by (auto simp: commit_commands_def)
  ultimately show ?thesis
    using served.command [OF Client_sends(7) [OF c]] by blast
qed (use assms in \<open>simp add: commit_pending_def keeps_pending_def\<close>)

lemma commit_appends_served:
  assumes "commit_appends env h w = (res, h', w')"
  shows "(pending_append_extents h = [] \<and> h' = h \<and> w' = w \<or>
      (\<exists>c\<in>commit_commands h. served (meta_client env) [c] w w')) \<and> keeps_pending h h'"
proof (cases "pending_append_extents h = []")
  case False
  obtain r w1 where c: "Client_AppendWrite (meta_client env) (h_inode_id h)
      (version (l_attrs (layout h))) (pending_append_extents h) w = (r, w1)"
    by fastforce
  let ?h = "h\<lparr>pending_append_extents := [], pending_append_length := 0\<rparr>"
  have "served (meta_client env) [] w1 w'" and "keeps_pending h h'"
    using assms False c refresh_served [of env ?h w1 h' w'] refresh_same [of env ?h w1 h' w']
    by (auto simp: commit_appends_def keeps_pending_def intro: served.none split: sum.splits)
  moreover have "AppendWriteCommand (h_inode_id h) (version (l_attrs (layout h))) (pending_append_extents h)
      \<in> commit_commands h"
    by (auto simp: commit_commands_def)
  ultimately show ?thesis
    using served.command [OF Client_sends(8) [OF c]] by blast
qed (use assms in \<open>simp add: commit_appends_def keeps_pending_def\<close>)

lemma CommitHandle_served:
  assumes "CommitHandle env h w = (res, h', w')" and "handle_ok h"
  shows "(\<exists>cs. served (meta_client env) cs w w' \<and> (cs = [] \<or> (\<exists>c\<in>commit_commands h. cs = [c]))) \<and>
    keeps_pending h h'"
proof -
  obtain r1 h1 w1 where p: "commit_pending env h w = (r1, h1, w1)"
    by (metis prod_cases3)
  note first_part = commit_pending_served [OF p]
  show ?thesis
  proof (cases "pending_append_extents h = []")
    case True
    then have "h' = h1 \<and> w' = w1"
      using assms(1) p first_part by (auto simp: CommitHandle_def commit_appends_def split: sum.splits)
    then show ?thesis
      using first_part by (auto intro: served.none)
  next
    case False
    then have "pending_extents h = []"
      using assms(2) by (auto simp: handle_ok_def split: if_splits)
    then have "commit_appends env h w = (res, h', w')"
      using assms(1) by (simp add: CommitHandle_def commit_pending_def)
    from commit_appends_served [OF this] show ?thesis
      by (auto intro: served.none)
  qed
qed

text \<open>What a request other than a write may send: the first command makes an inode or
  commits the handle it names, the others carry no data.\<close>

definition issues :: "request \<Rightarrow> FuseServer \<Rightarrow> RaftCommand list \<Rightarrow> bool" where
  "issues r srv cs \<longleftrightarrow> (\<forall>c\<in>set (tl cs). plain_command c) \<and> (\<forall>c\<in>set cs. plain_command c \<or> makes_inode c \<or>
     (\<exists>k h. request_fh r = Some k \<and> handles srv k = Some h \<and> c \<in> commit_commands h))"

lemma issues_simps [simp]: "issues r srv []" "issues r srv [c] \<longleftrightarrow> plain_command c \<or> makes_inode c \<or>
     (\<exists>k h. request_fh r = Some k \<and> handles srv k = Some h \<and> c \<in> commit_commands h)"
  by (simp_all add: issues_def)

lemma issues_plain: "\<forall>c\<in>set cs. plain_command c \<Longrightarrow> issues r srv cs"
  by (cases cs) (auto simp: issues_def)

text \<open>A server whose pending writes are among those of another, with the same settings.\<close>

definition no_new_data :: "FuseServer \<Rightarrow> FuseServer \<Rightarrow> bool" where
  "no_new_data srv srv' \<longleftrightarrow> pending_of srv' \<subseteq> pending_of srv \<and>
     object_key_generator srv' = object_key_generator srv \<and> fs_config srv' = fs_config srv"

lemma no_new_data_refl [simp]: "no_new_data srv srv"
  by (simp add: no_new_data_def)

lemma no_new_data_Remember [simp]:
  "no_new_data srv (RememberParent i p srv') = no_new_data srv srv'"
  by (simp add: no_new_data_def RememberParent_def pending_of_def)

lemma no_new_data_fold [simp]:
  "no_new_data srv (fold (\<lambda>e. RememberParent (f e) i) es srv') = no_new_data srv srv'"
  by (induction es arbitrary: srv') simp_all

lemma no_new_data_handle:
  assumes "handles srv k = Some h" and "keeps_pending h h'"
  shows "no_new_data srv (srv\<lparr>handles := (handles srv)(k \<mapsto> h')\<rparr>)"
proof -
  have "e \<in> pending_of srv" if "e \<in> pending_of (srv\<lparr>handles := (handles srv)(k \<mapsto> h')\<rparr>)" for e
    using that assms unfolding pending_of_def keeps_pending_def by (auto split: if_splits)
  then show ?thesis
    by (auto simp: no_new_data_def)
qed

lemma no_new_data_release: "no_new_data srv srv' \<Longrightarrow> no_new_data srv (ReleaseFileHandle k srv')"
proof -
  have "pending_of (ReleaseFileHandle k srv') \<subseteq> pending_of srv'"
    by (auto simp: pending_of_def ReleaseFileHandle_def split: if_splits)
  then show "no_new_data srv srv' \<Longrightarrow> no_new_data srv (ReleaseFileHandle k srv')"
    by (auto simp: no_new_data_def ReleaseFileHandle_def)
qed

lemma no_new_data_allocate:
  assumes "no_new_data srv srv1" and "pending_extents h = []" and "pending_append_extents h = []"
  shows "no_new_data srv (snd (AllocateFileHandle h srv1))"
proof -
  have "pending_of (snd (AllocateFileHandle h srv1)) \<subseteq> pending_of srv1"
    using assms(2,3) by (auto simp: pending_of_def AllocateFileHandle_def Let_def split: if_splits)
  then show ?thesis
    using assms(1) by (auto simp: no_new_data_def AllocateFileHandle_def Let_def)
qed

section \<open>Every request but a write\<close>

definition moves :: "'w env \<Rightarrow> request \<Rightarrow> FuseServer \<Rightarrow> 'w \<Rightarrow> FuseServer \<Rightarrow> 'w \<Rightarrow> bool" where
  "moves env r srv w srv' w' \<longleftrightarrow>
     (\<exists>cs. served (meta_client env) cs w w' \<and> issues r srv cs \<and> no_new_data srv srv')"

lemma movesI: "served (meta_client env) cs w w' \<Longrightarrow> issues r srv cs \<Longrightarrow> no_new_data srv srv' \<Longrightarrow> moves env r srv w srv' w'"
  by (auto simp: moves_def)

lemma moves_sends: "sends (meta_client env) c w w' \<Longrightarrow> plain_command c \<or> makes_inode c \<Longrightarrow>
    no_new_data srv srv' \<Longrightarrow> moves env r srv w srv' w'"
  by (rule movesI [OF served_one(1)]) auto

lemma moves_asks: "asks (meta_client env) w w' \<Longrightarrow> no_new_data srv srv' \<Longrightarrow> moves env r srv w srv' w'"
  by (rule movesI [OF served_one(2)]) auto

lemma idle_moves: "moves env r srv w srv w"
  by (rule movesI [OF served.none]) simp_all

lemma lookup_moves:
  "PulpfsLookup env p n srv w = (rep, srv', w') \<Longrightarrow> moves env r srv w srv' w'"
  "PulpfsGetAttr env ino srv w = (rep, srv', w') \<Longrightarrow> moves env r srv w srv' w'"
  "PulpfsOpenDir env ino fi srv w = (rep, srv', w') \<Longrightarrow> moves env r srv w srv' w'"
  by (auto simp: PulpfsLookup_def PulpfsGetAttr_def PulpfsOpenDir_def dest!: Client_asks elim!: moves_asks
      split: prod.splits sum.splits if_splits)

lemma change_moves:
  "PulpfsMkdir env ctx p n mode srv w = (rep, srv', w') \<Longrightarrow> moves env r srv w srv' w'"
  "PulpfsUnlink env p n srv w = (rep, srv', w') \<Longrightarrow> moves env r srv w srv' w'"
  "PulpfsRmdir env p n srv w = (rep, srv', w') \<Longrightarrow> moves env r srv w srv' w'"
  by (auto simp: PulpfsMkdir_def PulpfsUnlink_def PulpfsRmdir_def dest!: Client_sends elim!: moves_sends
      split: prod.splits sum.splits)

lemma rename_moves: "PulpfsRename env p n np nn flags srv w = (rep, srv', w') \<Longrightarrow> moves env r srv w srv' w'"
  by (auto simp: PulpfsRename_def intro!: idle_moves dest!: Client_sends elim!: moves_sends
      split: prod.splits if_splits)

lemma setattr_moves:
  assumes "PulpfsSetAttr env ino attr to_set srv w = (rep, srv', w')"
  shows "moves env r srv w srv' w'"
proof (cases "and to_set (not supported_set_attr) = 0")
  case True
  obtain r1 w1 where 1: "Client_GetAttr (meta_client env) ino w = (r1, w1)"
    by fastforce
  obtain r2 w2 where 2: "(if and to_set FUSE_SET_ATTR_SIZE \<noteq> 0
      then Client_Truncate (meta_client env) ino (st_size attr) w1 else (r1, w1)) = (r2, w2)"
    by fastforce
  obtain r3 w3 where 3: "(if \<not> isl r2 \<and> and to_set (not FUSE_SET_ATTR_SIZE) \<noteq> 0
      then Client_SetAttr (meta_client env) (setattr_request ino attr to_set) w2 else (r2, w2)) = (r3, w3)"
    by fastforce
  have "srv' = srv" "w' = w3"
    using assms True 1 2 3 by (auto simp: PulpfsSetAttr_def split: sum.splits)
  moreover obtain xs where "served (meta_client env) xs w1 w2" "\<forall>c\<in>set xs. plain_command c"
  proof (cases "and to_set FUSE_SET_ATTR_SIZE = 0")
    case False
    then have "sends (meta_client env) (TruncateCommand ino (st_size attr)) w1 w2"
      using 2 by (auto dest: Client_sends)
    from served_one(1) [OF this] show thesis
      using that by simp
  next
    case True
    then have "w2 = w1"
      using 2 by simp
    then show thesis
      by (intro that [of "[]"]) (simp_all add: served.none)
  qed
  moreover obtain ys where "served (meta_client env) ys w2 w3" "\<forall>c\<in>set ys. plain_command c"
  proof (cases "\<not> isl r2 \<and> and to_set (not FUSE_SET_ATTR_SIZE) \<noteq> 0")
    case True
    then have "sends (meta_client env) (SetAttrCommandOf (setattr_request ino attr to_set)) w2 w3"
      using 3 by (auto dest: Client_sends)
    from served_one(1) [OF this] show thesis
      using that by simp
  next
    case False
    then have "w3 = w2"
      using 3 by auto
    then show thesis
      by (intro that [of "[]"]) (simp_all add: served.none)
  qed
  ultimately show ?thesis
    using served.query [OF Client_asks(2) [OF 1] served_trans [of "meta_client env" xs w1 w2 ys w3]]
    by (intro movesI [of env "xs @ ys"] issues_plain) auto
qed (use assms in \<open>auto simp: PulpfsSetAttr_def intro: idle_moves\<close>)

lemma readdir_moves:
  assumes "PulpfsReadDir env ino sz off srv w = (rep, srv', w')"
  shows "moves env r srv w srv' w'"
proof -
  obtain r1 w1 where 1: "Client_GetAttr (meta_client env) ino w = (r1, w1)"
    by fastforce
  obtain r2 w2 where 2: "Client_ReadDir (meta_client env) ino w1 = (r2, w2)"
    by fastforce
  obtain r3 w3 where 3: "Client_GetAttr (meta_client env) (fs_ParentOf ino srv) w2 = (r3, w3)"
    by fastforce
  note ask = served_one(2) [OF Client_asks(2) [OF 1]]
  note ask2 = served_trans [OF ask served_one(2) [OF Client_asks(3) [OF 2]]]
  note ask3 = served_trans [OF ask2 served_one(2) [OF Client_asks(2) [OF 3]]]
  have "w' \<in> {w1, w2, w3} \<and> no_new_data srv srv'"
    using assms 1 2 3 by (auto simp: PulpfsReadDir_def Let_def split: sum.splits if_splits)
  with ask ask2 ask3 have "served (meta_client env) [] w w' \<and> no_new_data srv srv'"
    by auto
  then show ?thesis
    by (intro movesI [of env "[]"]) simp_all
qed

lemma read_moves: "PulpfsRead env ino sz off fi srv w = (rep, srv', w') \<Longrightarrow> srv' = srv \<and> w' = w"
  by (auto simp: PulpfsRead_def split: option.splits if_splits sum.splits)

lemma new_handle_pending: "pending_extents ((new_handle i flags)\<lparr>layout := l\<rparr>) = []"
  "pending_append_extents ((new_handle i flags)\<lparr>layout := l\<rparr>) = []"
  "pending_extents (new_handle i flags) = []" "pending_append_extents (new_handle i flags) = []"
  by (simp_all add: new_handle_def FuseFileHandle_init_def)

lemma create_moves:
  assumes "PulpfsCreate env ctx p n mode fi srv w = (rep, srv', w')"
  shows "moves env r srv w srv' w'"
proof -
  let ?c = "CreateFileCommand p n (and mode kModeMask) (RequestUid ctx) (RequestGid ctx)"
  obtain r1 w1 where 1: "Client_CreateFile (meta_client env) p n (and mode kModeMask) (RequestUid ctx)
      (RequestGid ctx) w = (r1, w1)"
    by fastforce
  have "served (meta_client env) [] w1 w' \<and> no_new_data srv srv'"
  proof (cases r1)
    case (Inl e)
    then show ?thesis
      using assms 1 by (auto simp: PulpfsCreate_def intro: served.none)
  next
    case (Inr a)
    obtain lr w2 where 2: "Client_GetLayout (meta_client env) (inode_id a) w1 = (lr, w2)"
      by fastforce
    let ?h = "case lr of Inl _ \<Rightarrow> new_handle (inode_id a) (fi_flags fi)
      | Inr l \<Rightarrow> (new_handle (inode_id a) (fi_flags fi))\<lparr>layout := l\<rparr>"
    have "w' = w2" "srv' = snd (AllocateFileHandle ?h (RememberParent (inode_id a) p srv))"
      using assms 1 2 Inr by (auto simp: PulpfsCreate_def Let_def split: prod.splits)
    then show ?thesis
      using served_one(2) [OF Client_asks(4) [OF 2]]
      by (auto intro!: no_new_data_allocate simp: new_handle_pending split: sum.split)
  qed
  then show ?thesis
    using served.command [OF Client_sends(2) [OF 1]] by (intro movesI [of env "[?c]"]) auto
qed

lemma open_moves:
  assumes "PulpfsOpen env ino fi srv w = (rep, srv', w')"
  shows "moves env r srv w srv' w'"
proof -
  obtain lr w1 where 1: "Client_GetLayout (meta_client env) ino w = (lr, w1)"
    by fastforce
  note ask = served.query [OF Client_asks(4) [OF 1]]
  show ?thesis
  proof (cases "\<exists>l. lr = Inr l \<and> a_type (l_attrs l) = INODE_TYPE_FILE")
    case False
    then have "srv' = srv \<and> w' = w1"
      using assms 1 by (auto simp: PulpfsOpen_def split: sum.splits if_splits)
    then show ?thesis
      using ask [OF served.none] by (intro movesI [of env "[]"]) simp_all
  next
    case True
    then obtain l where l: "lr = Inr l" "a_type (l_attrs l) = INODE_TYPE_FILE"
      by blast
    obtain lr2 w2 where 2: "(if IsWritable (fi_flags fi) \<and> and (fi_flags fi) O_TRUNC \<noteq> 0
        then (case Client_Truncate (meta_client env) ino 0 w1 of (Inl e, w) \<Rightarrow> (Inl e, w)
              | (Inr _, w) \<Rightarrow> Client_GetLayout (meta_client env) ino w)
        else (Inr l, w1)) = (lr2, w2)"
      by fastforce
    obtain cs where cs: "served (meta_client env) cs w1 w2" "\<forall>c\<in>set cs. plain_command c"
    proof (cases "IsWritable (fi_flags fi) \<and> and (fi_flags fi) O_TRUNC \<noteq> 0")
      case True
      obtain tr wt where t: "Client_Truncate (meta_client env) ino 0 w1 = (tr, wt)"
        by fastforce
      have "served (meta_client env) [] wt w2"
        using 2 True t by (cases tr) (auto intro: served.none served_one Client_asks(4))
      then show thesis
        using that [of "[TruncateCommand ino 0]"] served.command [OF Client_sends(9) [OF t]] by simp
    next
      case False
      then have "w2 = w1"
        using 2 by auto
      then show thesis
        by (intro that [of "[]"]) (simp_all add: served.none)
    qed
    have "w' = w2 \<and> (srv' = srv \<or> (\<exists>l. srv' = snd (AllocateFileHandle ((new_handle ino (fi_flags fi))\<lparr>layout := l\<rparr>) srv)))"
    proof (cases lr2)
      case (Inr l2)
      obtain k srv1 where "AllocateFileHandle ((new_handle ino (fi_flags fi))\<lparr>layout := l2\<rparr>) srv = (k, srv1)"
        by fastforce
      with assms 2 show ?thesis
        by (intro conjI disjI2 exI [of _ l2]) (simp_all add: PulpfsOpen_def 1 l Inr)
    qed (use assms 2 in \<open>simp add: PulpfsOpen_def 1 l\<close>)
    then show ?thesis
      using ask [OF cs(1)] cs(2)
      by (intro movesI [of env cs] issues_plain) (auto intro!: no_new_data_allocate simp: new_handle_pending)
  qed
qed

lemma commit_moves:
  assumes "commit_fh env k srv w = (res, srv', w')" and "table_ok srv" and "request_fh r = Some k"
  shows "moves env r srv w srv' w'"
proof (cases "handles srv k")
  case None
  then show ?thesis
    using assms(1) idle_moves by (auto simp: commit_fh_def GetFileHandle_def)
next
  case (Some h)
  obtain h' where c: "CommitHandle env h w = (res, h', w')" "srv' = srv\<lparr>handles := (handles srv)(k \<mapsto> h')\<rparr>"
    using assms(1) Some by (auto simp: commit_fh_def GetFileHandle_def split: prod.splits)
  have "handle_ok h"
    using assms(2) Some by (auto simp: table_ok_def)
  from CommitHandle_served [OF c(1) this] obtain cs where "served (meta_client env) cs w w'"
    "cs = [] \<or> (\<exists>c\<in>commit_commands h. cs = [c])" "keeps_pending h h'"
    by blast
  then show ?thesis
    using Some assms(3) no_new_data_handle [of srv k h h']
    unfolding c(2) by (intro movesI [of env cs]) auto
qed

lemma release_moves:
  assumes "PulpfsRelease env ino fi srv w = (rep, srv', w')" and "table_ok srv" and "request_fh r = Some (fh fi)"
  shows "moves env r srv w srv' w'"
proof -
  obtain res srv1 where c: "commit_fh env (fh fi) srv w = (res, srv1, w')" "srv' = ReleaseFileHandle (fh fi) srv1"
    using assms(1) by (auto simp: PulpfsRelease_def split: prod.splits)
  from commit_moves [OF c(1) assms(2,3)] no_new_data_release show ?thesis
    unfolding c(2) moves_def by blast
qed

definition is_write :: "request \<Rightarrow> bool" where
  "is_write r \<longleftrightarrow> (case r of FuseWrite _ _ _ _ \<Rightarrow> True | _ \<Rightarrow> False)"

lemma serve_moves:
  assumes "serve env r srv w = (rep, srv', w')" and "table_ok srv" and "\<not> is_write r"
  shows "moves env r srv w srv' w'"
proof (cases r)
  case (FuseFlush ino fi)
  then obtain res where "commit_fh env (fh fi) srv w = (res, srv', w')"
    using assms(1) by (auto simp: PulpfsFlush_def split: prod.splits)
  from commit_moves [OF this assms(2)] show ?thesis
    by (simp add: FuseFlush)
next
  case (FuseFsync ino datasync fi)
  then obtain res where "commit_fh env (fh fi) srv w = (res, srv', w')"
    using assms(1) by (auto simp: PulpfsFsync_def split: prod.splits)
  from commit_moves [OF this assms(2)] show ?thesis
    by (simp add: FuseFsync)
next
  case (FuseRelease ino fi)
  then show ?thesis
    using assms(1) by (intro release_moves [OF _ assms(2), where fi = fi and ino = ino]) simp_all
next
  case (FuseReleaseDir ino fi)
  then show ?thesis
    using assms(1) by (intro release_moves [OF _ assms(2), where fi = fi and ino = ino]) simp_all
next
  case (FuseRead ino sz off fi)
  with assms(1) read_moves [of env ino sz off fi srv w rep srv' w'] idle_moves show ?thesis
    by auto
qed (use assms in \<open>auto simp: is_write_def PulpfsForget_def PulpfsStatFs_def
    intro: idle_moves lookup_moves change_moves rename_moves setattr_moves readdir_moves create_moves open_moves\<close>)

section \<open>A write\<close>

text \<open>A write does nothing, or stores its bytes under the next name, which is used up even if
  the store fails; only when it succeeds is there a new pending extent.\<close>

lemma write_moves:
  assumes "PulpfsWrite env ino buf off fi srv w = (rep, srv', w')"
  obtains (nothing) "srv' = srv" "w' = w"
    | (put) off' res where
      "store_put env \<lparr>put_bucket = fs_bucket (fs_config srv),
         put_key = fst (MakeObjectKey (fs_object_prefix (fs_config srv)) ino off' (object_key_generator srv)),
         put_body = buf, content_type = ''application/octet-stream''\<rparr> w = (res, w')"
      "object_key_generator srv' = (object_key_generator srv)\<lparr>next_sequence :=
         next_sequence (object_key_generator srv) + 1\<rparr>"
      "fs_config srv' = fs_config srv"
      "pending_of srv' \<subseteq> pending_of srv \<union> (case res of Inl _ \<Rightarrow> {} | Inr r \<Rightarrow>
         {written_extent off' (of_nat (length buf))
            (fst (MakeObjectKey (fs_object_prefix (fs_config srv)) ino off' (object_key_generator srv))) r})"
      "\<exists>h. GetFileHandle (fh fi) srv = Some h \<and> off' = (if append_mode h then pending_append_length h else off)"
proof (cases "GetFileHandle (fh fi) srv")
  case None
  then have "srv' = srv" "w' = w"
    using assms by (simp_all add: PulpfsWrite_def)
  then show thesis
    by (rule nothing)
next
  case (Some h)
  show thesis
  proof (cases "writable h \<and> has_object_store srv \<and> fs_bucket (fs_config srv) \<noteq> []")
    case True
    let ?wo = "if append_mode h then pending_append_length h else off"
    let ?sz = "of_nat (length buf) :: u64"
    let ?g = "object_key_generator srv"
    let ?key = "fst (MakeObjectKey (fs_object_prefix (fs_config srv)) ino ?wo ?g)"
    let ?srv1 = "srv\<lparr>object_key_generator := ?g\<lparr>next_sequence := next_sequence ?g + 1\<rparr>\<rparr>"
    have k: "fs_MakeObjectKey ino ?wo srv = (?key, ?srv1)"
      by (simp add: fs_MakeObjectKey_def MakeObjectKey_def)
    obtain res w1 where p: "store_put env \<lparr>put_bucket = fs_bucket (fs_config srv), put_key = ?key,
        put_body = buf, content_type = ''application/octet-stream''\<rparr> w = (res, w1)"
      by (metis surj_pair)
    show thesis
    proof (cases res)
      case (Inl e)
      then have "srv' = ?srv1" "w' = w1"
        using assms True Some k p by (simp_all add: PulpfsWrite_def Let_def)
      with p Some Inl show thesis
        by (intro put [of ?wo res]) (auto simp: pending_of_def)
    next
      case (Inr r)
      let ?h = "note_write (written_extent ?wo ?sz ?key r) ?sz h"
      have s: "srv' = ?srv1\<lparr>handles := (handles srv)(fh fi \<mapsto> ?h)\<rparr>" "w' = w1"
        using assms True Some k p Inr by (simp_all add: PulpfsWrite_def Let_def)
      have "set (pending_extents ?h) \<union> set (pending_append_extents ?h) \<subseteq>
          insert (written_extent ?wo ?sz ?key r) (set (pending_extents h) \<union> set (pending_append_extents h))"
        by (auto simp: note_write_def)
      then have "pending_of srv' \<subseteq> insert (written_extent ?wo ?sz ?key r) (pending_of srv)"
        using Some unfolding s(1) pending_of_def GetFileHandle_def by (auto split: if_splits)
      with p Some Inr s show thesis
        by (intro put [of ?wo res]) simp_all
    qed
  next
    case False
    with assms Some have "srv' = srv" "w' = w"
      by (auto simp: PulpfsWrite_def split: if_splits)
    then show thesis
      by (rule nothing)
  qed
qed

section \<open>Requests that leave the metadata alone\<close>

fun keeps_metadata :: "request \<Rightarrow> bool" where
  "keeps_metadata (FuseLookup p n) = True"
| "keeps_metadata (FuseGetAttr i) = True"
| "keeps_metadata (FuseReadDir i sz off) = True"
| "keeps_metadata (FuseOpenDir i fi) = True"
| "keeps_metadata (FuseRead i sz off fi) = True"
| "keeps_metadata (FuseWrite i buf off fi) = True"
| "keeps_metadata (FuseForget i n) = True"
| "keeps_metadata (FuseStatFs i) = True"
| "keeps_metadata (FuseOpen i fi) = (and (fi_flags fi) O_TRUNC = 0)"
| "keeps_metadata _ = False"

lemma lookup_asks:
  "PulpfsLookup env p n srv w = (rep, srv', w') \<Longrightarrow> served (meta_client env) [] w w'"
  "PulpfsGetAttr env ino srv w = (rep, srv', w') \<Longrightarrow> served (meta_client env) [] w w'"
  "PulpfsOpenDir env ino fi srv w = (rep, srv', w') \<Longrightarrow> served (meta_client env) [] w w'"
  by (auto simp: PulpfsLookup_def PulpfsGetAttr_def PulpfsOpenDir_def dest!: Client_asks intro: served_one
      split: prod.splits sum.splits if_splits)

lemma open_asks:
  "PulpfsOpen env ino fi srv w = (rep, srv', w') \<Longrightarrow> and (fi_flags fi) O_TRUNC = 0 \<Longrightarrow>
    served (meta_client env) [] w w'"
  by (auto simp: PulpfsOpen_def dest!: Client_asks intro: served_one split: prod.splits sum.splits if_splits)

lemma readdir_asks:
  assumes "PulpfsReadDir env ino sz off srv w = (rep, srv', w')"
  shows "served (meta_client env) [] w w'"
proof -
  obtain r1 w1 where 1: "Client_GetAttr (meta_client env) ino w = (r1, w1)"
    by fastforce
  obtain r2 w2 where 2: "Client_ReadDir (meta_client env) ino w1 = (r2, w2)"
    by fastforce
  obtain r3 w3 where 3: "Client_GetAttr (meta_client env) (fs_ParentOf ino srv) w2 = (r3, w3)"
    by fastforce
  note ask = served_one(2) [OF Client_asks(2) [OF 1]]
  note ask2 = served_trans [OF ask served_one(2) [OF Client_asks(3) [OF 2]]]
  note ask3 = served_trans [OF ask2 served_one(2) [OF Client_asks(2) [OF 3]]]
  have "w' \<in> {w1, w2, w3}"
    using assms 1 2 3 by (auto simp: PulpfsReadDir_def Let_def split: sum.splits if_splits)
  with ask ask2 ask3 show ?thesis
    by auto
qed

end
