(* ===== verification/Deployment_Invariant.thy ===== *)
theory Deployment_Invariant
  imports Deployment_Calls
begin

text \<open>
  The invariant of the whole system: every extent in use, by a file or by a write that is not
  yet committed, lies in a stored object; names that were given out are not given out again;
  no running pass of the collector can reach an object in use.
\<close>

section \<open>The invariant\<close>

definition extents_in_use :: "'w site \<Rightarrow> 'w system \<Rightarrow> FileExtent set" where
  "extents_in_use S D = file_extents (metadata S (world D)) \<union> all_pending D"

text \<open>A name that no mount can give to an object any more.\<close>

definition spent :: "'w system \<Rightarrow> string \<Rightarrow> bool" where
  "spent D k \<longleftrightarrow> (\<forall>p i off g. CHR ''/'' \<notin> set (writer_id g) \<longrightarrow> k = fst (MakeObjectKey p i off g) \<longrightarrow>
     writer_id g \<in> writers D \<and> (\<forall>j srv. mounts D j = Some srv \<longrightarrow>
       writer_id (object_key_generator srv) = writer_id g \<longrightarrow>
       next_sequence g < next_sequence (object_key_generator srv)))"

definition mount_ok :: "string \<Rightarrow> 'w system \<Rightarrow> FuseServer \<Rightarrow> bool" where
  "mount_ok bucket D srv \<longleftrightarrow> table_ok srv \<and> fs_bucket (fs_config srv) = bucket \<and>
     writer_id (object_key_generator srv) \<in> writers D \<and>
     CHR ''/'' \<notin> set (writer_id (object_key_generator srv)) \<and>
     (\<forall>e\<in>pending_of srv. accepted e \<and> fits 0 e)"

definition pass_ok :: "'w site \<Rightarrow> string \<Rightarrow> 'w system \<Rightarrow> gc_pass \<Rightarrow> bool" where
  "pass_ok S bucket D c \<longleftrightarrow> gc_bucket (pass_config c) = bucket \<and>
     sint (pass_cutoff c) < sint (clock_ms S (world D)) \<and>
     (\<forall>e\<in>extents_in_use S D. object_key e \<in> pass_live c \<or>
        sint (pass_cutoff c) < sint (object_time S (world D) bucket (object_key e))) \<and>
     (\<forall>obj\<in>set (pass_queue c). spent D (info_key obj) \<and>
        (object_bytes S (world D) bucket (info_key obj) \<noteq> None \<longrightarrow>
           last_modified_ms obj = object_time S (world D) bucket (info_key obj)))"

definition mounts_ok :: "string \<Rightarrow> 'w system \<Rightarrow> bool" where
  "mounts_ok bucket D \<longleftrightarrow> (\<forall>i srv. mounts D i = Some srv \<longrightarrow> mount_ok bucket D srv)"

definition writers_apart :: "'w system \<Rightarrow> bool" where
  "writers_apart D \<longleftrightarrow> (\<forall>i j si sj. mounts D i = Some si \<longrightarrow> mounts D j = Some sj \<longrightarrow>
     writer_id (object_key_generator si) = writer_id (object_key_generator sj) \<longrightarrow> i = j)"

definition data_stored :: "'w site \<Rightarrow> string \<Rightarrow> 'w system \<Rightarrow> bool" where
  "data_stored S bucket D \<longleftrightarrow> (\<forall>e\<in>extents_in_use S D. backed (object_bytes S (world D) bucket) e)"

definition names_spent :: "'w site \<Rightarrow> string \<Rightarrow> 'w system \<Rightarrow> bool" where
  "names_spent S bucket D \<longleftrightarrow> (\<forall>k. object_bytes S (world D) bucket k \<noteq> None \<longrightarrow> spent D k)"

definition passes_ok :: "'w site \<Rightarrow> string \<Rightarrow> 'w system \<Rightarrow> bool" where
  "passes_ok S bucket D \<longleftrightarrow> (\<forall>n c. passes D n = Some c \<longrightarrow> pass_ok S bucket D c)"

definition system_ok :: "'w site \<Rightarrow> string \<Rightarrow> 'w system \<Rightarrow> bool" where
  "system_ok S bucket D \<longleftrightarrow> machine_ok (metadata S (world D)) \<and> mounts_ok bucket D \<and> writers_apart D \<and>
     data_stored S bucket D \<and> names_spent S bucket D \<and> passes_ok S bucket D"

lemma mounts_okD: "mounts_ok bucket D \<Longrightarrow> mounts D i = Some srv \<Longrightarrow> mount_ok bucket D srv"
  by (simp add: mounts_ok_def)

lemma writers_apartD: "writers_apart D \<Longrightarrow> mounts D i = Some si \<Longrightarrow> mounts D j = Some sj \<Longrightarrow>
    writer_id (object_key_generator si) = writer_id (object_key_generator sj) \<Longrightarrow> i = j"
  unfolding writers_apart_def by blast

lemma data_storedD: "data_stored S bucket D \<Longrightarrow> e \<in> extents_in_use S D \<Longrightarrow>
    backed (object_bytes S (world D) bucket) e"
  by (simp add: data_stored_def)

lemma passes_okD: "passes_ok S bucket D \<Longrightarrow> passes D n = Some c \<Longrightarrow> pass_ok S bucket D c"
  by (simp add: passes_ok_def)

text \<open>Names stay spent: generators only advance, and a new mount has a new writer id.\<close>

definition advances :: "'w system \<Rightarrow> 'w system \<Rightarrow> bool" where
  "advances D D' \<longleftrightarrow> writers D \<subseteq> writers D' \<and> (\<forall>j srv'. mounts D' j = Some srv' \<longrightarrow>
     writer_id (object_key_generator srv') \<notin> writers D \<or>
     (\<exists>srv. mounts D j = Some srv \<and>
        writer_id (object_key_generator srv) = writer_id (object_key_generator srv') \<and>
        next_sequence (object_key_generator srv) \<le> next_sequence (object_key_generator srv')))"

lemma advances_spent:
  assumes "advances D D'" and "spent D k"
  shows "spent D' k"
  unfolding spent_def
proof (intro allI impI conjI)
  fix p i off g
  assume g: "CHR ''/'' \<notin> set (writer_id g)" "k = fst (MakeObjectKey p i off g)"
  with assms(2) have w: "writer_id g \<in> writers D"
    and n: "\<And>j srv. mounts D j = Some srv \<Longrightarrow> writer_id (object_key_generator srv) = writer_id g \<Longrightarrow>
      next_sequence g < next_sequence (object_key_generator srv)"
    unfolding spent_def by blast+
  show "writer_id g \<in> writers D'"
    using w assms(1) by (auto simp: advances_def)
  fix j srv'
  assume m: "mounts D' j = Some srv'" "writer_id (object_key_generator srv') = writer_id g"
  then obtain srv where srv: "mounts D j = Some srv"
    "writer_id (object_key_generator srv) = writer_id (object_key_generator srv')"
    "next_sequence (object_key_generator srv) \<le> next_sequence (object_key_generator srv')"
    using assms(1) w unfolding advances_def by metis
  show "next_sequence g < next_sequence (object_key_generator srv')"
    using n [OF srv(1)] srv(2,3) m(2) by simp
qed

text \<open>
  What keeps a pass sound over a step: the clock does not run back, spent names stay spent,
  what is in use was in use with that date or is dated after the cutoff, and a listed object
  that is still there has its date.
\<close>

lemma pass_ok_step:
  assumes "pass_ok S bucket D c" and "sint (clock_ms S (world D)) \<le> sint (clock_ms S (world D'))"
    and "\<And>k. spent D k \<Longrightarrow> spent D' k"
    and "\<And>e. e \<in> extents_in_use S D' \<Longrightarrow>
      (\<exists>x\<in>extents_in_use S D. object_key x = object_key e \<and>
         object_time S (world D') bucket (object_key e) = object_time S (world D) bucket (object_key e)) \<or>
      sint (clock_ms S (world D)) \<le> sint (object_time S (world D') bucket (object_key e))"
    and "\<And>k. spent D k \<Longrightarrow> object_bytes S (world D') bucket k \<noteq> None \<Longrightarrow>
      object_bytes S (world D) bucket k \<noteq> None \<and> object_time S (world D') bucket k = object_time S (world D) bucket k"
  shows "pass_ok S bucket D' c"
  unfolding pass_ok_def
proof (intro conjI ballI impI)
  have cut: "sint (pass_cutoff c) < sint (clock_ms S (world D))"
    and use: "\<And>x. x \<in> extents_in_use S D \<Longrightarrow> object_key x \<in> pass_live c \<or>
      sint (pass_cutoff c) < sint (object_time S (world D) bucket (object_key x))"
    and queue: "\<And>x. x \<in> set (pass_queue c) \<Longrightarrow> spent D (info_key x)"
      "\<And>x. x \<in> set (pass_queue c) \<Longrightarrow> object_bytes S (world D) bucket (info_key x) \<noteq> None \<Longrightarrow>
        last_modified_ms x = object_time S (world D) bucket (info_key x)"
    using assms(1) unfolding pass_ok_def by blast+
  show "gc_bucket (pass_config c) = bucket"
    using assms(1) by (simp add: pass_ok_def)
  show "sint (pass_cutoff c) < sint (clock_ms S (world D'))"
    using cut assms(2) by simp
  show "object_key e \<in> pass_live c \<or> sint (pass_cutoff c) < sint (object_time S (world D') bucket (object_key e))"
    if "e \<in> extents_in_use S D'" for e
    using assms(4) [OF that] use cut by fastforce
  fix x
  assume x: "x \<in> set (pass_queue c)"
  show "spent D' (info_key x)"
    using queue(1) [OF x] by (rule assms(3))
  assume "object_bytes S (world D') bucket (info_key x) \<noteq> None"
  from assms(5) [OF queue(1) [OF x] this] queue(2) [OF x]
  show "last_modified_ms x = object_time S (world D') bucket (info_key x)"
    by simp
qed

text \<open>The name a mount took last is spent.\<close>

lemma last_name_spent:
  assumes "mounts D i = Some srv" and "writers_apart D" and "writer_id g \<in> writers D"
    and slash: "CHR ''/'' \<notin> set (writer_id g)"
    and gen: "object_key_generator srv = g\<lparr>next_sequence := next_sequence g + 1\<rparr>" and "next_sequence g \<noteq> -1"
  shows "spent D (fst (MakeObjectKey p ino off g))"
  unfolding spent_def
proof (intro allI impI conjI)
  fix q j o2 g2
  assume g2: "CHR ''/'' \<notin> set (writer_id g2)" "fst (MakeObjectKey p ino off g) = fst (MakeObjectKey q j o2 g2)"
  have same: "writer_id g = writer_id g2" "next_sequence g = next_sequence g2"
    using key_inject [OF slash g2(1)] g2(2) by auto
  show "writer_id g2 \<in> writers D"
    using assms(3) same by simp
  fix n srv2
  assume n: "mounts D n = Some srv2" "writer_id (object_key_generator srv2) = writer_id g2"
  have "n = i"
    by (rule writers_apartD [OF assms(2) n(1) assms(1)]) (simp add: n(2) same(1) gen)
  then have "srv2 = srv"
    using n(1) assms(1) by simp
  then have "next_sequence (object_key_generator srv2) = next_sequence g + 1"
    by (simp add: gen)
  with assms(6) show "next_sequence g2 < next_sequence (object_key_generator srv2)"
    by (simp add: word_less_add_one flip: same(2))
qed

text \<open>
  A change that leaves the objects alone and brings in no extent but parts of those in use
  keeps the clauses on data, names and passes.
\<close>

lemma system_ok_quiet:
  assumes "system_ok S bucket D" and "advances D D'" and "passes D' = passes D"
    and "machine_ok (metadata S (world D'))" and "mounts_ok bucket D'" and "writers_apart D'"
    and use: "parts_of (extents_in_use S D') (extents_in_use S D)"
    and bytes: "object_bytes S (world D') = object_bytes S (world D)"
    and time: "object_time S (world D') = object_time S (world D)"
    and clock: "sint (clock_ms S (world D)) \<le> sint (clock_ms S (world D'))"
  shows "system_ok S bucket D'"
proof -
  have ok: "data_stored S bucket D" "names_spent S bucket D" "passes_ok S bucket D"
    using assms(1) by (simp_all add: system_ok_def)
  have "data_stored S bucket D'"
    unfolding data_stored_def bytes by (rule parts_of_backed [OF use]) (use data_storedD [OF ok(1)] in blast)
  moreover have "names_spent S bucket D'"
    using ok(2) advances_spent [OF assms(2)] unfolding names_spent_def bytes by blast
  moreover have "passes_ok S bucket D'"
    unfolding passes_ok_def assms(3)
  proof (intro allI impI)
    fix n c
    assume "passes D n = Some c"
    then show "pass_ok S bucket D' c"
    proof (rule pass_ok_step [OF passes_okD [OF ok(3)] clock])
      fix e
      assume "e \<in> extents_in_use S D'"
      then obtain x where "x \<in> extents_in_use S D" "object_key e = object_key x"
        using parts_of_keys [OF use] by blast
      then show "(\<exists>x\<in>extents_in_use S D. object_key x = object_key e \<and>
           object_time S (world D') bucket (object_key e) = object_time S (world D) bucket (object_key e)) \<or>
         sint (clock_ms S (world D)) \<le> sint (object_time S (world D') bucket (object_key e))"
        using time by auto
    qed (use bytes time advances_spent [OF assms(2)] in simp_all)
  qed
  ultimately show ?thesis
    using assms(4-6) by (simp add: system_ok_def)
qed

section \<open>What calls do\<close>

lemma fits_tiles:
  assumes "tiles a es b" and "\<forall>e\<in>set es. fits 0 e" and "e \<in> set es"
  shows "unat (offset e) + unat (len e) \<le> unat b"
  using assms
proof (induction es arbitrary: a)
  case (Cons x es)
  have up: "unat (ExtentEnd x) \<le> unat b"
  proof -
    have "unat c \<le> unat b" if "tiles c es b" "\<forall>e\<in>set es. fits 0 e" for c
      using that
    proof (induction es arbitrary: c)
      case (Cons y ys)
      have "unat (ExtentEnd y) \<le> unat b"
        by (rule Cons.IH) (use Cons.prems in simp_all)
      then show ?case
        using Cons.prems fits_unat(2) [of 0 y] by simp
    qed simp
    then show ?thesis
      using Cons.prems(1,2) by simp
  qed
  show ?case
  proof (cases "e = x")
    case True
    then show ?thesis
      using up fits_unat(2) [of 0 x] Cons.prems(2) by simp
  next
    case False
    then show ?thesis
      using Cons.IH [of "ExtentEnd x"] Cons.prems by simp
  qed
qed simp

text \<open>What is pending on a handle can be committed.\<close>

lemma pending_admissible:
  assumes "mount_ok bucket D srv" and "commit_fits k srv s" and "handles srv k = Some h"
  shows "admissible 0 (pending_extents h)" and "admissible (file_size s (h_inode_id h)) (pending_append_extents h)"
proof -
  have fit: "unat (file_size s (h_inode_id h)) + unat (pending_append_length h) < 2 ^ 64"
    using assms(2,3) by (simp add: commit_fits_def GetFileHandle_def adds_up_def)
  have adm: "\<forall>e\<in>set (pending_extents h) \<union> set (pending_append_extents h). accepted e \<and> fits 0 e"
    using assms(1,3) by (auto simp: mount_ok_def pending_of_def)
  then show "admissible 0 (pending_extents h)"
    by (simp add: admissible_def)
  have "handle_ok h"
    using assms(1,3) by (auto simp: mount_ok_def table_ok_def)
  then have "pending_append_extents h = [] \<or> tiles 0 (pending_append_extents h) (pending_append_length h)"
    by (auto simp: handle_ok_def split: if_splits)
  then show "admissible (file_size s (h_inode_id h)) (pending_append_extents h)"
    using adm fit fits_tiles [of 0 "pending_append_extents h" "pending_append_length h"]
    by (fastforce simp: admissible_def fits_def)
qed

context deployment begin

lemma served_effect:
  assumes "served (meta_client (site_env S)) cs w w'" and "machine_ok (metadata S w)"
    and "cs \<noteq> [] \<longrightarrow> sound_command (hd cs) (metadata S w)" and "\<forall>c\<in>set (tl cs). plain_command c"
  shows "machine_ok (metadata S w') \<and>
    parts_of (file_extents (metadata S w')) (file_extents (metadata S w) \<union> (\<Union>c\<in>set cs. command_extents c)) \<and>
    object_bytes S w' = object_bytes S w \<and> object_time S w' = object_time S w \<and>
    sint (clock_ms S w) \<le> sint (clock_ms S w')"
  using assms
proof (induction rule: served.induct)
  case (none w)
  then show ?case
    by (simp add: parts_of_subset)
next
  case (query w w1 cs w2)
  then show ?case
    using query_sent [OF query.hyps(1)] by auto
next
  case (command x w w1 cs w2)
  note eff = command_sent [OF command.hyps(1)]
  let ?s = "metadata S w" and ?s1 = "metadata S w1"
  have "machine_ok ?s1 \<and> parts_of (file_extents ?s1) (file_extents ?s \<union> command_extents x)"
    using eff command.prems machine_sound_step [of ?s x] extents_apply_command [of ?s x]
    by (auto simp: sound_command_def intro: parts_of_subset)
  moreover have "cs \<noteq> [] \<longrightarrow> sound_command (hd cs) ?s1" "\<forall>c\<in>set (tl cs). plain_command c"
    using command.prems(3) by (cases cs; auto simp: plain_command_def)+
  ultimately have r: "machine_ok ?s1" "parts_of (file_extents ?s1) (file_extents ?s \<union> command_extents x)"
    "machine_ok (metadata S w2)"
    "parts_of (file_extents (metadata S w2)) (file_extents ?s1 \<union> (\<Union>c\<in>set cs. command_extents c))"
    "object_bytes S w2 = object_bytes S w1" "object_time S w2 = object_time S w1"
    "sint (clock_ms S w1) \<le> sint (clock_ms S w2)"
    using command.IH by auto
  have "parts_of (file_extents ?s1 \<union> (\<Union>c\<in>set cs. command_extents c))
      (file_extents ?s \<union> (\<Union>c\<in>set (x # cs). command_extents c))"
    using r(2) by (intro parts_of_Un) (auto intro: parts_of_subset elim: parts_of_mono)
  with r eff show ?case
    by (auto intro: parts_of_trans)
qed

text \<open>The commands of a usual request are sound, and carry what was pending.\<close>

lemma issued_sound:
  assumes "issues r srv cs" and "usual r srv s" and "mount_ok bucket D srv" and "\<not> is_write r"
  shows "cs \<noteq> [] \<longrightarrow> sound_command (hd cs) s" and "\<forall>c\<in>set (tl cs). plain_command c"
    and "(\<Union>c\<in>set cs. command_extents c) \<subseteq> pending_of srv"
proof -
  have plain: "command_extents c = {}" if "plain_command c \<or> makes_inode c" for c
    using that by (cases c) (auto simp: plain_command_def)
  have "sound_command c s" and "command_extents c \<subseteq> pending_of srv" if c: "c \<in> set cs" for c
  proof -
    consider "plain_command c" | "makes_inode c"
      | k h where "request_fh r = Some k" "handles srv k = Some h" "c \<in> commit_commands h"
      using assms(1) c unfolding issues_def by blast
    then have "sound_command c s \<and> command_extents c \<subseteq> pending_of srv"
    proof cases
      case 1
      then show ?thesis
        using plain by (simp add: plain_command_def)
    next
      case 2
      then show ?thesis
        using plain assms(2) by (cases c) (simp_all add: sound_command_def usual_def)
    next
      case (3 k h)
      have "commit_fits k srv s"
        using assms(2,4) 3(1) by (cases r) (auto simp: usual_def is_write_def)
      note adm = pending_admissible [OF assms(3) this 3(2)]
      show ?thesis
        using 3(2,3) adm unfolding commit_commands_def sound_command_def pending_of_def by auto blast+
    qed
    then show "sound_command c s" and "command_extents c \<subseteq> pending_of srv"
      by simp_all
  qed
  then show "cs \<noteq> [] \<longrightarrow> sound_command (hd cs) s" and "(\<Union>c\<in>set cs. command_extents c) \<subseteq> pending_of srv"
    by auto
  show "\<forall>c\<in>set (tl cs). plain_command c"
    using assms(1) by (simp add: issues_def)
qed

end

section \<open>Every step keeps the invariant\<close>

lemma all_pending_mount: "mounts D i = Some srv \<Longrightarrow> pending_of srv \<subseteq> all_pending D"
  by (auto simp: all_pending_def)

lemma all_pending_upd:
  "all_pending (D\<lparr>mounts := (mounts D)(i \<mapsto> srv'), world := w'\<rparr>) \<subseteq> all_pending D \<union> pending_of srv'"
  by (auto simp: all_pending_def split: if_splits)

text \<open>A mount that serves keeps its writer id and moves its sequence forward.\<close>

lemma served_mount:
  fixes w' :: 'w
  assumes "mounts D i = Some srv" and "writers_apart D" and "mounts_ok bucket D"
    and "writer_id (object_key_generator srv') = writer_id (object_key_generator srv)"
    and "next_sequence (object_key_generator srv) \<le> next_sequence (object_key_generator srv')"
    and "mount_ok bucket D srv'"
  defines "D' \<equiv> D\<lparr>mounts := (mounts D)(i \<mapsto> srv'), world := w'\<rparr>"
  shows "writers_apart D'" and "mounts_ok bucket D'" and "advances D D'"
proof -
  show "writers_apart D'"
    using assms(1,2,4) unfolding writers_apart_def D'_def by (auto split: if_splits)
  show "mounts_ok bucket D'"
    using assms(3,6) unfolding mounts_ok_def mount_ok_def D'_def by simp
  show "advances D D'"
    using assms(1,4,5) unfolding advances_def D'_def by auto
qed

lemma no_new_data_mount_ok:
  "no_new_data srv srv' \<Longrightarrow> mount_ok bucket D srv \<Longrightarrow> table_ok srv' \<Longrightarrow> mount_ok bucket D srv'"
  by (auto simp: no_new_data_def mount_ok_def)

context deployment begin

lemma request_keeps:
  assumes "system_ok S bucket D" and m: "mounts D i = Some srv" and "usual r srv (metadata S (world D))"
    and s: "serve (site_env S) r srv (world D) = (rep, srv', w')" and "\<not> is_write r"
  shows "system_ok S bucket (D\<lparr>mounts := (mounts D)(i \<mapsto> srv'), world := w'\<rparr>)"
proof -
  have ok: "machine_ok (metadata S (world D))" "mounts_ok bucket D" "writers_apart D"
    using assms(1) by (simp_all add: system_ok_def)
  note mo = mounts_okD [OF ok(2) m]
  then have t: "table_ok srv"
    by (simp add: mount_ok_def)
  obtain cs where cs: "served (meta_client (site_env S)) cs (world D) w'" "issues r srv cs" "no_new_data srv srv'"
    using serve_moves [OF s t assms(5)] by (auto simp: moves_def)
  note sound = issued_sound [OF cs(2) assms(3) mo assms(5)]
  note eff = served_effect [OF cs(1) ok(1) sound(1,2)]
  have "table_ok srv'"
    using table_step_ok [OF serve_table [OF s] t] assms(3) by (simp add: usual_def)
  with cs(3) mo have mo': "mount_ok bucket D srv'"
    by (rule no_new_data_mount_ok)
  let ?D = "D\<lparr>mounts := (mounts D)(i \<mapsto> srv'), world := w'\<rparr>"
  have gen: "writer_id (object_key_generator srv') = writer_id (object_key_generator srv)"
    "next_sequence (object_key_generator srv) \<le> next_sequence (object_key_generator srv')"
    using cs(3) by (simp_all add: no_new_data_def)
  note served = served_mount [OF m ok(3,2) gen mo', where w' = w']
  have "all_pending ?D \<subseteq> all_pending D"
    using all_pending_upd [where D = D and i = i and srv' = srv' and w' = w'] all_pending_mount [OF m] cs(3)
    by (auto simp: no_new_data_def)
  then have "parts_of (all_pending ?D) (extents_in_use S D)"
    by (auto simp: extents_in_use_def intro: parts_of_subset)
  moreover have "parts_of (file_extents (metadata S w')) (extents_in_use S D)"
    using eff sound(3) all_pending_mount [OF m] unfolding extents_in_use_def
    by (elim conjE parts_of_mono) blast
  ultimately have use: "parts_of (extents_in_use S ?D) (extents_in_use S D)"
    unfolding extents_in_use_def [of S ?D] by (simp add: parts_of_Un)
  show ?thesis
    by (rule system_ok_quiet [OF assms(1) served(3) _ _ served(2,1) use]) (use eff in simp_all)
qed

text \<open>The extent of a write that was acknowledged is sound, stored and young.\<close>

lemma put_new:
  assumes "store_put (site_env S) \<lparr>put_bucket = bucket, put_key = key, put_body = buf, content_type = ct\<rparr> w = (Inr r, w')"
    and "key \<noteq> []" and "buf \<noteq> []" and "unat off + length buf < 2 ^ 64"
  defines "e \<equiv> written_extent off (of_nat (length buf)) key r"
  shows "accepted e" and "fits 0 e" and "object_key e = key" and "backed (object_bytes S w' bucket) e"
    and "sint (clock_ms S w) \<le> sint (object_time S w' bucket key)"
proof -
  have len: "unat (of_nat (length buf) :: u64) = length buf"
    using assms(4) by (simp add: unat_of_nat)
  then have "(of_nat (length buf) :: u64) \<noteq> 0"
    using assms(3) by (metis length_0_conv unat_0)
  then show a: "accepted e"
    using assms(2) by (simp add: e_def accepted_def written_extent_def)
  show f: "fits 0 e"
    using assms(4) len by (simp add: e_def fits_def written_extent_def)
  show "object_key e = key"
    by (simp add: e_def written_extent_def)
  then show "backed (object_bytes S w' bucket) e"
    using accepted_proper(1) [OF a f] put_holds [OF assms(1)] len assms(4)
    by (simp add: backed_def) (simp add: e_def written_extent_def)
  show "sint (clock_ms S w) \<le> sint (object_time S w' bucket key)"
    using put_dated [OF assms(1)] by simp
qed

lemma put_keeps:
  fixes off :: u64
  assumes "system_ok S bucket D" and m: "mounts D i = Some srv"
    and put: "store_put (site_env S) \<lparr>put_bucket = bucket,
       put_key = fst (MakeObjectKey p ino off (object_key_generator srv)), put_body = buf,
       content_type = ct\<rparr> (world D) = (res, w')"
    and gen: "object_key_generator srv' = (object_key_generator srv)\<lparr>next_sequence :=
       next_sequence (object_key_generator srv) + 1\<rparr>"
    and room: "next_sequence (object_key_generator srv) \<noteq> -1"
    and conf: "fs_config srv' = fs_config srv" and "table_ok srv'"
    and pend: "pending_of srv' \<subseteq> pending_of srv \<union> (case res of Inl _ \<Rightarrow> {} | Inr r \<Rightarrow>
         {written_extent off (of_nat (length buf)) (fst (MakeObjectKey p ino off (object_key_generator srv))) r})"
    and fit: "buf \<noteq> []" "unat off + length buf < 2 ^ 64"
  shows "system_ok S bucket (D\<lparr>mounts := (mounts D)(i \<mapsto> srv'), world := w'\<rparr>)"
proof -
  let ?g = "object_key_generator srv" and ?D = "D\<lparr>mounts := (mounts D)(i \<mapsto> srv'), world := w'\<rparr>"
  define key where "key = fst (MakeObjectKey p ino off ?g)"
  have ok: "machine_ok (metadata S (world D))" "mounts_ok bucket D" "writers_apart D"
    "data_stored S bucket D" "names_spent S bucket D" "passes_ok S bucket D"
    using assms(1) by (simp_all add: system_ok_def)
  note mo = mounts_okD [OF ok(2) m]
  have slash: "CHR ''/'' \<notin> set (writer_id ?g)" and wid: "writer_id ?g \<in> writers D"
    using mo by (simp_all add: mount_ok_def)
  have unspent: "\<not> spent D key"
    using slash m unfolding spent_def key_def by blast
  note sent = put_sent [OF put, folded key_def]
  have other: "object_bytes S w' bucket k = object_bytes S (world D) bucket k"
    "object_time S w' bucket k = object_time S (world D) bucket k" if "k \<noteq> key" for k
    using sent that by simp_all
  have in_use_key: "object_key e \<noteq> key" if "e \<in> extents_in_use S D" for e
    using data_storedD [OF ok(4) that] ok(5) unspent unfolding names_spent_def backed_def
    by (auto split: option.splits)
  define new where "new = (case res of Inl _ \<Rightarrow> {} | Inr r \<Rightarrow> {written_extent off (of_nat (length buf)) key r})"
  have nonempty: "key \<noteq> []"
    by (simp add: key_def MakeObjectKey_def)
  have newE: "accepted e \<and> fits 0 e \<and> object_key e = key \<and> backed (object_bytes S w' bucket) e \<and>
      sint (clock_ms S (world D)) \<le> sint (object_time S w' bucket key)" if "e \<in> new" for e
    using that put_new [OF _ nonempty fit] put unfolding new_def key_def [symmetric] by (auto split: sum.splits)
  have pend': "pending_of srv' \<subseteq> pending_of srv \<union> new"
    using pend unfolding new_def key_def .
  have mo': "mount_ok bucket D srv'"
    using mo assms(7) pend' newE conf unfolding mount_ok_def gen by auto
  have "writer_id (object_key_generator srv') = writer_id ?g"
    "next_sequence ?g \<le> next_sequence (object_key_generator srv')"
    using room by (simp_all add: gen word_less_add_one less_imp_le)
  note served = served_mount [OF m ok(3,2) this mo', where w' = w']
  have spent: "spent ?D k" if "spent D k" for k
    using served(3) that by (rule advances_spent)
  have key_spent: "spent ?D key"
    unfolding key_def by (rule last_name_spent [where i = i, OF _ served(1) _ slash gen room]) (simp_all add: wid)
  have use: "extents_in_use S ?D \<subseteq> extents_in_use S D \<union> new"
    using all_pending_upd [where D = D and i = i and srv' = srv' and w' = w'] all_pending_mount [OF m] pend' sent
    by (auto simp: extents_in_use_def)
  have "backed (object_bytes S (world ?D) bucket) e" if "e \<in> extents_in_use S ?D" for e
  proof (cases "e \<in> new")
    case False
    then have "e \<in> extents_in_use S D"
      using use that by blast
    with in_use_key data_storedD [OF ok(4)] show ?thesis
      using other(1) by (simp add: backed_def)
  qed (simp add: newE)
  then have "data_stored S bucket ?D"
    by (simp add: data_stored_def)
  moreover have "names_spent S bucket ?D"
    using ok(5) other(1) spent key_spent unfolding names_spent_def
    by (metis system.select_convs(4) system.surjective system.update_convs(4))
  moreover have "passes_ok S bucket ?D"
    unfolding passes_ok_def
  proof (intro allI impI)
    fix n c
    assume "passes ?D n = Some c"
    then have "pass_ok S bucket D c"
      using passes_okD [OF ok(6)] by simp
    then show "pass_ok S bucket ?D c"
    proof (rule pass_ok_step)
      fix e
      assume e: "e \<in> extents_in_use S ?D"
      show "(\<exists>x\<in>extents_in_use S D. object_key x = object_key e \<and>
           object_time S (world ?D) bucket (object_key e) = object_time S (world D) bucket (object_key e)) \<or>
         sint (clock_ms S (world D)) \<le> sint (object_time S (world ?D) bucket (object_key e))"
      proof (cases "e \<in> new")
        case False
        then have "e \<in> extents_in_use S D"
          using use e by blast
        moreover from this have "object_time S (world ?D) bucket (object_key e) =
            object_time S (world D) bucket (object_key e)"
          using other(2) in_use_key by simp
        ultimately show ?thesis
          by blast
      qed (simp add: newE)
    next
      fix k
      assume k: "spent D k" "object_bytes S (world ?D) bucket k \<noteq> None"
      with unspent have "k \<noteq> key"
        by blast
      with k other show "object_bytes S (world D) bucket k \<noteq> None \<and>
          object_time S (world ?D) bucket k = object_time S (world D) bucket k"
        by simp
    qed (use sent spent in simp_all)
  qed
  ultimately show ?thesis
    using ok(1) served sent by (simp add: system_ok_def)
qed

text \<open>A pass may only delete what is not in use.\<close>

lemma pass_object_same:
  assumes "system_ok S bucket D" and "passes D n = Some c" and "obj \<in> set (pass_queue c)"
    and "gc_object (site_delete S) (gc_bucket (pass_config c)) dry (pass_live c) (pass_cutoff c) obj
      (counters, world D) = (counters', w')"
    and "e \<in> extents_in_use S D"
  shows "object_bytes S w' bucket (object_key e) = object_bytes S (world D) bucket (object_key e) \<and>
    object_time S w' bucket (object_key e) = object_time S (world D) bucket (object_key e)"
proof -
  have ok: "data_stored S bucket D" "passes_ok S bucket D"
    using assms(1) by (simp_all add: system_ok_def)
  note c = passes_okD [OF ok(2) assms(2)]
  have "object_bytes S (world D) bucket (object_key e) \<noteq> None"
    using data_storedD [OF ok(1) assms(5)] by (auto simp: backed_def split: option.splits)
  then have "object_key e \<noteq> info_key obj \<or> object_key e \<in> pass_live c \<or>
      sint (pass_cutoff c) < sint (last_modified_ms obj)"
    using c assms(3,5) unfolding pass_ok_def by metis
  then show ?thesis
    using gc_object_same [of bucket "gc_bucket (pass_config c)" "object_key e" obj "pass_live c" "pass_cutoff c"
        "(counters, world D)" dry] assms(4)
    by (auto simp: same_object_def)
qed

lemma gc_object_sent:
  assumes "gc_object (site_delete S) b dry L cutoff obj (counters, w) = (counters', w')"
  shows "metadata S w' = metadata S w \<and> sint (clock_ms S w) \<le> sint (clock_ms S w') \<and>
    (\<forall>b k. object_bytes S w' b k \<noteq> None \<longrightarrow>
       object_bytes S w' b k = object_bytes S w b k \<and> object_time S w' b k = object_time S w b k)"
proof -
  have "w' = w \<or> (\<exists>res. site_delete S \<lparr>delete_bucket = b, delete_key = info_key obj\<rparr> w = (res, w'))"
    using assms by (auto simp: gc_object_def Let_def split: if_splits prod.splits sum.splits)
  then show ?thesis
    using delete_sent by auto
qed

lemma pass_object_keeps:
  assumes "system_ok S bucket D" and c: "passes D n = Some c" and q: "pass_queue c = obj # rest"
    and g: "gc_object (site_delete S) (gc_bucket (pass_config c)) (dry_run (pass_config c)) (pass_live c)
      (pass_cutoff c) obj (pass_counters c, world D) = (counters, w')"
  shows "system_ok S bucket (D\<lparr>passes := (passes D)(n \<mapsto>
      c\<lparr>pass_counters := counters, pass_queue := rest\<rparr>), world := w'\<rparr>)"
proof -
  let ?D = "D\<lparr>passes := (passes D)(n \<mapsto> c\<lparr>pass_counters := counters, pass_queue := rest\<rparr>), world := w'\<rparr>"
  have ok: "machine_ok (metadata S (world D))" "mounts_ok bucket D" "writers_apart D"
    "data_stored S bucket D" "names_spent S bucket D" "passes_ok S bucket D"
    using assms(1) by (simp_all add: system_ok_def)
  note sent = gc_object_sent [OF g]
  have use: "extents_in_use S ?D = extents_in_use S D"
    using sent by (simp add: extents_in_use_def all_pending_def)
  have spent: "spent ?D k = spent D k" for k
    by (simp add: spent_def)
  have same: "object_bytes S w' bucket (object_key e) = object_bytes S (world D) bucket (object_key e)"
    "object_time S w' bucket (object_key e) = object_time S (world D) bucket (object_key e)"
    if "e \<in> extents_in_use S D" for e
    using pass_object_same [OF assms(1) c _ g that] q by simp_all
  have "data_stored S bucket ?D"
    using data_storedD [OF ok(4)] same(1) unfolding data_stored_def use backed_def by simp
  moreover have "names_spent S bucket ?D"
    unfolding names_spent_def spent
  proof (intro allI impI)
    fix k
    assume "object_bytes S (world ?D) bucket k \<noteq> None"
    then have "object_bytes S (world D) bucket k \<noteq> None"
      using sent by (metis select_convs(4) surjective update_convs(4))
    then show "spent D k"
      using ok(5) unfolding names_spent_def by blast
  qed
  moreover have passes: "pass_ok S bucket ?D d" if "passes D m = Some d" for m d
    by (rule pass_ok_step [OF passes_okD [OF ok(6) that]]) (use sent same use in \<open>auto simp: spent\<close>)
  have "pass_ok S bucket ?D (c\<lparr>pass_counters := counters, pass_queue := rest\<rparr>)"
    using passes [OF c] q by (simp add: pass_ok_def)
  with passes have "passes_ok S bucket ?D"
    by (auto simp: passes_ok_def)
  ultimately show ?thesis
    using ok(1-3) sent by (simp add: system_ok_def mounts_ok_def mount_ok_def writers_apart_def)
qed

lemma pass_page_keeps:
  assumes "system_ok S bucket D" and c: "passes D n = Some c"
    and p: "site_list S \<lparr>list_bucket = gc_bucket (pass_config c), list_prefix = pfx, continuation_token = token\<rparr>
      (world D) = Inr page"
  shows "system_ok S bucket (D\<lparr>passes := (passes D)(n \<mapsto> c\<lparr>pass_token := t, pass_queue := objects page\<rparr>)\<rparr>)"
proof -
  let ?D = "D\<lparr>passes := (passes D)(n \<mapsto> c\<lparr>pass_token := t, pass_queue := objects page\<rparr>)\<rparr>"
  have ok: "names_spent S bucket D" "passes_ok S bucket D"
    using assms(1) by (simp_all add: system_ok_def)
  note co = passes_okD [OF ok(2) c]
  have same: "extents_in_use S ?D = extents_in_use S D" "\<And>k. spent ?D k = spent D k"
    by (simp_all add: extents_in_use_def all_pending_def spent_def)
  have bucket: "gc_bucket (pass_config c) = bucket"
    using co by (simp add: pass_ok_def)
  have "spent D (info_key obj) \<and> (object_bytes S (world D) bucket (info_key obj) \<noteq> None \<longrightarrow>
      last_modified_ms obj = object_time S (world D) bucket (info_key obj))" if "obj \<in> set (objects page)" for obj
    using listed_held [OF p that] list_truth [OF p that] ok(1) bucket unfolding names_spent_def by auto
  then have "pass_ok S bucket ?D (c\<lparr>pass_token := t, pass_queue := objects page\<rparr>)"
    using co unfolding pass_ok_def same by simp
  moreover have "pass_ok S bucket ?D d" if "passes D m = Some d" for m d
    using passes_okD [OF ok(2) that] unfolding pass_ok_def same by simp
  ultimately have "passes_ok S bucket ?D"
    by (auto simp: passes_ok_def)
  then show ?thesis
    using assms(1) unfolding system_ok_def mounts_ok_def mount_ok_def writers_apart_def data_stored_def
      names_spent_def same by simp
qed

lemma file_extents_live:
  assumes "machine_ok s" and "e \<in> file_extents s"
  shows "object_key e \<in> set (ListLiveObjects s)"
proof -
  obtain i l where l: "omap_lookup (layouts s) i = Some l" "e \<in> set (extents l)"
    using assms(2) by (auto simp: file_extents_def file_view_def)
  have "[] \<notin> object_key ` set (extents l)"
    using assms(1) l(1) by (simp add: machine_ok_def data_ok_def)
  then have "object_key e \<noteq> []"
    using l(2) by force
  with l show ?thesis
    unfolding in_ListLiveObjects by blast
qed

lemma query_keeps:
  assumes "system_ok S bucket D" and "asks (meta_client (site_env S)) (world D) w'"
  shows "system_ok S bucket (D\<lparr>world := w'\<rparr>)" (is "system_ok S bucket ?D")
proof -
  note sent = query_sent [OF assms(2)]
  have ok: "machine_ok (metadata S (world D))" "mounts_ok bucket D" "writers_apart D"
    using assms(1) by (simp_all add: system_ok_def)
  show ?thesis
  proof (rule system_ok_quiet [OF assms(1)])
    show "advances D ?D"
      by (auto simp: advances_def)
    show "parts_of (extents_in_use S ?D) (extents_in_use S D)"
      using sent by (intro parts_of_subset) (simp add: extents_in_use_def all_pending_def)
  qed (use ok sent in \<open>simp_all add: mounts_ok_def mount_ok_def writers_apart_def\<close>)
qed

lemma pass_begin_keeps:
  assumes "system_ok S bucket D" and "gc_bucket cfg = bucket"
    and l: "Client_ListLiveObjects (meta_client (site_env S)) (world D) = (Inr ls, w')"
    and "sint cutoff < sint (clock_ms S w')"
    and p: "\<forall>e\<in>all_pending D. sint cutoff < sint (object_time S (world D) bucket (object_key e))"
  shows "system_ok S bucket (D\<lparr>passes := (passes D)(n \<mapsto> \<lparr>pass_config = cfg, pass_live = set ls,
      pass_cutoff = cutoff, pass_counters = GcCounters_init, pass_token = Some [], pass_queue = []\<rparr>), world := w'\<rparr>)"
    (is "system_ok S bucket ?D")
proof -
  let ?D1 = "D\<lparr>world := w'\<rparr>"
  note sent = query_sent [OF Client_asks(5) [OF l]]
  have ok: "machine_ok (metadata S (world D))"
    using assms(1) by (simp add: system_ok_def)
  have use: "extents_in_use S ?D1 = extents_in_use S D"
    using sent by (simp add: extents_in_use_def all_pending_def)
  have 1: "system_ok S bucket ?D1"
    by (rule query_keeps [OF assms(1) Client_asks(5) [OF l]])
  have "ls = ListLiveObjects (metadata S (world D))"
    using l live_listed by (auto simp: Client_ListLiveObjects_def finish_def split: prod.splits if_splits)
  then have live: "object_key e \<in> set ls" if "e \<in> file_extents (metadata S (world D))" for e
    using file_extents_live [OF ok that] by simp
  have same: "extents_in_use S ?D = extents_in_use S D" "\<And>k. spent ?D k = spent ?D1 k"
    using sent by (simp_all add: extents_in_use_def all_pending_def spent_def)
  have "pass_ok S bucket ?D \<lparr>pass_config = cfg, pass_live = set ls, pass_cutoff = cutoff,
      pass_counters = GcCounters_init, pass_token = Some [], pass_queue = []\<rparr>"
    using assms(2,4) p live sent unfolding pass_ok_def same by (auto simp: extents_in_use_def)
  moreover have "pass_ok S bucket ?D d" if "passes D m = Some d" for m d
  proof -
    have "pass_ok S bucket ?D1 d"
      using 1 that by (auto simp: system_ok_def passes_ok_def)
    then show ?thesis
      unfolding pass_ok_def same use by simp
  qed
  ultimately have "passes_ok S bucket ?D"
    by (auto simp: passes_ok_def)
  then show ?thesis
    using 1 unfolding system_ok_def mounts_ok_def mount_ok_def writers_apart_def data_stored_def
      names_spent_def same use by simp
qed


lemma write_keeps:
  assumes "system_ok S bucket D" and m: "mounts D i = Some srv"
    and u: "usual (FuseWrite ino buf off fi) srv (metadata S (world D))"
    and s: "PulpfsWrite (site_env S) ino buf off fi srv (world D) = (rep, srv', w')"
  shows "system_ok S bucket (D\<lparr>mounts := (mounts D)(i \<mapsto> srv'), world := w'\<rparr>)"
  using s
proof (cases rule: write_moves)
  case nothing
  then have "D\<lparr>mounts := (mounts D)(i \<mapsto> srv'), world := w'\<rparr> = D"
    using m by (simp add: map_upd_triv)
  with assms(1) show ?thesis
    by simp
next
  case (put off' res)
  have mo: "mount_ok bucket D srv"
    using assms(1) m by (simp add: system_ok_def mounts_okD)
  then have "table_ok srv" "fs_bucket (fs_config srv) = bucket"
    by (simp_all add: mount_ok_def)
  have "ids_left srv"
    using u by (simp add: usual_def)
  have t: "table_ok srv'"
    by (rule table_step_ok [OF write_table [OF s] \<open>table_ok srv\<close> \<open>ids_left srv\<close>])
  have fit: "buf \<noteq> []" "unat off' + length buf < 2 ^ 64" "next_sequence (object_key_generator srv) \<noteq> -1"
    using u put(5) by (auto simp: usual_def room_for_def)
  show ?thesis
    using put_keeps [OF assms(1) m put(1) [unfolded \<open>fs_bucket (fs_config srv) = bucket\<close>] put(2)
        fit(3) put(3) t put(4) fit(1,2)] .
qed

lemma mount_up_keeps:
  assumes "system_ok S bucket D" and "mounts D i = None" and "wid \<notin> writers D" and "CHR ''/'' \<notin> set wid"
    and "fs_bucket cfg = bucket"
  shows "system_ok S bucket (D\<lparr>mounts := (mounts D)(i \<mapsto> FuseServer_init cfg wid), writers := insert wid (writers D)\<rparr>)"
    (is "system_ok S bucket ?D")
proof -
  have ok: "machine_ok (metadata S (world D))" "mounts_ok bucket D" "writers_apart D"
    using assms(1) by (simp_all add: system_ok_def)
  have init: "writer_id (object_key_generator (FuseServer_init cfg wid)) = wid" "pending_of (FuseServer_init cfg wid) = {}"
    "table_ok (FuseServer_init cfg wid)" "fs_config (FuseServer_init cfg wid) = cfg"
    by (simp_all add: FuseServer_init_def ObjectKeyGenerator_init_def pending_of_def table_ok_def)
  have other: "writer_id (object_key_generator srv) \<noteq> wid" if "mounts D j = Some srv" for j srv
    using mounts_okD [OF ok(2) that] assms(3) by (auto simp: mount_ok_def)
  show ?thesis
  proof (rule system_ok_quiet [OF assms(1)])
    show "advances D ?D"
      using assms(3) by (auto simp: advances_def init)
    have "mount_ok bucket ?D srv" if "mounts D j = Some srv" for j srv
      using mounts_okD [OF ok(2) that] by (auto simp: mount_ok_def)
    moreover have "mount_ok bucket ?D (FuseServer_init cfg wid)"
      using assms(4,5) by (simp add: mount_ok_def init)
    ultimately show "mounts_ok bucket ?D"
      by (auto simp: mounts_ok_def)
    show "writers_apart ?D"
      unfolding writers_apart_def
    proof (intro allI impI)
      fix j k sj sk
      assume m: "mounts ?D j = Some sj" "mounts ?D k = Some sk"
        and w: "writer_id (object_key_generator sj) = writer_id (object_key_generator sk)"
      consider "j = i" "k = i" | "j = i" "k \<noteq> i" | "j \<noteq> i" "k = i" | "j \<noteq> i" "k \<noteq> i"
        by blast
      then show "j = k"
      proof cases
        case 2
        then show ?thesis
          using m w other [of k sk] by (auto simp: init)
      next
        case 3
        then show ?thesis
          using m w other [of j sj] by (auto simp: init)
      next
        case 4
        then show ?thesis
          using m w writers_apartD [OF ok(3), of j sj k sk] by simp
      qed simp
    qed
    have "all_pending ?D \<subseteq> all_pending D"
      by (auto simp: all_pending_def init split: if_splits)
    then show "parts_of (extents_in_use S ?D) (extents_in_use S D)"
      by (intro parts_of_subset) (auto simp: extents_in_use_def)
  qed (use ok(1) in simp_all)
qed

lemma mount_down_keeps:
  assumes "system_ok S bucket D"
  shows "system_ok S bucket (D\<lparr>mounts := (mounts D)(i := None)\<rparr>)" (is "system_ok S bucket ?D")
proof -
  have ok: "machine_ok (metadata S (world D))" "mounts_ok bucket D" "writers_apart D"
    using assms by (simp_all add: system_ok_def)
  show ?thesis
  proof (rule system_ok_quiet [OF assms])
    show "advances D ?D"
      by (auto simp: advances_def split: if_splits)
    show "mounts_ok bucket ?D"
      using ok(2) by (simp add: mounts_ok_def mount_ok_def)
    show "writers_apart ?D"
      using ok(3) unfolding writers_apart_def by simp
    have "all_pending ?D \<subseteq> all_pending D"
      by (auto simp: all_pending_def split: if_splits)
    then show "parts_of (extents_in_use S ?D) (extents_in_use S D)"
      by (intro parts_of_subset) (auto simp: extents_in_use_def)
  qed (use ok(1) in simp_all)
qed

lemma pass_end_keeps:
  assumes "system_ok S bucket D"
  shows "system_ok S bucket (D\<lparr>passes := (passes D)(n := None)\<rparr>)" (is "system_ok S bucket ?D")
proof -
  have same: "extents_in_use S ?D = extents_in_use S D" "\<And>k. spent ?D k = spent D k"
    by (simp_all add: extents_in_use_def all_pending_def spent_def)
  have "passes_ok S bucket ?D"
    using assms unfolding system_ok_def passes_ok_def pass_ok_def same by simp
  then show ?thesis
    using assms unfolding system_ok_def mounts_ok_def mount_ok_def writers_apart_def data_stored_def
      names_spent_def same by simp
qed

lemma step_keeps:
  assumes "system_step S bucket ev D D'" and "system_ok S bucket D"
  shows "system_ok S bucket D'"
  using assms
proof (induction rule: system_step.induct)
  case (request D i srv r rep srv' w')
  show ?case
  proof (cases "is_write r")
    case True
    then obtain ino buf off fi where "r = FuseWrite ino buf off fi"
      by (auto simp: is_write_def split: request.splits)
    then show ?thesis
      using request by (auto intro!: write_keeps)
  qed (use request request_keeps in blast)
next
  case (pass_begin cfg D ls w' cutoff n)
  then show ?case
    by (intro pass_begin_keeps) simp_all
next
  case (pass_refused D e w' n)
  show ?case
    by (rule query_keeps [OF pass_refused.prems Client_asks(5) [OF pass_refused.hyps]])
qed (simp_all add: mount_up_keeps mount_down_keeps pass_page_keeps pass_object_keeps pass_end_keeps)

lemma fresh_ok:
  assumes "fresh_system S bucket D"
  shows "system_ok S bucket D"
proof -
  obtain chunk now where s: "metadata S (world D) = MetaState_init chunk now"
    using assms by (auto simp: fresh_system_def)
  have "extents_in_use S D = {}"
    using assms by (simp add: extents_in_use_def file_extents_def file_view_def s all_pending_def fresh_system_def)
  then show ?thesis
    using assms machine_ok_init
    by (simp add: system_ok_def fresh_system_def s mounts_ok_def writers_apart_def data_stored_def
        names_spent_def passes_ok_def)
qed

lemma reachable_ok: "system_reachable S bucket D \<Longrightarrow> system_ok S bucket D"
  by (induction rule: system_reachable.induct) (auto intro: fresh_ok step_keeps)

text \<open>No step changes an object in use.\<close>

lemma step_keeps_objects:
  assumes "system_step S bucket ev D D'" and "system_ok S bucket D" and "e \<in> extents_in_use S D"
  shows "object_bytes S (world D') bucket (object_key e) = object_bytes S (world D) bucket (object_key e)"
  using assms
proof (induction rule: system_step.induct)
  case (request D i srv r rep srv' w')
  have ok: "machine_ok (metadata S (world D))" "mounts_ok bucket D" "data_stored S bucket D" "names_spent S bucket D"
    using request.prems(1) by (simp_all add: system_ok_def)
  note mo = mounts_okD [OF ok(2) request.hyps(1)]
  then have t: "table_ok srv"
    by (simp add: mount_ok_def)
  show ?case
  proof (cases "is_write r")
    case True
    then obtain ino buf off fi where r: "r = FuseWrite ino buf off fi"
      by (auto simp: is_write_def split: request.splits)
    have "PulpfsWrite (site_env S) ino buf off fi srv (world D) = (rep, srv', w')"
      using request.hyps(3) r by simp
    then show ?thesis
    proof (cases rule: write_moves)
      case (put off' res)
      let ?key = "fst (MakeObjectKey (fs_object_prefix (fs_config srv)) ino off' (object_key_generator srv))"
      have "\<not> spent D ?key"
        using mo request.hyps(1) unfolding spent_def mount_ok_def by blast
      moreover have "spent D (object_key e)"
        using data_storedD [OF ok(3) request.prems(2)] ok(4) unfolding names_spent_def backed_def
        by (auto split: option.splits)
      ultimately have "object_key e \<noteq> ?key"
        by metis
      with put_sent [OF put(1)] show ?thesis
        by simp
    qed simp
  next
    case False
    obtain cs where cs: "served (meta_client (site_env S)) cs (world D) w'" "issues r srv cs" "no_new_data srv srv'"
      using serve_moves [OF request.hyps(3) t False] by (auto simp: moves_def)
    note sound = issued_sound [OF cs(2) request.hyps(2) mo False]
    from served_effect [OF cs(1) ok(1) sound(1,2)] show ?thesis
      by simp
  qed
next
  case (pass_begin cfg D ls w' cutoff n)
  then show ?case
    using query_sent [OF Client_asks(5) [OF pass_begin.hyps(2)]] by simp
next
  case (pass_refused D e w' n)
  then show ?case
    using query_sent [OF Client_asks(5) [OF pass_refused.hyps(1)]] by simp
next
  case (pass_object D n c obj rest counters w')
  then show ?case
    using pass_object_same [OF pass_object.prems(1) pass_object.hyps(1) _ pass_object.hyps(3) pass_object.prems(2)]
    by simp
qed simp_all

end

end
