(* ===== verification/Deployment_Runs.thy ===== *)
theory Deployment_Runs
  imports Deployment_Invariant Cluster_Properties
begin

text \<open>
  What stays over a run: an object is written once and never changed, so that the bytes of a
  file are fixed by its layout; a flush on one mount and an open on another meet there.
\<close>

section \<open>Objects are written once\<close>

context deployment begin

text \<open>A request either leaves the objects alone or puts one under a name not yet spent.\<close>

lemma request_effect:
  assumes ok: "system_ok S bucket D" and m: "mounts D i = Some srv" and u: "usual r srv (metadata S (world D))"
    and s: "serve (site_env S) r srv (world D) = (rep, srv', w')"
  shows "writer_id (object_key_generator srv') = writer_id (object_key_generator srv) \<and>
    next_sequence (object_key_generator srv) \<le> next_sequence (object_key_generator srv') \<and>
    (\<exists>key. \<not> spent D key \<and> (\<forall>k. k \<noteq> key \<longrightarrow>
       object_bytes S w' bucket k = object_bytes S (world D) bucket k) \<or>
     object_bytes S w' = object_bytes S (world D))"
proof -
  have ms: "machine_ok (metadata S (world D))" and mo: "mount_ok bucket D srv"
    using ok m by (auto simp: system_ok_def mounts_okD)
  show ?thesis
  proof (cases "is_write r")
    case True
    then obtain ino buf off fi where r: "r = FuseWrite ino buf off fi"
      by (auto simp: is_write_def split: request.splits)
    have "PulpfsWrite (site_env S) ino buf off fi srv (world D) = (rep, srv', w')"
      using s r by simp
    then show ?thesis
    proof (cases rule: write_moves)
      case (put off' res)
      let ?g = "object_key_generator srv"
      let ?key = "fst (MakeObjectKey (fs_object_prefix (fs_config srv)) ino off' ?g)"
      have "\<not> spent D ?key"
        using mo m unfolding spent_def mount_ok_def by blast
      moreover have "next_sequence ?g \<le> next_sequence ?g + 1"
        using u by (simp add: usual_def less_imp_le word_less_add_one)
      moreover have "object_bytes S w' bucket k = object_bytes S (world D) bucket k" if "k \<noteq> ?key" for k
        using put_sent [OF put(1)] that by simp
      ultimately show ?thesis
        using put(2) by (intro conjI exI [of _ ?key] disjI1) simp_all
    qed simp
  next
    case False
    have t: "table_ok srv"
      using mo by (simp add: mount_ok_def)
    obtain cs where cs: "served (meta_client (site_env S)) cs (world D) w'" "issues r srv cs" "no_new_data srv srv'"
      using serve_moves [OF s t False] by (auto simp: moves_def)
    note sound = issued_sound [OF cs(2) u mo False]
    from served_effect [OF cs(1) ms sound(1,2)] cs(3) show ?thesis
      by (simp add: no_new_data_def)
  qed
qed

lemma step_advances:
  assumes "system_step S bucket ev D D'" and "system_ok S bucket D"
  shows "advances D D'"
  using assms
proof (induction rule: system_step.induct)
  case (request D i srv r rep srv' w')
  from request_effect [OF request.prems request.hyps] request.hyps(1) show ?case
    by (auto simp: advances_def)
next
  case (mount_up D i wid cfg)
  then show ?case
    by (auto simp: advances_def FuseServer_init_def ObjectKeyGenerator_init_def)
qed (auto simp: advances_def)

lemma step_object:
  assumes "system_step S bucket ev D D'" and "system_ok S bucket D" and "spent D k"
  shows "object_bytes S (world D') bucket k \<in> {object_bytes S (world D) bucket k, None}"
  using assms
proof (induction rule: system_step.induct)
  case (request D i srv r rep srv' w')
  from request_effect [OF request.prems(1) request.hyps] request.prems(2)
  have "object_bytes S w' bucket k = object_bytes S (world D) bucket k"
    by metis
  then show ?case
    by simp
next
  case (pass_begin cfg D ls w' cutoff n)
  then show ?case
    using query_sent [OF Client_asks(5) [OF pass_begin.hyps(2)]] by simp
next
  case (pass_refused D e w' n)
  then show ?case
    using query_sent [OF Client_asks(5) [OF pass_refused.hyps(1)]] by simp
next
  case (pass_object D n c obj rest counters w')
  then show ?case
    using gc_object_sent [OF pass_object.hyps(3)] by (cases "object_bytes S w' bucket k") auto
qed simp_all

lemma run_object:
  assumes "system_run S bucket evs D D'" and "system_ok S bucket D" and "object_bytes S (world D) bucket k = Some body"
  shows "object_bytes S (world D') bucket k \<in> {Some body, None}"
proof -
  have "spent D k"
    using assms(2,3) by (simp add: system_ok_def names_spent_def)
  moreover have "object_bytes S (world D) bucket k \<in> {Some body, None}"
    using assms(3) by simp
  ultimately show ?thesis
    using assms(1,2)
  proof (induction evs arbitrary: D)
    case Nil
    then show ?case
      by (auto elim: system_run_endedE)
  next
    case (Cons ev evs)
    then obtain D1 where D1: "system_step S bucket ev D D1" "system_run S bucket evs D1 D'"
      by (auto elim: system_runE)
    have "object_bytes S (world D1) bucket k \<in> {Some body, None}"
      using step_object [OF D1(1) Cons.prems(4,1)] Cons.prems(2) by auto
    then show ?case
      using Cons.IH [of D1] D1 advances_spent [OF step_advances [OF D1(1) Cons.prems(4)] Cons.prems(1)]
        step_keeps [OF D1(1) Cons.prems(4)] by blast
  qed
qed

lemma run_ok: "system_run S bucket evs D D' \<Longrightarrow> system_ok S bucket D \<Longrightarrow> system_ok S bucket D'"
  by (induction rule: system_run.induct) (auto intro: step_keeps)

section \<open>The bytes of a file\<close>

text \<open>Every byte that a file names is in a stored object.\<close>

lemma content_backed:
  assumes "system_ok S bucket D" and "file_content (metadata S (world D)) i p = Some (k, at)"
  shows "\<exists>body. object_bytes S (world D) bucket k = Some body \<and> unat at < length body"
proof -
  let ?s = "metadata S (world D)"
  have ok: "data_ok ?s" "data_stored S bucket D"
    using assms(1) by (simp_all add: system_ok_def machine_ok_def)
  obtain l where l: "omap_lookup (layouts ?s) i = Some l" "content (extents l) p = Some (k, at)"
    using assms(2) by (auto simp: file_content_def split: option.splits)
  have "laid_out (extents l)"
    using ok(1) l(1) by (simp add: data_ok_def)
  then obtain e where e: "e \<in> set (extents l)" "covers e p" "source_of e p = (k, at)"
    using l(2) by (auto simp: content_Some_iff [OF laid_out_disjoint])
  have "e \<in> extents_in_use S D"
    using e(1) file_extents_layout [OF l(1)] by (auto simp: extents_in_use_def)
  from data_storedD [OF ok(2) this] obtain body where b: "proper e"
    "object_bytes S (world D) bucket (object_key e) = Some body"
    "unat (object_offset e) + unat (len e) \<le> length body" "length body < 2 ^ 64"
    by (auto simp: backed_def split: option.splits)
  have "unat (ExtentEnd e) = unat (offset e) + unat (len e)"
    using b(1) by (simp add: proper_iff ExtentEnd_def unat_word_ariths)
  moreover have "offset e \<le> p" "p < ExtentEnd e"
    using e(2) by (simp_all add: covers_def)
  ultimately have d: "unat (p - offset e) < unat (len e)"
    by (simp add: unat_sub word_le_nat_alt word_less_nat_alt)
  then have "unat (object_offset e) + unat (p - offset e) < 2 ^ LENGTH(64)"
    using b(3,4) by simp
  then have "unat (object_offset e + (p - offset e)) = unat (object_offset e) + unat (p - offset e)"
    by (simp add: unat_word_ariths)
  with b(2,3) d e(3) show ?thesis
    by (auto simp: source_of_def)
qed

text \<open>An object in use at both ends of a run is the same.\<close>

lemma run_in_use:
  assumes "system_run S bucket evs D D'" and "system_ok S bucket D"
    and "e \<in> extents_in_use S D" and "e \<in> extents_in_use S D'"
  shows "object_bytes S (world D') bucket (object_key e) = object_bytes S (world D) bucket (object_key e)"
proof -
  have ds: "data_stored S bucket D" "data_stored S bucket D'"
    using assms(2) run_ok [OF assms(1,2)] by (simp_all add: system_ok_def)
  obtain body where body: "object_bytes S (world D) bucket (object_key e) = Some body"
    using data_storedD [OF ds(1) assms(3)] by (auto simp: backed_def split: option.splits)
  have "object_bytes S (world D') bucket (object_key e) \<noteq> None"
    using data_storedD [OF ds(2) assms(4)] by (auto simp: backed_def split: option.splits)
  with run_object [OF assms(1,2) body] body show ?thesis
    by simp
qed

text \<open>Bytes that a content names at both ends of a run are the same.\<close>

lemma run_bytes:
  assumes "system_run S bucket evs D D'" and "system_ok S bucket D"
    and "\<And>k at. c p = Some (k, at) \<Longrightarrow> object_bytes S (world D) bucket k \<noteq> None \<and> object_bytes S (world D') bucket k \<noteq> None"
  shows "byte_of (object_bytes S (world D') bucket) c p = byte_of (object_bytes S (world D) bucket) c p"
proof (cases "c p")
  case (Some x)
  obtain k at where x: "x = (k, at)"
    by (cases x)
  obtain body where body: "object_bytes S (world D) bucket k = Some body"
    using assms(3) Some x by blast
  have "object_bytes S (world D') bucket k = Some body"
    using run_object [OF assms(1,2) body] assms(3) Some x by auto
  with body Some x show ?thesis
    by (simp add: byte_of_def)
qed (simp add: byte_of_def)

lemma run_file_bytes:
  assumes "system_run S bucket evs D D'" and "system_ok S bucket D"
    and "file_content (metadata S (world D')) i = file_content (metadata S (world D)) i"
  shows "byte_of (object_bytes S (world D') bucket) (file_content (metadata S (world D')) i) p =
    byte_of (object_bytes S (world D) bucket) (file_content (metadata S (world D)) i) p"
  unfolding assms(3)
proof (rule run_bytes [OF assms(1,2)])
  fix k at
  assume "file_content (metadata S (world D)) i p = Some (k, at)"
  then show "object_bytes S (world D) bucket k \<noteq> None \<and> object_bytes S (world D') bucket k \<noteq> None"
    using content_backed [OF assms(2), of i p k at]
      content_backed [OF run_ok [OF assms(1,2)], of i p k at] assms(3) by auto
qed

end

context deployment begin

lemma served_none: "served (meta_client (site_env S)) [] w w' \<Longrightarrow> metadata S w' = metadata S w"
proof (induction "[] :: RaftCommand list" w w' rule: served.induct)
  case (query w w1 w2)
  then show ?case
    using query_sent by simp
qed simp

lemma request_keeps_metadata:
  assumes "serve (site_env S) r srv w = (rep, srv', w')" and "keeps_metadata r"
  shows "metadata S w' = metadata S w"
proof (cases r)
  case (FuseWrite ino buf off fi)
  then have "PulpfsWrite (site_env S) ino buf off fi srv w = (rep, srv', w')"
    using assms(1) by simp
  then show ?thesis
    by (cases rule: write_moves) (auto dest: put_sent)
next
  case (FuseRead ino sz off fi)
  then show ?thesis
    using assms(1) read_moves [of "site_env S" ino sz off fi srv w] by simp
qed (use assms in \<open>auto simp: PulpfsForget_def PulpfsStatFs_def
    intro!: served_none dest: lookup_asks open_asks readdir_asks\<close>)

end
fun keeps_files :: "event \<Rightarrow> bool" where
  "keeps_files (Request i r rep) = keeps_metadata r"
| "keeps_files _ = True"

context deployment begin

lemma step_keeps_metadata:
  assumes "system_step S bucket ev D D'" and "keeps_files ev"
  shows "metadata S (world D') = metadata S (world D)"
  using assms
proof (induction rule: system_step.induct)
  case (request D i srv r rep srv' w')
  then show ?case
    using request_keeps_metadata [OF request.hyps(3)] by simp
next
  case (pass_begin cfg D ls w' cutoff n)
  then show ?case
    using query_sent [OF Client_asks(5) [OF pass_begin.hyps(2)]] by simp
next
  case (pass_refused D e w' n)
  then show ?case
    using query_sent [OF Client_asks(5) [OF pass_refused.hyps(1)]] by simp
next
  case (pass_object D n c obj rest counters w')
  then show ?case
    using gc_object_sent [OF pass_object.hyps(3)] by simp
qed simp_all

lemma run_keeps_metadata:
  assumes "system_run S bucket evs D D'" and "list_all keeps_files evs"
  shows "metadata S (world D') = metadata S (world D)"
  using assms by (induction rule: system_run.induct) (simp_all add: step_keeps_metadata)

end

section \<open>A pass is a run\<close>

text \<open>The state after the objects of a page were gone through.\<close>

lemma objects_run:
  assumes "passes D m = Some c" and "pass_queue c = objs"
    and "gc_objects (site_delete S) (gc_bucket (pass_config c)) (dry_run (pass_config c)) (pass_live c)
      (pass_cutoff c) objs (pass_counters c, world D) = (n, w')"
  shows "system_run S bucket (map (\<lambda>_. PassObject m) objs) D
    (D\<lparr>passes := (passes D)(m \<mapsto> c\<lparr>pass_counters := n, pass_queue := []\<rparr>), world := w'\<rparr>)"
  using assms
proof (induction objs arbitrary: D c)
  case Nil
  then have same: "D\<lparr>passes := (passes D)(m \<mapsto> c\<lparr>pass_counters := n, pass_queue := []\<rparr>), world := w'\<rparr> = D"
    by (simp add: gc_objects_def map_upd_triv)
  show ?case
    unfolding same list.map by (rule system_run.ended)
next
  case (Cons obj objs)
  obtain n1 w1 where g: "gc_object (site_delete S) (gc_bucket (pass_config c)) (dry_run (pass_config c)) (pass_live c)
      (pass_cutoff c) obj (pass_counters c, world D) = (n1, w1)"
    by fastforce
  let ?c = "c\<lparr>pass_counters := n1, pass_queue := objs\<rparr>"
  let ?D = "D\<lparr>passes := (passes D)(m \<mapsto> ?c), world := w1\<rparr>"
  have "system_run S bucket (map (\<lambda>_. PassObject m) objs) ?D
      (?D\<lparr>passes := (passes ?D)(m \<mapsto> ?c\<lparr>pass_counters := n, pass_queue := []\<rparr>), world := w'\<rparr>)"
    by (rule Cons.IH) (use Cons.prems(3) g in \<open>simp_all add: gc_objects_def\<close>)
  then have "system_run S bucket (map (\<lambda>_. PassObject m) objs) ?D
      (D\<lparr>passes := (passes D)(m \<mapsto> c\<lparr>pass_counters := n, pass_queue := []\<rparr>), world := w'\<rparr>)"
    by simp
  with system_step.pass_object [OF Cons.prems(1,2) g] show ?case
    unfolding list.map by (rule system_run.more)
qed

text \<open>A run that brings a pass to a result.\<close>

definition pass_reaches :: "'w site \<Rightarrow> string \<Rightarrow> nat \<Rightarrow> 'w system \<Rightarrow> (Error + GcCounters) \<times> 'w \<Rightarrow> bool" where
  "pass_reaches S bucket m D r \<longleftrightarrow> (\<exists>evs D' c. system_run S bucket evs D D' \<and> list_all keeps_files evs \<and>
     world D' = snd r \<and> mounts D' = mounts D \<and> passes D' m = Some c \<and> (\<forall>n. fst r = Inr n \<longrightarrow> pass_counters c = n))"

lemma pass_reachesI:
  "system_run S bucket evs D D' \<Longrightarrow> list_all keeps_files evs \<Longrightarrow> world D' = snd r \<Longrightarrow> mounts D' = mounts D \<Longrightarrow> passes D' m = Some c \<Longrightarrow>
    (\<And>n. fst r = Inr n \<Longrightarrow> pass_counters c = n) \<Longrightarrow> pass_reaches S bucket m D r"
  unfolding pass_reaches_def by blast

lemma pass_reaches_more:
  assumes "system_run S bucket evs D D1" and "list_all keeps_files evs" and "mounts D1 = mounts D"
    and "pass_reaches S bucket m D1 r"
  shows "pass_reaches S bucket m D r"
proof -
  obtain evs2 D' c where r: "system_run S bucket evs2 D1 D'" "list_all keeps_files evs2" "world D' = snd r" "mounts D' = mounts D1"
    "passes D' m = Some c" "\<forall>n. fst r = Inr n \<longrightarrow> pass_counters c = n"
    using assms(4) by (auto simp: pass_reaches_def)
  have "system_run S bucket (evs @ evs2) D D'"
    unfolding system_run_append using assms(1) r(1) by blast
  with r assms(2,3) show ?thesis
    by (intro pass_reachesI [where D' = D' and evs = "evs @ evs2"]) simp_all
qed

text \<open>One page of the listing.\<close>

lemma page_run:
  assumes "passes D m = Some c" and "pass_queue c = []" and "pass_token c = Some token"
    and "site_list S \<lparr>list_bucket = gc_bucket (pass_config c), list_prefix = ChunkPrefix (object_prefix (pass_config c)),
      continuation_token = token\<rparr> (world D) = Inr page"
    and "gc_objects (site_delete S) (gc_bucket (pass_config c)) (dry_run (pass_config c)) (pass_live c)
      (pass_cutoff c) (objects page) (pass_counters c, world D) = (n, w)"
  obtains evs D' where "system_run S bucket evs D D'" and "list_all keeps_files evs" and "world D' = w"
    and "mounts D' = mounts D" and "passes D' m = Some (c\<lparr>pass_counters := n, pass_token :=
      (if next_continuation_token page = [] then None else Some (next_continuation_token page)), pass_queue := []\<rparr>)"
proof -
  let ?c = "c\<lparr>pass_token := (if next_continuation_token page = [] then None
    else Some (next_continuation_token page)), pass_queue := objects page\<rparr>"
  let ?D = "D\<lparr>passes := (passes D)(m \<mapsto> ?c)\<rparr>"
  have "system_step S bucket (PassPage m) D ?D"
    by (rule system_step.pass_page [OF assms(1-4)])
  moreover have "system_run S bucket (map (\<lambda>_. PassObject m) (objects page)) ?D
      (?D\<lparr>passes := (passes ?D)(m \<mapsto> ?c\<lparr>pass_counters := n, pass_queue := []\<rparr>), world := w\<rparr>)"
    by (rule objects_run) (simp_all add: assms(5))
  ultimately have "system_run S bucket (PassPage m # map (\<lambda>_. PassObject m) (objects page)) D
      (?D\<lparr>passes := (passes ?D)(m \<mapsto> ?c\<lparr>pass_counters := n, pass_queue := []\<rparr>), world := w\<rparr>)"
    by (rule system_run.more)
  then show thesis
    by (rule that) (simp_all add: list_all_iff)
qed

lemma pages_run:
  fixes S :: "'w site" and D :: "'w system"
  assumes "gc_pages (site_list S) (site_delete S) (gc_bucket cfg) (ChunkPrefix (object_prefix cfg)) (dry_run cfg)
      L cutoff token (n, world D) = Some (res, w')"
    and "passes D m = Some \<lparr>pass_config = cfg, pass_live = L, pass_cutoff = cutoff, pass_counters = n,
      pass_token = Some token, pass_queue = []\<rparr>"
  shows "pass_reaches S bucket m D (res, w')"
proof -
  define P where "P = (\<lambda>token st (r :: (Error + GcCounters) \<times> 'w). \<forall>D :: 'w system. snd st = world D \<longrightarrow> passes D m = Some \<lparr>pass_config = cfg, pass_live = L,
      pass_cutoff = cutoff, pass_counters = fst st, pass_token = Some token, pass_queue = []\<rparr> \<longrightarrow>
    pass_reaches S bucket m D r)"
  have "P token (n, world D) (res, w')"
  proof (rule gc_pages.raw_induct [where P = "\<lambda>list delete b pfx dry L' cut token st r.
      list = site_list S \<longrightarrow> delete = site_delete S \<longrightarrow> b = gc_bucket cfg \<longrightarrow> pfx = ChunkPrefix (object_prefix cfg) \<longrightarrow>
      dry = dry_run cfg \<longrightarrow> L' = L \<longrightarrow> cut = cutoff \<longrightarrow> P token st r", OF _ assms(1), rule_format])
    fix rec list_objects delete b pfx dry L' cut token st
    fix r :: "(Error + GcCounters) \<times> 'w"
    assume IH: "\<And>list_objects delete b pfx dry L' cut token st r.
        rec list_objects delete b pfx dry L' cut token st = Some r \<Longrightarrow>
        list_objects = site_list S \<Longrightarrow> delete = site_delete S \<Longrightarrow> b = gc_bucket cfg \<Longrightarrow>
        pfx = ChunkPrefix (object_prefix cfg) \<Longrightarrow> dry = dry_run cfg \<Longrightarrow> L' = L \<Longrightarrow> cut = cutoff \<Longrightarrow> P token st r"
      and step: "(case list_objects
          \<lparr>list_bucket = b, list_prefix = pfx, continuation_token = token\<rparr> (snd st) of
        Inl e \<Rightarrow> Some (Inl e, snd st)
      | Inr page \<Rightarrow>
          let st = gc_objects delete b dry L' cut (objects page) st
          in if next_continuation_token page = [] then Some (Inr (fst st), snd st)
             else rec list_objects delete b pfx dry L' cut (next_continuation_token page) st) = Some r"
      and eqs: "list_objects = site_list S" "delete = site_delete S" "b = gc_bucket cfg"
        "pfx = ChunkPrefix (object_prefix cfg)" "dry = dry_run cfg" "L' = L" "cut = cutoff"
    show "P token st r"
      unfolding P_def
    proof (intro allI impI)
      fix D :: "'w system"
      assume w: "snd st = world D" and c: "passes D m = Some \<lparr>pass_config = cfg, pass_live = L,
        pass_cutoff = cutoff, pass_counters = fst st, pass_token = Some token, pass_queue = []\<rparr>"
      show "pass_reaches S bucket m D r"
      proof (cases "site_list S \<lparr>list_bucket = gc_bucket cfg, list_prefix = ChunkPrefix (object_prefix cfg),
          continuation_token = token\<rparr> (world D)")
        case (Inl e)
        then have "r = (Inl e, world D)"
          using step w eqs by simp
        then show ?thesis
          using c by (intro pass_reachesI [OF system_run.ended]) simp_all
      next
        case (Inr page)
        obtain n2 w2 where g: "gc_objects (site_delete S) (gc_bucket cfg) (dry_run cfg) L cutoff (objects page) st = (n2, w2)"
          by fastforce
        then have g': "gc_objects (site_delete S) (gc_bucket cfg) (dry_run cfg) L cutoff (objects page)
            (fst st, world D) = (n2, w2)"
          using w by (metis prod.collapse)
        obtain evs D2 where run: "system_run S bucket evs D D2" "list_all keeps_files evs" "world D2 = w2"
          "mounts D2 = mounts D" "passes D2 m = Some \<lparr>pass_config = cfg, pass_live = L, pass_cutoff = cutoff,
             pass_counters = n2, pass_token = (if next_continuation_token page = [] then None
               else Some (next_continuation_token page)), pass_queue = []\<rparr>"
          by (rule page_run [OF c, of token S page n2 w2 bucket]) (use Inr g' in auto)
        show ?thesis
        proof (cases "next_continuation_token page = []")
          case True
          then have "r = (Inr n2, w2)"
            using step Inr g w eqs by (simp add: Let_def)
          then show ?thesis
            using run by (intro pass_reachesI [OF run(1,2) _ _ run(5)]) auto
        next
          case False
          then have "rec (site_list S) (site_delete S) (gc_bucket cfg) (ChunkPrefix (object_prefix cfg)) (dry_run cfg)
              L cutoff (next_continuation_token page) (n2, w2) = Some r"
            using step Inr g w eqs by (simp add: Let_def)
          then have "P (next_continuation_token page) (n2, w2) r"
            by (rule IH) simp_all
          then have "pass_reaches S bucket m D2 r"
            using False run(3,5) unfolding P_def by simp
          then show ?thesis
            by (rule pass_reaches_more [OF run(1,2,4)])
        qed
      qed
    qed
  qed simp_all
  then show ?thesis
    unfolding P_def using assms(2) by simp
qed

inductive_cases pass_beginE: "system_step S bucket (PassBegin m cfg) D D1"

text \<open>\<open>RunOnce\<close> from its listing of live objects on.\<close>

lemma pass_run:
  assumes "system_step S bucket (PassBegin m cfg) D D1"
    and "RunOnce (Client_ListLiveObjects (meta_client (site_env S))) (site_list S) (site_delete S)
      (clock_ms S (world D1)) cfg (world D) = Some (code, w')"
    and "bucket \<noteq> []" and "s3_endpoint cfg \<noteq> []"
  obtains evs D2 where "system_run S bucket (PassBegin m cfg # evs) D D2" "system_run S bucket evs D1 D2"
    "list_all keeps_files (PassBegin m cfg # evs)" "world D2 = w'" "mounts D2 = mounts D"
proof -
  obtain ls w1 cutoff where b: "gc_bucket cfg = bucket" "cutoff = cutoff_ms (clock_ms S w1) (grace_seconds cfg)"
    "Client_ListLiveObjects (meta_client (site_env S)) (world D) = (Inr ls, w1)"
    "D1 = D\<lparr>passes := (passes D)(m \<mapsto> \<lparr>pass_config = cfg, pass_live = set ls, pass_cutoff = cutoff,
      pass_counters = GcCounters_init, pass_token = Some [], pass_queue = []\<rparr>), world := w1\<rparr>"
    using assms(1) by (auto elim!: pass_beginE)
  obtain res where "gc_pages (site_list S) (site_delete S) (gc_bucket cfg) (ChunkPrefix (object_prefix cfg))
      (dry_run cfg) (set ls) cutoff [] (GcCounters_init, world D1) = Some (res, w')"
    using assms(2-4) b by (auto simp: RunOnce_def split: option.splits sum.splits prod.splits)
  then have "pass_reaches S bucket m D1 (res, w')"
    by (rule pages_run) (simp add: b(4))
  then obtain evs D2 where e: "system_run S bucket evs D1 D2" "list_all keeps_files evs" "world D2 = w'"
    "mounts D2 = mounts D1"
    by (auto simp: pass_reaches_def)
  show thesis
    by (rule that [OF system_run.more [OF assms(1) e(1)] e(1) _ e(3)]) (simp_all add: e b(4))
qed

section \<open>Close to open\<close>

inductive_cases request_stepE: "system_step S bucket (Request i r rep) D D'"

lemma overwrite_all_keys:
  "overwrite_all es c p = Some (k, at) \<Longrightarrow> c p = Some (k, at) \<or> (\<exists>e\<in>set es. object_key e = k)"
proof (induction es arbitrary: c)
  case (Cons e es)
  then show ?case
    by (fastforce simp: overwrite_def source_of_def split: if_splits)
qed simp

lemma GetLayout_view:
  "GetLayout i s = Ok l \<Longrightarrow> file_view s i = Some (file_size s i, extents l)"
  by (auto simp: GetLayout_def file_view_def split: sum.splits option.splits)

lemma GetLayout_extents: "GetLayout i s = Ok l \<Longrightarrow> set (extents l) \<subseteq> file_extents s"
  by (auto dest!: GetLayout_view simp: file_extents_def)

context deployment begin

text \<open>The extents a handle shows are stored, when its layout is the current one.\<close>

lemma handle_backed:
  assumes ok: "system_ok S bucket D" and m: "mounts D i = Some srv" and h: "handles srv k = Some h"
    and lay: "GetLayout (h_inode_id h) (metadata S (world D)) = Ok (layout h)"
    and adm: "admissible (file_size (metadata S (world D)) (h_inode_id h)) (pending_append_extents h)"
  shows "\<forall>x\<in>set (extents (layout h)) \<union> set (pending_extents h) \<union> set (visible_appends h).
    backed (object_bytes S (world D) bucket) x"
proof -
  let ?s = "metadata S (world D)"
  have ds: "data_stored S bucket D" and ms: "machine_ok ?s"
    using ok by (simp_all add: system_ok_def)
  have pend: "set (pending_extents h) \<union> set (pending_append_extents h) \<subseteq> extents_in_use S D"
    using h all_pending_mount [OF m] by (auto simp: pending_of_def extents_in_use_def)
  have "set (extents (layout h)) \<subseteq> extents_in_use S D"
    using GetLayout_extents [OF lay] by (auto simp: extents_in_use_def)
  moreover have "backed (object_bytes S (world D) bucket) x" if x: "x \<in> set (visible_appends h)" for x
  proof -
    obtain e where e: "e \<in> set (pending_append_extents h)" "x = shift_extent (file_size ?s (h_inode_id h)) e"
      using x GetLayout_shows(3) [OF ms lay] by (auto simp: visible_appends_def shift_extent_def)
    moreover have "part_of x e"
      unfolding e(2) using adm e(1) by (intro part_of_shift) (simp_all add: admissible_def)
    ultimately show ?thesis
      using data_storedD [OF ds] pend by (blast intro: backed_part)
  qed
  ultimately show ?thesis
    using data_storedD [OF ds] pend by blast
qed

text \<open>What such a handle reads.\<close>

lemma read_request:
  assumes "fs_bucket (fs_config srv) = bucket" and "has_object_store srv" and "handles srv (fh fi) = Some h"
    and "\<forall>x\<in>set (extents (layout h)) \<union> set (pending_extents h) \<union> set (visible_appends h).
      backed (object_bytes S w bucket) x"
    and "0 \<le> sint off" and "unat off + unat sz < 2 ^ 64"
  shows "PulpfsRead (site_env S) ino sz off fi srv w =
    (reply_buf (map (\<lambda>q. byte_of (object_bytes S w bucket) (handle_content h) (off + of_nat q))
       [0..<min (unat sz) (unat (visible_size h) - unat off)]), srv, w)"
  using read_handle [OF assms(4-6)] assms(1-3) by (simp add: PulpfsRead_def GetFileHandle_def)

text \<open>A flush and an open, as steps.\<close>

lemma flush_step:
  assumes link: "metadata_link svc parse serialize (=) (meta_client (site_env S))" and meta: "metadata S = state_of svc"
    and ok: "system_ok S bucket D" and m: "mounts D i = Some srv" and h: "GetFileHandle (fh fi) srv = Some h"
    and lay: "GetLayout (h_inode_id h) (metadata S (world D)) = Ok (layout h)"
    and flush: "system_step S bucket (Request i (FuseFlush ino fi) reply_done) D D1"
  shows "file_content (metadata S (world D1)) (h_inode_id h) = handle_content h"
    and "file_size (metadata S (world D1)) (h_inode_id h) = visible_size h"
    and "admissible (file_size (metadata S (world D)) (h_inode_id h)) (pending_append_extents h)"
proof -
  let ?n = "h_inode_id h" and ?s = "\<lambda>D. metadata S (world D)"
  have mo: "mount_ok bucket D srv" and ms: "machine_ok (?s D)" and k: "handles srv (fh fi) = Some h"
    using ok m h by (auto simp: system_ok_def mounts_okD GetFileHandle_def)
  obtain srv' w' where f: "commit_fits (fh fi) srv (?s D)"
    "PulpfsFlush (site_env S) ino fi srv (world D) = (reply_done, srv', w')" "world D1 = w'"
    using flush m by (auto elim!: request_stepE simp: usual_def)
  note adm = pending_admissible [OF mo f(1) k]
  show "file_content (?s D1) ?n = handle_content h" "file_size (?s D1) ?n = visible_size h"
    using flush_effect [OF link refl h _ _ _ adm(1) _ f(2)] mo ms lay adm(2) f(3)
    by (simp_all add: meta mount_ok_def)
  show "admissible (file_size (?s D) ?n) (pending_append_extents h)"
    by (rule adm(2))
qed

lemma open_step:
  assumes link: "metadata_link svc parse serialize (=) (meta_client (site_env S))" and meta: "metadata S = state_of svc"
    and ok: "system_ok S bucket D" and opened: "system_step S bucket (Request j (FuseOpen n fo) (reply_open fo')) D D'"
    and flags: "and (fi_flags fo) O_TRUNC = 0" and m: "mounts D' j = Some srv"
  obtains h where "handles srv (fh fo') = Some h" and "h_inode_id h = n" and "pending_append_extents h = []"
    and "handle_content h = file_content (metadata S (world D)) n"
    and "visible_size h = file_size (metadata S (world D)) n"
    and "GetLayout n (metadata S (world D')) = Ok (layout h)" and "metadata S (world D') = metadata S (world D)"
proof -
  have ms: "machine_ok (metadata S (world D))"
    using ok by (simp add: system_ok_def)
  obtain srv0 w' where o: "PulpfsOpen (site_env S) n fo srv0 (world D) = (reply_open fo', srv, w')" "world D' = w'"
    using opened m by (auto elim!: request_stepE)
  obtain h where h: "handles srv (fh fo') = Some h" "h_inode_id h = n"
    "handle_content h = file_content (metadata S (world D)) n" "visible_size h = file_size (metadata S (world D)) n"
    "GetLayout n (metadata S (world D')) = Ok (layout h)" "metadata S (world D') = metadata S (world D)"
    using open_effect [OF link refl _ flags o(1)] ms by (auto simp: meta GetFileHandle_def o(2))
  have "pending_append_extents h = []"
    using o(1) h(1) by (auto simp: PulpfsOpen_def AllocateFileHandle_def Let_def new_handle_pending
        split: prod.splits sum.splits if_splits)
  with h show thesis
    by (intro that)
qed

lemma backed_content:
  assumes "handle_content g p = Some (k, at)"
    and "\<forall>x\<in>set (extents (layout g)) \<union> set (pending_extents g) \<union> set (visible_appends g). backed obj x"
  shows "obj k \<noteq> None"
proof -
  obtain e where "e \<in> set (extents (layout g)) \<union> set (pending_extents g) \<union> set (visible_appends g)" "object_key e = k"
    using assms(1) unfolding handle_content_def by (blast dest: overwrite_all_keys)
  with assms(2) show ?thesis
    by (auto simp: backed_def split: option.splits)
qed

lemma close_open:
  assumes link: "metadata_link svc parse serialize (=) (meta_client (site_env S))" and meta: "metadata S = state_of svc"
    and ok: "system_ok S bucket D" and m: "mounts D i = Some srv" and h: "GetFileHandle (fh fi) srv = Some h"
    and lay: "GetLayout (h_inode_id h) (metadata S (world D)) = Ok (layout h)"
    and flush: "system_step S bucket (Request i (FuseFlush ino fi) reply_done) D D1"
    and run: "system_run S bucket evs D1 D2"
    and view: "file_view (metadata S (world D2)) (h_inode_id h) = file_view (metadata S (world D1)) (h_inode_id h)"
    and opened: "system_step S bucket (Request j (FuseOpen (h_inode_id h) fo) (reply_open fo')) D2 D3"
    and "and (fi_flags fo) O_TRUNC = 0"
    and m3: "mounts D3 j = Some srvj" and store: "has_object_store srv" "has_object_store srvj"
    and off: "0 \<le> sint off" "unat off + unat sz < 2 ^ 64"
  shows "\<exists>out. PulpfsRead (site_env S) ino sz off fi srv (world D) = (reply_buf out, srv, world D) \<and>
    PulpfsRead (site_env S) (h_inode_id h) sz off fo' srvj (world D3) = (reply_buf out, srvj, world D3)"
proof -
  let ?n = "h_inode_id h" and ?s = "\<lambda>D. metadata S (world D)"
  have k: "handles srv (fh fi) = Some h"
    using h by (simp add: GetFileHandle_def)
  note flushed = flush_step [OF link meta ok m h lay flush]
  note ok2 = run_ok [OF run step_keeps [OF flush ok]]
  note ok3 = step_keeps [OF opened ok2]
  obtain h3 where h3: "handles srvj (fh fo') = Some h3" "h_inode_id h3 = ?n" "pending_append_extents h3 = []"
    "handle_content h3 = file_content (?s D2) ?n" "visible_size h3 = file_size (?s D2) ?n"
    "GetLayout ?n (?s D3) = Ok (layout h3)" "?s D3 = ?s D2"
    by (rule open_step [OF link meta ok2 opened assms(11) m3])
  have "file_size (?s D2) ?n = file_size (?s D1) ?n" "file_content (?s D2) ?n = file_content (?s D1) ?n"
    using view file_view_SomeD [OF GetLayout_view, of ?n "?s D2"] h3(6,7) GetLayout_view [of ?n "?s D2"]
      file_view_SomeD [of "?s D1" ?n] by auto
  then have same: "handle_content h3 = handle_content h" "visible_size h3 = visible_size h"
    using h3(4,5) flushed(1,2) by simp_all
  note backed = handle_backed [OF ok m k lay flushed(3)]
  have backed3: "\<forall>x\<in>set (extents (layout h3)) \<union> set (pending_extents h3) \<union> set (visible_appends h3).
      backed (object_bytes S (world D3) bucket) x"
    by (rule handle_backed [OF ok3 m3 h3(1)]) (simp_all add: h3(2,3,6))
  have buckets: "fs_bucket (fs_config srv) = bucket" "fs_bucket (fs_config srvj) = bucket"
    using mounts_okD [of bucket D i srv] mounts_okD [of bucket D3 j srvj] ok ok3 m m3
    by (simp_all add: mount_ok_def system_ok_def)
  have "system_run S bucket (evs @ [Request j (FuseOpen ?n fo) (reply_open fo')]) D1 D3"
    unfolding system_run_append using run system_run.more [OF opened system_run.ended] by blast
  with flush have whole: "system_run S bucket (Request i (FuseFlush ino fi) reply_done # evs @
      [Request j (FuseOpen ?n fo) (reply_open fo')]) D D3"
    by (rule system_run.more)
  have "byte_of (object_bytes S (world D3) bucket) (handle_content h) p =
      byte_of (object_bytes S (world D) bucket) (handle_content h) p" for p
    by (rule run_bytes [OF whole ok]) (use backed_content [OF _ backed] backed_content [OF _ backed3] same in simp)
  then show ?thesis
    using read_request [OF buckets(1) store(1) k backed off] read_request [OF buckets(2) store(2) h3(1) backed3 off]
      same by simp
qed

end

end
