(* ===== verification/Local_Site.thy ===== *)
theory Local_Site
  imports Deployment_Runs
begin

text \<open>
  A site of one node: the metadata service of \<^theory_text>\<open>Local_Cluster\<close> beside the store of the tests,
  with a date for each object and a clock that moves with every write.  It meets the contract
  of \<open>deployment\<close>, and an interpreter of actions makes its runs computable.
\<close>

section \<open>A store with dates\<close>

record dated_store =
  now_ms :: i64
  stored :: FakeObjectStore
  stored_at :: "(string \<times> string, i64) omap"

definition tick :: "i64 \<Rightarrow> i64" where
  "tick t = (if sint t < 2 ^ 62 then t + 60000 else t)"

lemma tick_forward: "sint t \<le> sint (tick t)"
proof (cases "sint t < 2 ^ 62")
  case True
  have s: "sint (60000 :: i64) = 60000"
    by code_simp
  have "- (2 ^ 63) \<le> sint t"
    using sint_ge [of t] by simp
  then have "signed_take_bit (LENGTH(64) - 1) (sint t + sint (60000 :: i64)) = sint t + sint (60000 :: i64)"
    unfolding s using True by (intro signed_take_bit_int_eq_self) simp_all
  then have "sint (t + 60000) = sint t + sint (60000 :: i64)"
    unfolding sint_word_ariths(1) .
  with True show ?thesis
    by (simp add: tick_def s)
qed (simp add: tick_def)

definition dated_put :: "PutObjectRequest \<Rightarrow> dated_store \<Rightarrow> PutObjectResult Result \<times> dated_store" where
  "dated_put req d = (case Fake_PutObject req (stored d) of (r, m) \<Rightarrow>
     (r, \<lparr>now_ms = tick (now_ms d), stored = m,
          stored_at = omap_put (put_bucket req, put_key req) (now_ms d) (stored_at d)\<rparr>))"

definition dated_delete :: "DeleteObjectRequest \<Rightarrow> dated_store \<Rightarrow> unit Result \<times> dated_store" where
  "dated_delete req d = (case Fake_DeleteObject req (stored d) of (r, m) \<Rightarrow> (r, d\<lparr>stored := m\<rparr>))"

definition date_of :: "dated_store \<Rightarrow> string \<Rightarrow> string \<Rightarrow> i64" where
  "date_of d b k = (case omap_lookup (stored_at d) (b, k) of None \<Rightarrow> 0 | Some t \<Rightarrow> t)"

definition dated_list :: "ListObjectsRequest \<Rightarrow> dated_store \<Rightarrow> ListObjectsResult Result" where
  "dated_list req d = (case Fake_ListObjects req (stored d) of
     Inl e \<Rightarrow> Inl e
   | Inr page \<Rightarrow> Inr (page\<lparr>objects :=
       map (\<lambda>obj. obj\<lparr>last_modified_ms := date_of d (list_bucket req) (info_key obj)\<rparr>) (objects page)\<rparr>))"

section \<open>The metadata service, computable\<close>

text \<open>A proposal to the one node, without the detour over bytes.\<close>

definition local_run :: "RaftCommand \<Rightarrow> MetaState \<times> 'o \<Rightarrow> RaftCommandResponse option \<times> MetaState \<times> 'o" where
  "local_run c w = (case apply_command c (\<lambda>_. 5) (fst w) of
     (Ok r, s) \<Rightarrow> (Some r, (s, snd w))
   | (Err e, s) \<Rightarrow> (Some (MakeErrorResponse e), (s, snd w))
   | (OutOfRange, s) \<Rightarrow> (None, (s, snd w))
   | (NoReturn, s) \<Rightarrow> (None, (s, snd w)))"

lemma local_ProposeSync:
  "ProposeSync local_node (print_message c) w = (case local_run c w of
     (Some r, w) \<Rightarrow> (Inr (print_message r), w) | (None, w) \<Rightarrow> (Inl applied_elsewhere, w))"
  by (auto simp: local_node_def local_run_def Apply_def split: prod.splits outcome.splits)

definition inode_answer :: "RaftCommandResponse option \<Rightarrow> InodeAttrs Result" where
  "inode_answer r = (case r of
     None \<Rightarrow> Inl (FromRaftError applied_elsewhere)
   | Some (ErrorResponseOf e) \<Rightarrow> Inl (ErrorFromResponse e)
   | Some (AttrsResponse a) \<Rightarrow> Inr a
   | Some _ \<Rightarrow> Inl (MakeError Internal ''raft command returned no inode attrs''))"

definition append_answer :: "RaftCommandResponse option \<Rightarrow> AppendWriteReply Result" where
  "append_answer r = (case r of
     None \<Rightarrow> Inl (FromRaftError applied_elsewhere)
   | Some (ErrorResponseOf e) \<Rightarrow> Inl (ErrorFromResponse e)
   | Some (AppendWriteResponse a) \<Rightarrow> Inr a
   | Some _ \<Rightarrow> Inl (MakeError Internal ''raft command returned no append write result''))"

lemma local_inode: "ProposeInodeCommand local_service c w = map_prod inode_answer id (local_run c w)"
  by (cases "local_run c w"; cases "fst (local_run c w)")
    (auto simp: ProposeInodeCommand_def local_service_def local_ProposeSync inode_answer_def
      local_node_def [THEN arg_cong [of _ _ SerializeCommand]] local_node_def [THEN arg_cong [of _ _ ParseResponse]])

lemma local_append: "ProposeAppendWriteCommand local_service c w = map_prod append_answer id (local_run c w)"
  by (cases "local_run c w"; cases "fst (local_run c w)")
    (auto simp: ProposeAppendWriteCommand_def local_service_def local_ProposeSync append_answer_def
      local_node_def [THEN arg_cong [of _ _ SerializeCommand]] local_node_def [THEN arg_cong [of _ _ ParseResponse]])

lemma local_read:
  "read_handler local_service ctxt query w = ((case query (fst w) of
     Ok a \<Rightarrow> Some (Inr a) | Err e \<Rightarrow> Some (Inl (ToGrpcStatus e)) | _ \<Rightarrow> None), w)"
  by (simp add: read_handler_def LinearizableRead_def local_service_def local_node_def)

definition local_stub :: "(MetaState \<times> dated_store) stub" where
  "local_stub = direct_stub local_service"

definition local_inode_call :: "RaftCommand \<Rightarrow> (InodeAttrs, MetaState \<times> 'o) rpc" where
  "local_inode_call c w = direct default_attrs (map_prod (reply_of \<circ> inode_answer) id (local_run c w))"

definition local_read_call :: "'a \<Rightarrow> (MetaState \<Rightarrow> 'a outcome) \<Rightarrow> ('a, MetaState \<times> 'o) rpc" where
  "local_read_call d query w = direct_read d ((case query (fst w) of
     Ok a \<Rightarrow> Some (Inr a) | Err e \<Rightarrow> Some (Inl (ToGrpcStatus e)) | _ \<Rightarrow> None), w)"

lemma local_stub_code [code]:
  "local_stub = \<lparr>
     stub_Mkdir = \<lambda>p n mode uid gid. local_inode_call (MkdirCommand p n mode uid gid),
     stub_CreateFile = \<lambda>p n mode uid gid. local_inode_call (CreateFileCommand p n mode uid gid),
     stub_Lookup = \<lambda>p n. local_read_call default_attrs (Lookup p n),
     stub_GetAttr = \<lambda>i. local_read_call default_attrs (GetAttr i),
     stub_SetAttr = \<lambda>c. local_inode_call (SetAttrCommandOf c),
     stub_ReadDir = \<lambda>i. local_read_call [] (ReadDir i),
     stub_Unlink = \<lambda>p n. local_inode_call (UnlinkCommand p n),
     stub_Rmdir = \<lambda>p n. local_inode_call (RmdirCommand p n),
     stub_Rename = \<lambda>p n np nn. local_inode_call (RenameCommand p n np nn),
     stub_GetLayout = \<lambda>i. local_read_call default_layout (GetLayout i),
     stub_ListLiveObjects = local_read_call [] (\<lambda>s. Ok (ListLiveObjects s)),
     stub_CommitWrite = \<lambda>i base es. local_inode_call (CommitWriteCommand i base es),
     stub_AppendWrite = \<lambda>i base es w. direct \<lparr>aw_attrs = default_attrs, aw_append_start = 0,
       aw_committed_extents = []\<rparr> (map_prod (reply_of \<circ> append_answer) id (local_run (AppendWriteCommand i base es) w)),
     stub_Truncate = \<lambda>i sz. local_inode_call (TruncateCommand i sz)\<rparr>"
  by (simp add: local_stub_def direct_stub_def fun_eq_iff local_inode_call_def local_read_call_def local_inode local_append
      local_read MkdirRpc_def CreateFileRpc_def SetAttrRpc_def UnlinkRpc_def RmdirRpc_def RenameRpc_def
      CommitWriteRpc_def AppendWriteRpc_def TruncateRpc_def LookupRpc_def GetAttrRpc_def ReadDirRpc_def
      GetLayoutRpc_def ListLiveObjectsRpc_def prod.map_comp)

section \<open>The site\<close>

definition site_env0 :: "(MetaState \<times> dated_store) env" where
  "site_env0 = \<lparr>meta_client = local_stub,
     store_get = \<lambda>req w. Fake_GetObject req (stored (snd w)),
     store_put = \<lambda>req w. (case dated_put req (snd w) of (r, d) \<Rightarrow> (r, (fst w, d))),
     add_direntry = \<lambda>name st off. map (\<lambda>c. of_nat (of_char c)) name @ [ucast off]\<rparr>"

definition local_site :: "(MetaState \<times> dated_store) site" where
  "local_site = \<lparr>site_env = site_env0,
     site_list = \<lambda>req w. dated_list req (snd w),
     site_delete = \<lambda>req w. (case dated_delete req (snd w) of (r, d) \<Rightarrow> (r, (fst w, d))),
     metadata = fst,
     object_bytes = \<lambda>w. fake_holds (stored (snd w)),
     object_time = \<lambda>w. date_of (snd w),
     clock_ms = \<lambda>w. now_ms (snd w)\<rparr>"

lemma local_site_sel [simp]:
  "meta_client (site_env local_site) = local_stub"
  "store_get (site_env local_site) = (\<lambda>req w. Fake_GetObject req (stored (snd w)))"
  "store_put (site_env local_site) = (\<lambda>req w. (case dated_put req (snd w) of (r, d) \<Rightarrow> (r, (fst w, d))))"
  "site_list local_site = (\<lambda>req w. dated_list req (snd w))"
  "site_delete local_site = (\<lambda>req w. (case dated_delete req (snd w) of (r, d) \<Rightarrow> (r, (fst w, d))))"
  "metadata local_site = fst" "object_bytes local_site = (\<lambda>w. fake_holds (stored (snd w)))"
  "object_time local_site = (\<lambda>w. date_of (snd w))" "clock_ms local_site = (\<lambda>w. now_ms (snd w))"
  by (simp_all add: local_site_def site_env0_def)

lemma local_run_effect:
  "fst (snd (local_run c w)) = snd (apply_command c (\<lambda>_. 5) (fst w)) \<and> snd (snd (local_run c w)) = snd w"
  by (auto simp: local_run_def split: prod.splits outcome.splits)

lemma local_inode_call_effect:
  assumes "local_inode_call c w = (r, w')"
  shows "w' = snd (local_run c w)"
  using assms by (auto simp: local_inode_call_def direct_def map_prod_def split: prod.splits sum.splits)

lemma local_read_call_effect: "local_read_call d query w = (r, w') \<Longrightarrow> w' = w"
  by (auto simp: local_read_call_def direct_read_def direct_def split: outcome.splits prod.splits)

lemma local_sends:
  assumes "sends local_stub c w w'"
  shows "w' = snd (local_run c w)"
  using assms
proof cases
  case (8 i base es r')
  then show ?thesis
    by (auto simp: local_stub_code direct_def map_prod_def split: prod.splits sum.splits)
qed (auto simp: local_stub_code dest: local_inode_call_effect)

lemma local_asks:
  assumes "asks local_stub w w'"
  shows "w' = w"
  using assms by cases (auto simp: local_stub_code dest: local_read_call_effect)

interpretation site: deployment local_site
proof unfold_locales
  show "\<exists>r. store_get (site_env local_site) (range_request bucket key off l) w = Inr r \<and>
      get_body r = take (unat l) (drop (unat off) body)"
    if "object_bytes local_site w bucket key = Some body" "unat off + unat l \<le> length body" "length body < 2 ^ 64"
    for w bucket key body off and l :: u64
    using that by (simp add: fake_get_range)
  show "(metadata local_site w' = metadata local_site w \<or>
        (\<exists>clk. metadata local_site w' = snd (apply_command c clk (metadata local_site w)))) \<and>
      object_bytes local_site w' = object_bytes local_site w \<and> object_time local_site w' = object_time local_site w \<and>
      sint (clock_ms local_site w) \<le> sint (clock_ms local_site w')"
    if "sends (meta_client (site_env local_site)) c w w'" for c w w'
    using local_sends [of c w w'] local_run_effect [of c w] that by auto
  show "metadata local_site w' = metadata local_site w \<and> object_bytes local_site w' = object_bytes local_site w \<and>
      object_time local_site w' = object_time local_site w \<and> sint (clock_ms local_site w) \<le> sint (clock_ms local_site w')"
    if "asks (meta_client (site_env local_site)) w w'" for w w'
    using local_asks [of w w'] that by simp
  show "ls = ListLiveObjects (metadata local_site w)"
    if "stub_ListLiveObjects (meta_client (site_env local_site)) w = ((st, ls), w')" for w st ls w'
    using that by (auto simp: local_stub_code local_read_call_def direct_read_def direct_def)
qed (auto simp: dated_put_def dated_delete_def Fake_PutObject_def Fake_DeleteObject_def fake_holds_def
    date_of_def tick_forward dated_list_def Fake_ListObjects_def in_entries_iff split: prod.splits)

section \<open>An interpreter of runs\<close>

text \<open>
  Actions of the environment, and a function that performs them where the step relation
  allows it.  The check at the start of a pass looks through the handles of the first \<open>n\<close>
  mounts; the interpreter keeps mounts to these numbers.
\<close>

datatype action =
    DoMount nat FuseServerConfig string
  | DoUnmount nat
  | DoRequest nat request
  | DoPass nat GcServiceConfig
  | DoPage nat
  | DoObject nat
  | DoEnd nat

definition pending_list :: "FuseServer \<Rightarrow> FileExtent list" where
  "pending_list srv = concat (map (\<lambda>k. case handles srv (of_nat k) of None \<Rightarrow> []
     | Some h \<Rightarrow> pending_extents h @ pending_append_extents h) [0..<unat (next_handle_id srv)])"

definition all_pending_list :: "nat \<Rightarrow> 'w system \<Rightarrow> FileExtent list" where
  "all_pending_list n D = concat (map (\<lambda>i. case mounts D i of None \<Rightarrow> [] | Some srv \<Rightarrow> pending_list srv) [0..<n])"

lemma pending_list_all:
  assumes "table_ok srv"
  shows "pending_of srv \<subseteq> set (pending_list srv)"
proof
  fix e
  assume "e \<in> pending_of srv"
  then obtain k h where h: "handles srv k = Some h" "e \<in> set (pending_extents h) \<union> set (pending_append_extents h)"
    by (auto simp: pending_of_def)
  have "unat k < unat (next_handle_id srv)"
    using assms h(1) by (auto simp: table_ok_def word_less_nat_alt)
  with h show "e \<in> set (pending_list srv)"
    by (auto simp: pending_list_def intro!: bexI [of _ "unat k"])
qed

lemma all_pending_list_all:
  assumes "mounts_ok bucket D" and "\<And>i. mounts D i \<noteq> None \<Longrightarrow> i < n"
  shows "all_pending D \<subseteq> set (all_pending_list n D)"
proof
  fix e
  assume "e \<in> all_pending D"
  then obtain i srv where i: "mounts D i = Some srv" "e \<in> pending_of srv"
    by (auto simp: all_pending_def)
  have "e \<in> set (pending_list srv)"
    using pending_list_all i mounts_okD [OF assms(1) i(1)] by (auto simp: mount_ok_def)
  then show "e \<in> set (all_pending_list n D)"
    using i(1) assms(2) [of i] by (auto simp: all_pending_list_def intro!: bexI [of _ i])
qed

fun play1 :: "'w site \<Rightarrow> string \<Rightarrow> nat \<Rightarrow> action \<Rightarrow> 'w system \<Rightarrow> (event \<times> 'w system) option" where
  "play1 S bucket n (DoMount i cfg wid) D =
     (if i < n \<and> mounts D i = None \<and> wid \<notin> writers D \<and> CHR ''/'' \<notin> set wid \<and> fs_bucket cfg = bucket
      then Some (MountUp i cfg wid,
        D\<lparr>mounts := (mounts D)(i \<mapsto> FuseServer_init cfg wid), writers := insert wid (writers D)\<rparr>)
      else None)"
| "play1 S bucket n (DoUnmount i) D = Some (MountDown i, D\<lparr>mounts := (mounts D)(i := None)\<rparr>)"
| "play1 S bucket n (DoRequest i r) D =
     (case mounts D i of
        None \<Rightarrow> None
      | Some srv \<Rightarrow>
          if usual r srv (metadata S (world D))
          then (case serve (site_env S) r srv (world D) of (rep, srv', w') \<Rightarrow>
                  Some (Request i r rep, D\<lparr>mounts := (mounts D)(i \<mapsto> srv'), world := w'\<rparr>))
          else None)"
| "play1 S bucket n (DoPass m cfg) D =
     (case Client_ListLiveObjects (meta_client (site_env S)) (world D) of
        (Inl e, w') \<Rightarrow> None
      | (Inr ls, w') \<Rightarrow>
          let cutoff = cutoff_ms (clock_ms S w') (grace_seconds cfg)
          in if gc_bucket cfg = bucket \<and> sint cutoff < sint (clock_ms S w') \<and>
               list_all (\<lambda>e. sint cutoff < sint (object_time S (world D) bucket (object_key e))) (all_pending_list n D)
             then Some (PassBegin m cfg, D\<lparr>passes := (passes D)(m \<mapsto> \<lparr>pass_config = cfg, pass_live = set ls,
               pass_cutoff = cutoff, pass_counters = GcCounters_init, pass_token = Some [], pass_queue = []\<rparr>),
               world := w'\<rparr>)
             else None)"
| "play1 S bucket n (DoPage m) D =
     (case passes D m of
        None \<Rightarrow> None
      | Some c \<Rightarrow>
          (case pass_token c of
             None \<Rightarrow> None
           | Some token \<Rightarrow>
               if pass_queue c \<noteq> [] then None
               else case site_list S \<lparr>list_bucket = gc_bucket (pass_config c),
                      list_prefix = ChunkPrefix (object_prefix (pass_config c)), continuation_token = token\<rparr> (world D) of
                      Inl e \<Rightarrow> None
                    | Inr page \<Rightarrow> Some (PassPage m, D\<lparr>passes := (passes D)(m \<mapsto>
                        c\<lparr>pass_token := (if next_continuation_token page = [] then None
                             else Some (next_continuation_token page)), pass_queue := objects page\<rparr>)\<rparr>)))"
| "play1 S bucket n (DoObject m) D =
     (case passes D m of
        None \<Rightarrow> None
      | Some c \<Rightarrow>
          (case pass_queue c of
             [] \<Rightarrow> None
           | obj # rest \<Rightarrow>
               (case gc_object (site_delete S) (gc_bucket (pass_config c)) (dry_run (pass_config c)) (pass_live c)
                       (pass_cutoff c) obj (pass_counters c, world D) of
                  (counters, w') \<Rightarrow> Some (PassObject m, D\<lparr>passes := (passes D)(m \<mapsto>
                     c\<lparr>pass_counters := counters, pass_queue := rest\<rparr>), world := w'\<rparr>))))"
| "play1 S bucket n (DoEnd m) D = Some (PassEnd m, D\<lparr>passes := (passes D)(m := None)\<rparr>)"

fun play :: "'w site \<Rightarrow> string \<Rightarrow> nat \<Rightarrow> action list \<Rightarrow> 'w system \<Rightarrow> (event list \<times> 'w system) option" where
  "play S bucket n [] D = Some ([], D)"
| "play S bucket n (a # as) D =
     (case play1 S bucket n a D of
        None \<Rightarrow> None
      | Some (ev, D1) \<Rightarrow> map_option (map_prod ((#) ev) id) (play S bucket n as D1))"

lemma play1_step:
  assumes "play1 S bucket n a D = Some (ev, D')" and "mounts_ok bucket D" and "\<And>i. mounts D i \<noteq> None \<Longrightarrow> i < n"
  shows "system_step S bucket ev D D' \<and> (\<forall>i. mounts D' i \<noteq> None \<longrightarrow> i < n)"
proof (cases a)
  case (DoPass m cfg)
  with assms(1) all_pending_list_all [OF assms(2,3)] show ?thesis
    using assms(3)
    by (auto simp: Let_def list_all_iff split: prod.splits sum.splits if_splits
        intro!: system_step.pass_begin)
next
  case (DoPage m)
  obtain c token page where p: "passes D m = Some c" "pass_token c = Some token" "pass_queue c = []"
    "site_list S \<lparr>list_bucket = gc_bucket (pass_config c),
      list_prefix = ChunkPrefix (object_prefix (pass_config c)), continuation_token = token\<rparr> (world D) = Inr page"
    using assms(1) DoPage by (auto split: option.splits if_splits sum.splits)
  from system_step.pass_page [OF p(1,3,2,4)] show ?thesis
    using assms(1,3) DoPage p by auto
qed (use assms in \<open>auto intro!: system_step.intros split: if_splits option.splits prod.splits list.splits sum.splits\<close>)

context deployment begin

lemma play_run:
  assumes "play S bucket n as D = Some (evs, D')" and "system_ok S bucket D" and "\<And>i. mounts D i \<noteq> None \<Longrightarrow> i < n"
  shows "system_run S bucket evs D D'"
  using assms
proof (induction as arbitrary: D evs)
  case (Cons a as)
  obtain ev D1 evs' where p: "play1 S bucket n a D = Some (ev, D1)" "play S bucket n as D1 = Some (evs', D')" "evs = ev # evs'"
    using Cons.prems(1) by (auto split: option.splits prod.splits)
  have "mounts_ok bucket D"
    using Cons.prems(2) by (simp add: system_ok_def)
  from play1_step [OF p(1) this Cons.prems(3)] have s: "system_step S bucket ev D D1" "\<And>i. mounts D1 i \<noteq> None \<Longrightarrow> i < n"
    by auto
  have "system_run S bucket evs' D1 D'"
    by (rule Cons.IH [OF p(2) step_keeps [OF s(1) Cons.prems(2)] s(2)])
  with s(1) show ?case
    unfolding p(3) by (rule system_run.more)
qed (auto intro: system_run.ended)

text \<open>A list of actions played in two parts.\<close>

end

lemma play_append:
  "play S bucket n (as @ bs) D = (case play S bucket n as D of
     None \<Rightarrow> None
   | Some (evs, D1) \<Rightarrow> (case play S bucket n bs D1 of None \<Rightarrow> None | Some (fs, D2) \<Rightarrow> Some (evs @ fs, D2)))"
  by (induction as arbitrary: D) (auto split: option.splits prod.splits)

lemma play_length: "play S bucket n as D = Some (evs, D') \<Longrightarrow> length evs = length as"
  by (induction as arbitrary: D evs) (auto split: option.splits prod.splits)

lemma play_bounded:
  assumes "play S bucket n as D = Some (evs, D')" and "\<And>i. mounts D i \<noteq> None \<Longrightarrow> i < n"
  shows "mounts D' i \<noteq> None \<Longrightarrow> i < n"
  using assms
proof (induction as arbitrary: D evs)
  case (Cons a as)
  obtain ev D1 evs' where p: "play1 S bucket n a D = Some (ev, D1)" "play S bucket n as D1 = Some (evs', D')"
    using Cons.prems(2) by (auto split: option.splits prod.splits)
  have "mounts D1 j \<noteq> None \<Longrightarrow> j < n" for j
    using p(1) Cons.prems(3)
    by (cases a) (auto split: if_splits option.splits prod.splits list.splits sum.splits simp: Let_def)
  with Cons.IH [OF Cons.prems(1) p(2)] show ?case
    by blast
qed auto

context deployment begin

lemma play_part:
  assumes "play S bucket n as D = Some (evs, D')" and "system_ok S bucket D" and "\<And>i. mounts D i \<noteq> None \<Longrightarrow> i < n"
    and "i \<le> j"
  obtains Di Dj where "play S bucket n (take i as) D = Some (take i evs, Di)"
    "play S bucket n (take j as) D = Some (take j evs, Dj)" "system_ok S bucket Di"
    "system_run S bucket (drop i (take j evs)) Di Dj"
proof -
  have split: "\<exists>Dk. play S bucket n (take k as) D = Some (take k evs, Dk)" for k
  proof -
    obtain e1 e2 Dk where "play S bucket n (take k as) D = Some (e1, Dk)" "play S bucket n (drop k as) Dk = Some (e2, D')"
      "evs = e1 @ e2"
      using assms(1) play_append [of S bucket n "take k as" "drop k as" D]
      by (auto split: option.splits prod.splits)
    moreover from this have "length e1 = length (take k as)" "length e2 = length (drop k as)"
      using play_length by blast+
    ultimately show ?thesis
      by (cases "k \<le> length as") auto
  qed
  obtain Di Dj where D: "play S bucket n (take i as) D = Some (take i evs, Di)"
    "play S bucket n (take j as) D = Some (take j evs, Dj)"
    using split by blast
  have parts: "take j as = take i as @ drop i (take j as)" "take j evs = take i evs @ drop i (take j evs)"
    using assms(4) by (metis append_take_drop_id min_absorb1 take_take)+
  then obtain e2 where "play S bucket n (drop i (take j as)) Di = Some (e2, Dj)" "take j evs = take i evs @ e2"
    using D play_append [of S bucket n "take i as" "drop i (take j as)" D]
    by (auto split: option.splits prod.splits)
  then have p: "play S bucket n (drop i (take j as)) Di = Some (drop i (take j evs), Dj)"
    using parts(2) by (metis same_append_eq)
  have ok: "system_ok S bucket Di"
    by (rule run_ok [OF play_run [OF D(1) assms(2,3)] assms(2)])
  show thesis
    using that [OF D ok play_run [OF p ok play_bounded [OF D(1) assms(3)]]] .
qed

end

end
