(* ===== verification/Deployment_Properties.thy ===== *)
theory Deployment_Properties
  imports Local_Site
begin

text \<open>
  Properties of a whole deployment: what holds of stored data in every reachable state of any
  number of mounts and collector passes, and what a user of one mount sees of another.
\<close>

section \<open>A run of two mounts and two passes\<close>

definition fresh_local :: "(MetaState \<times> dated_store) system" where
  "fresh_local = \<lparr>mounts = Map.empty, writers = {}, passes = Map.empty,
     world = (MetaState_init 4096 1, \<lparr>now_ms = 1000000, stored = omap_empty, stored_at = omap_empty\<rparr>)\<rparr>"

definition rw_file :: "u64 \<Rightarrow> fuse_file_info" where
  "rw_file n = \<lparr>fi_flags = O_RDWR, fh = n, direct_io = True\<rparr>"

definition one_second :: GcServiceConfig where
  "one_second = \<lparr>meta_address = [], gc_bucket = ''b'', object_prefix = [], s3_endpoint = ''s3'',
     s3_region = [], s3_use_https = True, s3_verify_ssl = True, grace_seconds = 1, dry_run = False\<rparr>"

text \<open>
  One mount writes a file and flushes it, the other opens and reads it, a pass of the collector
  finds its object in use; then the file is unlinked, a second pass deletes the object, and
  the second mount reads again.
\<close>

definition demo_actions :: "action list" where
  "demo_actions = [DoMount 0 sample_config ''w'', DoMount 1 sample_config ''v'',
     DoRequest 0 (FuseCreate None 1 ''f'' 420 (rw_file 0)),
     DoRequest 0 (FuseWrite 2 [1, 2, 3] 0 (rw_file 1)),
     DoRequest 0 (FuseFlush 2 (rw_file 1)),
     DoRequest 1 (FuseOpen 2 (rw_file 0)),
     DoRequest 1 (FuseRead 2 3 0 (rw_file 1)),
     DoPass 0 one_second, DoPage 0, DoObject 0, DoEnd 0,
     DoRequest 0 (FuseUnlink 1 ''f''),
     DoPass 0 one_second, DoPage 0, DoObject 0, DoEnd 0,
     DoRequest 1 (FuseRead 2 3 0 (rw_file 1))]"

definition demo_log :: "event list" where
  "demo_log = fst (the (play local_site ''b'' 2 demo_actions fresh_local))"

definition demo_at :: "nat \<Rightarrow> (MetaState \<times> dated_store) system" where
  "demo_at n = snd (the (play local_site ''b'' 2 (take n demo_actions) fresh_local))"

lemma demo_plays: "play local_site ''b'' 2 demo_actions fresh_local \<noteq> None"
  by code_simp

lemma demo_log_requests:
  "drop 3 demo_log = [
     Request 0 (FuseWrite 2 [1, 2, 3] 0 (rw_file 1)) (reply_write 3),
     Request 0 (FuseFlush 2 (rw_file 1)) reply_done,
     Request 1 (FuseOpen 2 (rw_file 0)) (reply_open (rw_file 1)),
     Request 1 (FuseRead 2 3 0 (rw_file 1)) (reply_buf [1, 2, 3]),
     PassBegin 0 one_second, PassPage 0, PassObject 0, PassEnd 0,
     Request 0 (FuseUnlink 1 ''f'') reply_done,
     PassBegin 0 one_second, PassPage 0, PassObject 0, PassEnd 0,
     Request 1 (FuseRead 2 3 0 (rw_file 1)) (reply_err ENOENT)]"
  by code_simp

lemma demo_log_from: "drop (n + 3) demo_log = drop n (drop 3 demo_log)"
  by simp

lemma fresh_local_fresh: "fresh_system local_site ''b'' fresh_local"
  by (auto simp: fresh_system_def fresh_local_def local_site_def fake_holds_def)

lemma demo_run:
  assumes "i \<le> j"
  shows "system_run local_site ''b'' (drop i (take j demo_log)) (demo_at i) (demo_at j)"
    and "system_reachable local_site ''b'' (demo_at i)"
proof -
  obtain D where play: "play local_site ''b'' 2 demo_actions fresh_local = Some (demo_log, D)"
    using demo_plays by (auto simp: demo_log_def)
  have none: "mounts fresh_local k \<noteq> None \<Longrightarrow> k < 2" for k
    by (simp add: fresh_local_def)
  note ok = site.fresh_ok [OF fresh_local_fresh]
  obtain Di Dj where D: "play local_site ''b'' 2 (take i demo_actions) fresh_local = Some (take i demo_log, Di)"
    "play local_site ''b'' 2 (take j demo_actions) fresh_local = Some (take j demo_log, Dj)"
    "system_run local_site ''b'' (drop i (take j demo_log)) Di Dj"
    by (rule site.play_part [OF play ok none assms])
  then show "system_run local_site ''b'' (drop i (take j demo_log)) (demo_at i) (demo_at j)"
    by (simp add: demo_at_def)
  from run_reachable [OF site.play_run [OF D(1) ok none] system_reachable.start [OF fresh_local_fresh]]
  show "system_reachable local_site ''b'' (demo_at i)"
    using D(1) by (simp add: demo_at_def)
qed

lemma demo_step:
  assumes "drop n demo_log = ev # evs"
  shows "system_step local_site ''b'' ev (demo_at n) (demo_at (Suc n))"
proof -
  have "drop n (take (Suc n) demo_log) = [ev]"
    using assms by (simp add: drop_take)
  with demo_run(1) [of n "Suc n"] show ?thesis
    by (auto elim!: system_runE system_run_endedE)
qed

section \<open>Stored data\<close>











section \<open>What a deployment does not give\<close>

text \<open>The requests of one mount.\<close>

fun of_mount :: "nat \<Rightarrow> event \<Rightarrow> bool" where
  "of_mount i (Request j r rep) = (i = j)"
| "of_mount i _ = False"


text \<open>
  The guard of a pass on uncommitted writes is needed.  A pass whose grace period is over for a
  write that is not flushed yet deletes its object; the flush then succeeds, and the file names
  an object that is gone.
\<close>

abbreviation early_pass :: "(int \<times> MetaState \<times> dated_store) option" where
  "early_pass \<equiv> RunOnce (Client_ListLiveObjects local_stub) (site_list local_site) (site_delete local_site)
     (now_ms (snd (world (demo_at 4)))) one_second (world (demo_at 4))"

abbreviation flush_after_pass :: "reply \<times> FuseServer \<times> MetaState \<times> dated_store" where
  "flush_after_pass \<equiv> PulpfsFlush site_env0 2 (rw_file 1) (the (mounts (demo_at 4) 0)) (snd (the early_pass))"

lemma flush_after_grace_lost:
  "map_option fst early_pass = Some 0"
  "fst flush_after_pass = reply_done"
  "file_size (fst (snd (snd flush_after_pass))) 2 = 3"
  "fst (PulpfsRead site_env0 2 3 0 (rw_file 1) (fst (snd flush_after_pass)) (snd (snd flush_after_pass))) = reply_err ENOENT"
  by code_simp+

text \<open>A metadata service that serves appends, but whose answers to them come too late.\<close>

definition answers_lost :: "'w stub \<Rightarrow> 'w stub" where
  "answers_lost c = c\<lparr>stub_AppendWrite := \<lambda>i base es w.
     (case stub_AppendWrite c i base es w of
        ((st, r), w) \<Rightarrow> ((\<lparr>error_code = DEADLINE_EXCEEDED, error_message = ''late''\<rparr>, r), w))\<rparr>"

text \<open>C35: an append is not safe to retry: when the metadata service commits the appends of a flush
  and only the answer is lost, the flush reports an error and keeps them, and the next flush
  that succeeds writes the same extents into the file a second time, behind the first copy; the
  version that both commits send does not prevent it.\<close>

theorem retried_append_duplicates:
  assumes "metadata_link svc parse serialize (=) (meta_client env)"
    and "GetFileHandle (fh fi) srv = Some h" and "pending_extents h = []" and "pending_append_extents h \<noteq> []"
    and "machine_ok (state_of svc w)"
    and "status_ok (fst (fst (stub_AppendWrite (meta_client env) (h_inode_id h) (version (l_attrs (layout h)))
      (pending_append_extents h) w)))"
    and "PulpfsFlush (env\<lparr>meta_client := answers_lost (meta_client env)\<rparr>) ino fi srv w = (rep, srv1, w1)"
    and "PulpfsFlush env ino fi srv1 w1 = (reply_done, srv2, w2)"
    and "admissible (file_size (state_of svc w) (h_inode_id h)) (pending_append_extents h)"
    and "admissible (file_size (state_of svc w1) (h_inode_id h)) (pending_append_extents h)"
  shows "rep = reply_err (ToErrno (FromGrpcStatus \<lparr>error_code = DEADLINE_EXCEEDED, error_message = ''late''\<rparr>)) \<and>
    file_content (state_of svc w2) (h_inode_id h) =
      overwrite_all (map (shift_extent (file_size (state_of svc w1) (h_inode_id h))) (pending_append_extents h))
        (overwrite_all (map (shift_extent (file_size (state_of svc w) (h_inode_id h))) (pending_append_extents h))
          (file_content (state_of svc w) (h_inode_id h))) \<and>
    file_size (state_of svc w1) (h_inode_id h) =
      file_size (state_of svc w) (h_inode_id h) + Max (insert 0 (ExtentEnd ` set (pending_append_extents h)))"
proof -
  let ?i = "h_inode_id h" and ?es = "pending_append_extents h" and ?base = "version (l_attrs (layout h))"
  let ?late = "\<lparr>error_code = DEADLINE_EXCEEDED, error_message = ''late''\<rparr> :: Status"
  obtain st r w' where sent: "stub_AppendWrite (meta_client env) ?i ?base ?es w = ((st, r), w')" "status_ok st"
    using assms(6) by (cases "stub_AppendWrite (meta_client env) ?i ?base ?es w") auto
  have lost: "Client_AppendWrite (answers_lost (meta_client env)) ?i ?base ?es w = (Inl (FromGrpcStatus ?late), w')"
    and served: "Client_AppendWrite (meta_client env) ?i ?base ?es w = (Inr r, w')"
    using sent by (simp_all add: Client_AppendWrite_def finish_def answers_lost_def status_ok_def)
  have first: "rep = reply_err (ToErrno (FromGrpcStatus ?late))" "w1 = w'" "GetFileHandle (fh fi) srv1 = Some h"
    using assms(2-4,7) lost
    by (auto simp: PulpfsFlush_def commit_fh_def CommitHandle_def commit_pending_def commit_appends_def
        reply_result_def GetFileHandle_def)
  obtain now q where a1: "AppendWrite ?i ?base ?es now (state_of svc w) = (Ok q, state_of svc w1)"
    by (rule metadata_link.client_append [OF assms(1) served]) (simp add: first(2))
  obtain r2 w3 where c2: "Client_AppendWrite (meta_client env) ?i ?base ?es w1 = (Inr r2, w3)"
    and "w2 = snd (refresh_layout env (h\<lparr>pending_append_extents := [], pending_append_length := 0\<rparr>) w3)"
    using assms(3,4,8) first(3)
    by (auto simp: PulpfsFlush_def commit_fh_def CommitHandle_def commit_pending_def commit_appends_def
        reply_result_def split: prod.splits sum.splits)
  then have w2: "state_of svc w2 = state_of svc w3"
    using refresh_state [OF assms(1)] by simp
  obtain now2 q2 where a2: "AppendWrite ?i ?base ?es now2 (state_of svc w1) = (Ok q2, state_of svc w2)"
    by (rule metadata_link.client_append [OF assms(1) c2]) (simp add: w2)
  have isfile: "itype s ?i = Some INODE_TYPE_FILE" if "AppendWrite ?i ?base ?es t s = (Ok q, s')" for t s q s'
    using that by (auto simp: AppendWrite_def ValidateRegularFile_Inr split: sum.splits)
  have ok1: "machine_ok (state_of svc w1)"
    using assms(5,9) a1 wf_AppendWrite [of "state_of svc w" ?i ?base ?es now]
      data_AppendWrite [of "state_of svc w" ?i ?es ?base now] by (simp add: machine_ok_def)
  from AppendWrite_effect [OF assms(5) isfile [OF a1] assms(9), of ?base now] a1
  have one: "file_content (state_of svc w1) ?i = overwrite_all (map (shift_extent (file_size (state_of svc w) ?i)) ?es)
      (file_content (state_of svc w) ?i)"
    "file_size (state_of svc w1) ?i = file_size (state_of svc w) ?i + Max (insert 0 (ExtentEnd ` set ?es))"
    by (auto dest: GetAttr_size)
  from AppendWrite_effect [OF ok1 isfile [OF a2] assms(10), of ?base now2] a2
  have "file_content (state_of svc w2) ?i = overwrite_all (map (shift_extent (file_size (state_of svc w1) ?i)) ?es)
      (file_content (state_of svc w1) ?i)"
    by auto
  with one first(1) show ?thesis
    by simp
qed

text \<open>The file \<^verbatim>\<open>/g\<close> of the example, open for appending with four bytes pending.\<close>

definition append_server :: FuseServer where
  "append_server = snd (AllocateFileHandle ((new_handle 4 O_RDWR)\<lparr>append_mode := True,
     pending_append_extents := [extent_at 0 4 ''k9''], pending_append_length := 4\<rparr>)
     (FuseServer_init sample_config ''w''))"

definition append_world :: "MetaState \<times> dated_store" where
  "append_world = (demo, \<lparr>now_ms = 1, stored = omap_empty, stored_at = omap_empty\<rparr>)"

abbreviation late_flush :: "reply \<times> FuseServer \<times> MetaState \<times> dated_store" where
  "late_flush \<equiv> PulpfsFlush (site_env0\<lparr>meta_client := answers_lost (meta_client site_env0)\<rparr>) 4 sample_file
     append_server append_world"

theorem retried_append_duplicates_witness:
  "\<exists>srv2 w2. PulpfsFlush site_env0 4 sample_file (fst (snd late_flush)) (snd (snd late_flush)) = (reply_done, srv2, w2) \<and>
     file_content (fst w2) 4 4 = Some (''k9'', 0) \<and> file_content (fst w2) 4 8 = Some (''k9'', 0)"
proof -
  let ?h = "(new_handle 4 O_RDWR)\<lparr>append_mode := True,
     pending_append_extents := [extent_at 0 4 ''k9''], pending_append_length := 4\<rparr>"
  have h: "GetFileHandle (fh sample_file) append_server = Some ?h"
    by (simp add: append_server_def AllocateFileHandle_def GetFileHandle_def FuseServer_init_def sample_file_def)
  have h': "h_inode_id ?h = 4" "pending_extents ?h = []" "pending_append_extents ?h = [extent_at 0 4 ''k9'']"
    by (simp_all add: new_handle_def FuseFileHandle_init_def)
  have served: "status_ok (fst (fst (stub_AppendWrite (meta_client site_env0) (h_inode_id ?h)
      (version (l_attrs (layout ?h))) (pending_append_extents ?h) append_world)))"
    by code_simp
  have late: "late_flush = (fst late_flush, fst (snd late_flush), snd (snd late_flush))"
    by simp
  let ?again = "PulpfsFlush site_env0 4 sample_file (fst (snd late_flush)) (snd (snd late_flush))"
  have "fst ?again = reply_done"
    by code_simp
  then have again: "?again = (reply_done, fst (snd ?again), snd (snd ?again))"
    by (simp add: prod_eq_iff)
  have sizes: "file_size (fst append_world) 4 = 4" "file_size (fst (snd (snd late_flush))) 4 = 8"
    by code_simp+
  have adm: "admissible 4 [extent_at 0 4 ''k9'']" "admissible 8 [extent_at 0 4 ''k9'']"
    by code_simp+
  have link: "metadata_link local_service read_message print_message (=) (meta_client site_env0)"
    using local.metadata_link_axioms by (simp add: local_stub_def site_env0_def)
  have demo: "machine_ok (fst append_world)"
    using demo_ok by (simp add: append_world_def)
  have "file_content (fst (snd (snd ?again))) 4 = overwrite_all (map (shift_extent 8) [extent_at 0 4 ''k9''])
      (overwrite_all (map (shift_extent 4) [extent_at 0 4 ''k9'']) (file_content (fst append_world) 4))"
    using retried_append_duplicates [OF link h h'(2) _ _ served late again] sizes adm demo
    unfolding h' local_state by simp
  moreover have "overwrite_all (map (shift_extent 8) [extent_at 0 4 ''k9''])
      (overwrite_all (map (shift_extent 4) [extent_at 0 4 ''k9'']) (file_content (fst append_world) 4)) p = Some (''k9'', 0)"
    if "p = 4 \<or> p = 8" for p
    using that by (auto simp: overwrite_def source_of_def shift_extent_def extent_at_def covers_def ExtentEnd_def)
  ultimately have "file_content (fst (snd (snd ?again))) 4 4 = Some (''k9'', 0)"
    "file_content (fst (snd (snd ?again))) 4 8 = Some (''k9'', 0)"
    by simp_all
  with again show ?thesis
    by blast
qed

end
