(* ===== verification/Spec2Isabelle.thy ===== *)
theory Spec2Isabelle
  imports Meta_Properties Data_Properties Service_Properties Store_Properties Fuse_Properties Cluster_Properties
    Deployment_Properties
begin

text \<open>
  \<^bold>\<open>pulpfs: a file system with replicated metadata and file data in an object store.\<close>

  The program is one binary (\<^verbatim>\<open>src/main.cc\<close>) with three services.  The \<^emph>\<open>metadata service\<close>
  keeps the name space and the layout of every file in a state machine
  (\<^verbatim>\<open>src/meta_state.cc\<close>) that Raft replicates; gRPC handlers in front of it propose
  commands and answer reads (\<^verbatim>\<open>src/meta_service.cc\<close>, \<^verbatim>\<open>src/meta_server.cc\<close>).  The \<^emph>\<open>FUSE
  service\<close> (\<^verbatim>\<open>src/fuse/\<close>) serves a mount: names go to the metadata service through a client
  (\<^verbatim>\<open>meta_client.cc\<close>), file data goes to the object store as objects that are written once
  (\<^verbatim>\<open>file_io.cc\<close>), and a flush tells the metadata which ranges of the file are in which object
  (\<^verbatim>\<open>fuse_server.cc\<close>).  The \<^emph>\<open>garbage collector\<close> (\<^verbatim>\<open>src/gc_service.cc\<close>) deletes objects that
  no layout names.  Objects live on S3 (\<^verbatim>\<open>src/object/s3_store.cc\<close>) behind the interface
  \<^verbatim>\<open>src/object/object_store.h\<close>.

  \<^bold>\<open>The theories and what they model.\<close>

  \<^item> \<^theory_text>\<open>Prelude\<close> has the machine integers, decimal rendering and generic lemmas, \<^theory_text>\<open>Ordered_Map\<close>
    the ordered maps that stand for \<^verbatim>\<open>std::map\<close>.
  \<^item> \<^theory_text>\<open>Messages\<close> models \<^verbatim>\<open>proto/pulpfs.proto\<close>, \<^theory_text>\<open>Errors\<close> models \<^verbatim>\<open>src/error.cc\<close>.  A C++ call
    returns, fails with an \<^verbatim>\<open>Error\<close>, throws or does not return: the datatype \<open>outcome\<close>.
  \<^item> \<^theory_text>\<open>Extents\<close> models the extent arithmetic of \<^verbatim>\<open>meta_state.cc\<close> on 64-bit words, with the
    abstract content of a list of extents, a function from positions to places in objects.
  \<^item> \<^theory_text>\<open>Meta_State\<close> has the record \<open>MetaState\<close> and every operation of the class, as a function from
    the state to an outcome and the state after.  The walk to the root in \<open>IsAncestor\<close> is a
    \<^theory_text>\<open>partial_function\<close>, so not returning is the value \<open>None\<close>.  \<^theory_text>\<open>Namespace\<close> is the abstract tree
    of names, \<^theory_text>\<open>Namespace_Spec\<close> the abstract operations on it, with the error each must give.
  \<^item> \<^theory_text>\<open>Meta_Invariant\<close> and \<^theory_text>\<open>Meta_Data\<close> show that every operation keeps the state well formed
    (\<open>meta_wf\<close>: a rooted tree, link counts, layouts, fresh numbers; \<open>data_ok\<close>: extents sorted,
    disjoint and inside the file) and say what each does to the content of files.
  \<^item> \<^theory_text>\<open>Meta_Snapshot\<close>, \<^theory_text>\<open>Meta_Service\<close> and \<^theory_text>\<open>Meta_Rpc\<close> model snapshots, \<^verbatim>\<open>MetaService::Apply\<close> and
    the RPC handlers; \<^theory_text>\<open>Meta_Machine\<close> states the interface of a replicated state machine as
    the locales \<open>state_machine\<close> and \<open>replica_machine\<close>, which \<^theory_text>\<open>Meta_Machine\<close> and
    \<^theory_text>\<open>Meta_Replica\<close> interpret on \<open>apply_command\<close>.
  \<^item> \<^theory_text>\<open>Object_Store\<close> is the interface of object stores, as a locale with the contract of its
    users; \<^theory_text>\<open>S3_Store\<close> models \<^verbatim>\<open>s3_store.cc\<close> and shows that it meets that contract whenever
    S3 does what it documents (locale \<open>s3_sdk\<close>).  \<^theory_text>\<open>File_IO\<close> models \<^verbatim>\<open>file_io.cc\<close>, \<^theory_text>\<open>Read_Back\<close>
    says what reading an open file gives; \<^theory_text>\<open>Gc_Service\<close> models the collector.
  \<^item> \<^theory_text>\<open>Meta_Client\<close> and \<^theory_text>\<open>Fuse_Server\<close> model the client and every handler of the FUSE operation
    table: a handler takes the state of the server and a world and gives a reply with the new
    ones.  \<^theory_text>\<open>Fuse_Handles\<close> has the table of open files and its invariant.
  \<^item> \<^theory_text>\<open>Program\<close> models \<^verbatim>\<open>main.cc\<close>, the start and stop of the metadata server and the FUSE
    session, as lists of library calls.
  \<^item> \<^theory_text>\<open>Cluster\<close> and \<^theory_text>\<open>Meta_Link\<close> connect the client to the state machine: the locale
    \<open>raft_cluster\<close> states what the handlers rely on of Raft (a successful proposal was applied
    once, at a state that others may have changed), \<open>metadata_link\<close> what the client relies on
    of gRPC.  \<^theory_text>\<open>Wire\<close> and \<^theory_text>\<open>Local_Cluster\<close> interpret them on one node that runs the model's
    \<open>Apply\<close>.
  \<^item> \<^theory_text>\<open>Layout_Objects\<close> says which objects a metadata state uses, and that a command brings in
    only parts of what the state had or the command carries.
  \<^item> \<^theory_text>\<open>Deployment\<close> puts the parts together: a system of any number of mounts and collector
    passes over one metadata service and one bucket, as the step relation \<open>system_step\<close>.  A step
    of a mount is one request through \<open>serve\<close>; a pass is cut where \<^verbatim>\<open>RunOnce\<close> calls its
    services, so that other steps come between its listing, its pages and its deletes.  The
    locale \<open>deployment\<close>, which extends the contracts of stores and listings, states what all of
    it relies on of the services.  \<^theory_text>\<open>Deployment_Calls\<close> breaks each handler into the commands it
    sends, \<^theory_text>\<open>Deployment_Invariant\<close> has the invariant \<open>system_ok\<close> and that every step keeps it,
    \<^theory_text>\<open>Deployment_Runs\<close> what follows for runs.  \<^theory_text>\<open>Local_Site\<close> interprets the locale on the
    metadata service of one node beside a store with dates, and has an interpreter \<open>play\<close> that
    makes runs computable.
  \<^item> \<^theory_text>\<open>Examples\<close> has a small reachable state to which the properties are applied.

  \<^bold>\<open>The properties.\<close>  \<^theory_text>\<open>Meta_Properties\<close>: reachable states are well formed, no command throws
  or hangs, and each operation on names does what its specification says.
  \<^theory_text>\<open>Data_Properties\<close>: merging, writing, appending and truncating on the content of files, and
  what the checks of a write leave open.  \<^theory_text>\<open>Service_Properties\<close>: snapshots and replication.
  \<^theory_text>\<open>Io_Properties\<close> and \<^theory_text>\<open>Store_Properties\<close>: reading, reading one's writes, names of objects,
  S3, and what the collector keeps and deletes.  \<^theory_text>\<open>Fuse_Properties\<close>: open files, listings,
  attributes, errors on their way to the user, processes.  \<^theory_text>\<open>Cluster_Properties\<close>: what an answer
  says about the replicated state, and how flush and open carry the content of a file between
  an open file and the metadata.  \<^theory_text>\<open>Deployment_Properties\<close>: in every reachable state of a
  deployment stored data is there and stays there, passes of the collector and unflushed writes
  change no file, a read after open sees what was flushed before, on whatever mounts; and two
  things that a deployment does not give, a retry of a commit that is not applied twice and
  the data of a file that was unlinked while open.

  \<^bold>\<open>Bounds.\<close>  Integers of the code are words of their width.  Two loops may run on: the walk
  of \<open>IsAncestor\<close> (it ends on every well-formed state) and the listing loop of the collector
  (it ends on a store whose listing does); both are partial functions and the properties
  state when they return.  No fuel is used.

  \<^bold>\<open>Not modelled.\<close>  The Raft library, gRPC, the encoding of messages, libfuse and the AWS SDK are
  parameters, with what the code relies on as hypotheses of locales.  The mutexes are not
  modelled: each handler and each application of a command runs to its end before the next,
  and what other clients do in between is the relation \<open>others\<close>.  In a deployment a request is
  one step, a command whose answer is lost was applied before its call ended or never is, and
  the clock that dates objects is the one the collector reads.  A pass starts only when its
  grace period lies before its clock and no write is still uncommitted that is older: the code
  does not check this, it is what the flag is for.  What an open file shows when another mount
  has changed its layout since is not part of the invariant.  Log output, the parsing of
  flags and the tests are left out.
\<close>

end
